(* ===== verification/Prelude.thy ===== *)
theory Prelude
  imports Main "HOL-Library.AList"
begin

text \<open>
  The prelude of the development: programs that call the outside world, their runs and the
  calculus used to reason about them, the parts of Go's strings, maps and integers that the
  controllers use, and the lemma collections shared by the component theories.

  A controller is a Go function that computes with values in memory and calls services it does
  not implement (a Kubernetes API server, Azure, the clock). Such a function is modelled as a
  value of type \<open>('q, 'p, 'r) prog\<close>: it returns, panics, or makes a call \<open>q\<close> and continues with
  whatever answer \<open>p\<close> it gets. Nothing is assumed about the answers, so a theorem about all runs
  of such a program holds whatever the services do.
\<close>

named_theorems prog_simps \<open>unfolding a program\<close>
named_theorems wp_simps \<open>computing a precondition\<close>

section \<open>Programs with external calls\<close>

datatype (dead 'q, dead 'p, 'r) prog =
    Ret 'r
  | Panic string
  | Call 'q "'p \<Rightarrow> ('q, 'p, 'r) prog"

primrec bindP :: "('q, 'p, 'a) prog \<Rightarrow> ('a \<Rightarrow> ('q, 'p, 'b) prog) \<Rightarrow> ('q, 'p, 'b) prog" where
  "bindP (Ret r) f = f r"
| "bindP (Panic s) f = Panic s"
| "bindP (Call q k) f = Call q (\<lambda>a. bindP (k a) f)"

text \<open>
  A loop over a list whose body may stop the loop (\<open>return\<close> inside \<open>for\<close>): the body gets the
  accumulator and answers either \<open>Inl\<close> the value the enclosing function returns at once, or
  \<open>Inr\<close> the accumulator to continue with.
\<close>

primrec forP :: "'x list \<Rightarrow> 's \<Rightarrow> ('x \<Rightarrow> 's \<Rightarrow> ('q, 'p, 'a + 's) prog) \<Rightarrow> ('q, 'p, 'a + 's) prog" where
  "forP [] s body = Ret (Inr s)"
| "forP (x # xs) s body =
     bindP (body x s) (\<lambda>r. case r of Inl a \<Rightarrow> Ret (Inl a) | Inr s' \<Rightarrow> forP xs s' body)"

text \<open>
  \<open>steps p tr p'\<close>: after the calls and answers \<open>tr\<close>, the program \<open>p\<close> has become \<open>p'\<close>. The process
  may be stopped at any moment, so every prefix of a run is such a trace; a complete run ends in
  \<open>Ret r\<close> or \<open>Panic s\<close>.
\<close>

inductive steps :: "('q, 'p, 'r) prog \<Rightarrow> ('q \<times> 'p) list \<Rightarrow> ('q, 'p, 'r) prog \<Rightarrow> bool" where
  steps_refl: "steps p [] p"
| steps_call: "steps (k a) tr p' \<Longrightarrow> steps (Call q k) ((q, a) # tr) p'"

text \<open>A program that no answer can drive into a panic.\<close>

primrec nopanic :: "('q, 'p, 'r) prog \<Rightarrow> bool" where
  "nopanic (Ret r) = True"
| "nopanic (Panic s) = False"
| "nopanic (Call q k) = (\<forall>a. nopanic (k a))"

text \<open>
  The precondition calculus. \<open>wp G Q p h\<close> holds if, started with the history \<open>h\<close>, every call of
  \<open>p\<close> satisfies the guard \<open>G\<close> (which sees the history before the call), and every return value
  satisfies \<open>Q\<close> (which sees the whole history).
\<close>

primrec wp :: "(('q \<times> 'p) list \<Rightarrow> 'q \<Rightarrow> bool) \<Rightarrow> (('q \<times> 'p) list \<Rightarrow> 'r \<Rightarrow> bool)
    \<Rightarrow> ('q, 'p, 'r) prog \<Rightarrow> ('q \<times> 'p) list \<Rightarrow> bool" where
  "wp G Q (Ret r) = (\<lambda>h. Q h r)"
| "wp G Q (Panic s) = (\<lambda>h. True)"
| "wp G Q (Call q k) = (\<lambda>h. G h q \<and> (\<forall>a. wp G Q (k a) (h @ [(q, a)])))"

text \<open>The same for the histories in which the program panics.\<close>

primrec wpan :: "(('q \<times> 'p) list \<Rightarrow> bool) \<Rightarrow> (('q \<times> 'p) list \<Rightarrow> 'r \<Rightarrow> bool)
    \<Rightarrow> ('q, 'p, 'r) prog \<Rightarrow> ('q \<times> 'p) list \<Rightarrow> bool" where
  "wpan P Q (Ret r) = (\<lambda>h. Q h r)"
| "wpan P Q (Panic s) = (\<lambda>h. P h)"
| "wpan P Q (Call q k) = (\<lambda>h. \<forall>a. wpan P Q (k a) (h @ [(q, a)]))"

definition guarded :: "(('q \<times> 'p) list \<Rightarrow> 'q \<Rightarrow> bool) \<Rightarrow> ('q \<times> 'p) list \<Rightarrow> ('q \<times> 'p) list \<Rightarrow> bool" where
  "guarded G h tr = (\<forall>i < length tr. G (h @ take i tr) (fst (tr ! i)))"

text \<open>Running a program against a deterministic service with state \<open>'w\<close>.\<close>

primrec exec :: "('w \<Rightarrow> 'q \<Rightarrow> 'p \<times> 'w) \<Rightarrow> ('q, 'p, 'r) prog \<Rightarrow> 'w \<Rightarrow> 'r option \<times> 'w" where
  "exec srv (Ret r) = (\<lambda>w. (Some r, w))"
| "exec srv (Panic s) = (\<lambda>w. (None, w))"
| "exec srv (Call q k) = (\<lambda>w. case srv w q of (a, w') \<Rightarrow> exec srv (k a) w')"

text \<open>
  The run of a program on a list of answers: the trace and the program that is left, or the trace
  and the value returned if the answers drive it to the end.
\<close>

primrec play :: "'p list \<Rightarrow> ('q, 'p, 'r) prog \<Rightarrow> ('q \<times> 'p) list \<times> ('q, 'p, 'r) prog" where
  "play [] p = ([], p)"
| "play (a # as) p =
     (case p of Call q k \<Rightarrow> (case play as (k a) of (tr, p') \<Rightarrow> ((q, a) # tr, p')) | _ \<Rightarrow> ([], p))"

primrec playRet :: "'p list \<Rightarrow> ('q, 'p, 'r) prog \<Rightarrow> (('q \<times> 'p) list \<times> 'r) option" where
  "playRet [] p = (case p of Ret r \<Rightarrow> Some ([], r) | _ \<Rightarrow> None)"
| "playRet (a # as) p =
     (case p of Call q k \<Rightarrow> map_option (\<lambda>(tr, r). ((q, a) # tr, r)) (playRet as (k a)) | _ \<Rightarrow> None)"

definition nextCall :: "('q, 'p, 'r) prog \<Rightarrow> 'q option" where
  "nextCall p = (case p of Call q k \<Rightarrow> Some q | _ \<Rightarrow> None)"

definition isPanic :: "('q, 'p, 'r) prog \<Rightarrow> bool" where
  "isPanic p = (case p of Panic m \<Rightarrow> True | _ \<Rightarrow> False)"

section \<open>Go's maps with string keys\<close>

text \<open>
  A Go map is \<open>None\<close> when it is the nil map, and otherwise an association list. Reading or deleting
  from the nil map is allowed; writing to it panics.
\<close>

type_synonym 'v gomap = "(string \<times> 'v) list option"

definition mget :: "'v gomap \<Rightarrow> string \<Rightarrow> 'v option" where
  "mget m k = (case m of None \<Rightarrow> None | Some al \<Rightarrow> map_of al k)"

definition mput :: "string \<Rightarrow> 'v \<Rightarrow> 'v gomap \<Rightarrow> 'v gomap option" where
  "mput k v m = (case m of None \<Rightarrow> None | Some al \<Rightarrow> Some (Some (AList.update k v al)))"

definition mdel :: "string \<Rightarrow> 'v gomap \<Rightarrow> 'v gomap" where
  "mdel k m = map_option (AList.delete k) m"

definition mkeys :: "'v gomap \<Rightarrow> string list" where
  "mkeys m = (case m of None \<Rightarrow> [] | Some al \<Rightarrow> remdups (map fst al))"

definition mlen :: "'v gomap \<Rightarrow> nat" where
  "mlen m = length (mkeys m)"

text \<open>The value \<open>m[k]\<close> of a map with string values: the empty string when the key is absent.\<close>

definition mgets :: "string gomap \<Rightarrow> string \<Rightarrow> string" where
  "mgets m k = (case mget m k of None \<Rightarrow> [] | Some v \<Rightarrow> v)"

text \<open>\<open>if m == nil \{ m = map[string]T\{\} \}\<close>\<close>

definition minit :: "'v gomap \<Rightarrow> 'v gomap" where
  "minit m = (case m of None \<Rightarrow> Some [] | Some al \<Rightarrow> Some al)"

text \<open>An assignment to an entry after that.\<close>

definition mapPut :: "string \<Rightarrow> 'v \<Rightarrow> 'v gomap \<Rightarrow> 'v gomap" where
  "mapPut k v m = (case minit m of None \<Rightarrow> None | Some al \<Rightarrow> Some (AList.update k v al))"

section \<open>Go's 64-bit and 32-bit integers\<close>

definition wrap64 :: "int \<Rightarrow> int" where
  "wrap64 x = (x + 2 ^ 63) mod 2 ^ 64 - 2 ^ 63"

definition wrap32 :: "int \<Rightarrow> int" where
  "wrap32 x = (x + 2 ^ 31) mod 2 ^ 32 - 2 ^ 31"

text \<open>\<open>time.Time.Sub\<close> and \<open>time.Since\<close> saturate at the largest and smallest \<open>time.Duration\<close>.\<close>

definition sat64 :: "int \<Rightarrow> int" where
  "sat64 x = (if x < - (2 ^ 63) then - (2 ^ 63) else if 2 ^ 63 - 1 < x then 2 ^ 63 - 1 else x)"

text \<open>Division of Go integers truncates towards zero.\<close>

definition quot :: "int \<Rightarrow> int \<Rightarrow> int" where
  "quot a b = sgn a * sgn b * (\<bar>a\<bar> div \<bar>b\<bar>)"

section \<open>Go's string conversions\<close>

definition digit_char :: "nat \<Rightarrow> char" where
  "digit_char d = char_of (48 + d)"

fun show_nat :: "nat \<Rightarrow> string" where
  "show_nat n = (if n < 10 then [digit_char n] else show_nat (n div 10) @ [digit_char (n mod 10)])"

declare show_nat.simps [simp del]

text \<open>\<open>strconv.FormatInt(n, 10)\<close>, and \<open>%d\<close> and \<open>%v\<close> of an integer.\<close>

definition FormatInt :: "int \<Rightarrow> string" where
  "FormatInt n = (if n < 0 then CHR ''-'' # show_nat (nat (- n)) else show_nat (nat n))"

definition is_digit :: "char \<Rightarrow> bool" where
  "is_digit c = (48 \<le> (of_char c :: nat) \<and> (of_char c :: nat) \<le> 57)"

fun digits_val :: "nat \<Rightarrow> string \<Rightarrow> nat" where
  "digits_val acc [] = acc"
| "digits_val acc (c # cs) = digits_val (10 * acc + (of_char c - 48)) cs"

text \<open>
  \<open>strconv.Atoi\<close> and \<open>strconv.ParseInt(s, 10, 64)\<close>: an optional sign, at least one digit, and a
  value in the range of a 64-bit integer; \<open>None\<close> stands for the error.
\<close>

definition Atoi :: "string \<Rightarrow> int option" where
  "Atoi s =
     (let (neg, ds) = (case s of [] \<Rightarrow> (False, [])
                       | c # cs \<Rightarrow> if c = CHR ''-'' then (True, cs)
                                   else if c = CHR ''+'' then (False, cs) else (False, s));
          v = (if neg then - int (digits_val 0 ds) else int (digits_val 0 ds))
      in if ds \<noteq> [] \<and> list_all is_digit ds \<and> - (2 ^ 63) \<le> v \<and> v < 2 ^ 63 then Some v else None)"

text \<open>\<open>strconv.ParseBool\<close>: \<open>None\<close> stands for the error.\<close>

definition ParseBool :: "string \<Rightarrow> bool option" where
  "ParseBool s =
     (if s \<in> {''1'', ''t'', ''T'', ''TRUE'', ''true'', ''True''} then Some True
      else if s \<in> {''0'', ''f'', ''F'', ''FALSE'', ''false'', ''False''} then Some False
      else None)"

text \<open>\<open>strings.HasPrefix\<close>.\<close>

definition HasPrefix :: "string \<Rightarrow> string \<Rightarrow> bool" where
  "HasPrefix s p = (take (length p) s = p)"

text \<open>\<open>strings.ToLower\<close> on the ASCII characters that occur in resource names.\<close>

definition lower_char :: "char \<Rightarrow> char" where
  "lower_char c = (let n = (of_char c :: nat) in if 65 \<le> n \<and> n \<le> 90 then char_of (n + 32) else c)"

definition ToLower :: "string \<Rightarrow> string" where
  "ToLower = map lower_char"

definition EqualFold :: "string \<Rightarrow> string \<Rightarrow> bool" where
  "EqualFold s t = (ToLower s = ToLower t)"

text \<open>\<open>%q\<close> of a string of printable ASCII characters.\<close>

definition goQuote :: "string \<Rightarrow> string" where
  "goQuote s = ''\"'' @ concat (map (\<lambda>c. if c = CHR ''\"'' \<or> c = CHR 0x5C then [CHR 0x5C, c] else [c]) s) @ ''\"''"

section \<open>Lemmas on programs\<close>

lemma bindP_assoc: "bindP (bindP m f) g = bindP m (\<lambda>x. bindP (f x) g)"
  by (induction m) auto

lemma bindP_Ret_right [simp]: "bindP m Ret = m"
  by (induction m) auto

inductive_simps steps_Ret [simp]: "steps (Ret r) tr p'"
inductive_simps steps_Panic [simp]: "steps (Panic s) tr p'"
inductive_simps steps_Call: "steps (Call q k) tr p'"

lemma nextCall_Some: "nextCall p = Some q \<longleftrightarrow> (\<exists>k. p = Call q k)"
  by (simp add: nextCall_def split: prog.splits)

lemma isPanic_iff: "isPanic p \<longleftrightarrow> (\<exists>m. p = Panic m)"
  by (simp add: isPanic_def split: prog.splits)

lemma nopanic_bindP:
  "nopanic m \<Longrightarrow> (\<And>x. nopanic (f x)) \<Longrightarrow> nopanic (bindP m f)"
  by (induction m) auto

lemma wp_bindP [wp_simps]: "wp G Q (bindP m f) h = wp G (\<lambda>h' r. wp G Q (f r) h') m h"
  by (induction m arbitrary: h) auto

lemma wp_conseq:
  "wp G Q p h \<Longrightarrow> (\<And>h' r. Q h' r \<Longrightarrow> Q' h' r) \<Longrightarrow> (\<And>h' q. G h' q \<Longrightarrow> G' h' q) \<Longrightarrow> wp G' Q' p h"
  by (induction p arbitrary: h) auto

lemma wp_Ball:
  "wp G (\<lambda>_ _. True) p h \<Longrightarrow> (\<And>x. x \<in> A \<Longrightarrow> wp G (Q x) p h) \<Longrightarrow> wp G (\<lambda>h' r. \<forall>x \<in> A. Q x h' r) p h"
  by (induction p arbitrary: h) auto

lemma wp_conj: "wp G Q p h \<Longrightarrow> wp G Q' p h \<Longrightarrow> wp G (\<lambda>h' r. Q h' r \<and> Q' h' r) p h"
  by (induction p arbitrary: h) auto

lemma wp_bindI:
  "wp G R m h \<Longrightarrow> (\<And>h' r. R h' r \<Longrightarrow> wp G Q (f r) h') \<Longrightarrow> wp G Q (bindP m f) h"
  unfolding wp_bindP by (rule wp_conseq [where G = G and Q = R]) auto

lemma guarded_Nil [simp]: "guarded G h []"
  by (simp add: guarded_def)

lemma guarded_Cons: "guarded G h ((q, a) # tr) = (G h q \<and> guarded G (h @ [(q, a)]) tr)"
proof -
  have "guarded G h ((q, a) # tr) =
      (\<forall>i < Suc (length tr). G (h @ take i ((q, a) # tr)) (fst (((q, a) # tr) ! i)))"
    by (simp add: guarded_def)
  also have "\<dots> = (G h q \<and> (\<forall>i < length tr. G (h @ (q, a) # take i tr) (fst (tr ! i))))"
    by (subst All_less_Suc2) simp
  finally show ?thesis by (simp add: guarded_def)
qed

lemma guarded_mono: "guarded G h tr \<Longrightarrow> (\<And>h q. G h q \<Longrightarrow> G' h q) \<Longrightarrow> guarded G' h tr"
  by (simp add: guarded_def)

text \<open>Soundness of the calculus for interrupted runs (guards) and complete runs (results).\<close>

lemma wp_guarded: "steps p tr p' \<Longrightarrow> wp G Q p h \<Longrightarrow> guarded G h tr"
  by (induction arbitrary: h rule: steps.induct) (auto simp: guarded_Cons)

lemma guarded_at: "guarded G [] tr \<Longrightarrow> i < length tr \<Longrightarrow> fst (tr ! i) = q \<Longrightarrow> G (take i tr) q"
  by (auto simp: guarded_def)

lemma wp_result: "steps p tr p' \<Longrightarrow> p' = Ret r \<Longrightarrow> wp G Q p h \<Longrightarrow> Q (h @ tr) r"
proof (induction arbitrary: h rule: steps.induct)
  case (steps_call k a tr p' q)
  from steps_call.prems have "wp G Q (k a) (h @ [(q, a)])" by simp
  from steps_call.IH [OF steps_call.prems(1) this] show ?case by simp
qed simp

lemma nopanic_steps: "steps p tr p' \<Longrightarrow> nopanic p \<Longrightarrow> nopanic p'"
  by (induction rule: steps.induct) auto

lemma play_steps: "play as p = (tr, p') \<Longrightarrow> steps p tr p'"
  by (induction as arbitrary: p tr p')
    (auto split: prog.splits prod.splits intro: steps.intros)

lemma play_trace_steps: "fst (play as p) = tr \<Longrightarrow> steps p tr (snd (play as p))"
  by (rule play_steps [of as]) auto

lemma playRet_steps: "playRet as p = Some (tr, r) \<Longrightarrow> steps p tr (Ret r)"
  by (induction as arbitrary: p tr r)
    (auto split: prog.splits prod.splits intro: steps.intros)

text \<open>
  A run extends its history, so a property of histories that is closed under prefixes may be
  assumed of the history before a part of a program if it is assumed of the history after it.
\<close>

lemma wp_extends: "wp (\<lambda>_ _. True) (\<lambda>h' r. \<exists>k. h' = h @ k) p h"
proof (induction p arbitrary: h)
  case (Call q k)
  have "wp (\<lambda>_ _. True) (\<lambda>h' r. \<exists>k. h' = h @ k) (k a) (h @ [(q, a)])" for a
    by (rule wp_conseq [OF Call.IH]) auto
  then show ?case by simp
qed auto

lemma wp_ext: "wp G Q p h \<Longrightarrow> wp G (\<lambda>h' r. Q h' r \<and> (\<exists>k. h' = h @ k)) p h"
proof (induction p arbitrary: h)
  case (Call q k)
  have "wp G (\<lambda>h' r. Q h' r \<and> (\<exists>k. h' = h @ k)) (k a) (h @ [(q, a)])" for a
  proof (rule wp_conseq [OF Call.IH])
    show "wp G Q (k a) (h @ [(q, a)])" using Call.prems by simp
  qed auto
  with Call.prems show ?case by simp
qed auto

lemma wp_assuming:
  assumes "\<And>h k. E (h @ k) \<Longrightarrow> E h"
    and "E h \<Longrightarrow> wp (\<lambda>_ _. True) (\<lambda>h' r. E h' \<longrightarrow> Q h' r) p h"
  shows "wp (\<lambda>_ _. True) (\<lambda>h' r. E h' \<longrightarrow> Q h' r) p h"
proof (cases "E h")
  case False
  show ?thesis by (rule wp_conseq [OF wp_extends]) (use False assms(1) in auto)
qed (rule assms(2))

text \<open>A complete run of a composition is a run of each part.\<close>

lemma steps_bindP:
  "steps (bindP m f) tr (Ret r) \<Longrightarrow>
     \<exists>x ts us. tr = ts @ us \<and> steps m ts (Ret x) \<and> steps (f x) us (Ret r)"
proof (induction m arbitrary: tr)
  case (Call q k)
  from Call.prems obtain a ts where tr: "tr = (q, a) # ts" and st: "steps (bindP (k a) f) ts (Ret r)"
    by (auto simp: steps_Call)
  from Call.IH [OF _ st] obtain x vs us where "ts = vs @ us" "steps (k a) vs (Ret x)" "steps (f x) us (Ret r)"
    by auto
  with tr show ?case
    by (intro exI [of _ x] exI [of _ "(q, a) # vs"] exI [of _ us]) (auto intro: steps.intros)
qed (auto intro: steps.intros)

lemma wpan_bindP: "wpan P Q (bindP m f) h = wpan P (\<lambda>h' r. wpan P Q (f r) h') m h"
  by (induction m arbitrary: h) auto

lemma wpan_nopanic: "nopanic p \<Longrightarrow> wpan P (\<lambda>_ _. True) p h"
  by (induction p arbitrary: h) auto

lemma wpan_nopanicI: "nopanic p \<Longrightarrow> (\<And>h r. Q h r) \<Longrightarrow> wpan P Q p h"
  by (induction p arbitrary: h) auto

lemma wpan_bind_nopanic: "nopanic m \<Longrightarrow> (\<And>h' r. wpan P Q (f r) h') \<Longrightarrow> wpan P Q (bindP m f) h"
  by (induction m arbitrary: h) auto

lemma wpan_panic: "steps p tr p' \<Longrightarrow> p' = Panic s \<Longrightarrow> wpan P Q p h \<Longrightarrow> P (h @ tr)"
proof (induction arbitrary: h rule: steps.induct)
  case (steps_call k a tr p' q)
  from steps_call.prems have "wpan P Q (k a) (h @ [(q, a)])" by simp
  from steps_call.IH [OF steps_call.prems(1) this] show ?case by simp
qed simp

text \<open>A loop keeps an invariant over the history and the accumulator.\<close>

lemma wp_forP:
  assumes "I h s"
    and "\<And>x s h. x \<in> set xs \<Longrightarrow> I h s \<Longrightarrow>
      wp G (\<lambda>h' r. case r of Inl a \<Rightarrow> Q h' (Inl a) | Inr s' \<Rightarrow> I h' s') (body x s) h"
    and "\<And>h s. I h s \<Longrightarrow> Q h (Inr s)"
  shows "wp G Q (forP xs s body) h"
  using assms(1,2)
proof (induction xs arbitrary: s h)
  case Nil
  with assms(3) show ?case by simp
next
  case (Cons x xs)
  have body: "wp G (\<lambda>h' r. case r of Inl a \<Rightarrow> Q h' (Inl a) | Inr s' \<Rightarrow> I h' s') (body x s) h"
    using Cons.prems by simp
  have "wp G (\<lambda>h' r. wp G Q (case r of Inl a \<Rightarrow> Ret (Inl a) | Inr s' \<Rightarrow> forP xs s' body) h') (body x s) h"
    by (rule wp_conseq [OF body]) (auto split: sum.splits intro!: Cons.IH Cons.prems(2))
  then show ?case by (simp add: wp_bindP)
qed

text \<open>The same with the part of the list that has been processed.\<close>

lemma wp_forP_prefix:
  assumes "I [] h s"
    and "\<And>pre x post s h. xs = pre @ x # post \<Longrightarrow> I pre h s \<Longrightarrow>
      wp G (\<lambda>h' r. case r of Inl a \<Rightarrow> Q h' (Inl a) | Inr s' \<Rightarrow> I (pre @ [x]) h' s') (body x s) h"
    and "\<And>h s. I xs h s \<Longrightarrow> Q h (Inr s)"
  shows "wp G Q (forP xs s body) h"
proof -
  have "wp G Q (forP post s body) h" if "xs = pre @ post" "I pre h s" for pre post s h
    using that
  proof (induction post arbitrary: pre s h)
    case Nil
    with assms(3) show ?case by simp
  next
    case (Cons x post)
    have body: "wp G (\<lambda>h' r. case r of Inl a \<Rightarrow> Q h' (Inl a) | Inr s' \<Rightarrow> I (pre @ [x]) h' s') (body x s) h"
      by (rule assms(2) [OF Cons.prems])
    have "wp G (\<lambda>h' r. wp G Q (case r of Inl a \<Rightarrow> Ret (Inl a) | Inr s' \<Rightarrow> forP post s' body) h') (body x s) h"
      by (rule wp_conseq [OF body]) (use Cons.IH [of "pre @ [x]"] Cons.prems(1) in \<open>auto split: sum.splits\<close>)
    then show ?case by (simp add: wp_bindP)
  qed
  from this [of "[]" xs h s] assms(1) show ?thesis by simp
qed

lemma nopanic_forP: "(\<And>x s. nopanic (body x s)) \<Longrightarrow> nopanic (forP xs s body)"
  by (induction xs arbitrary: s) (auto intro!: nopanic_bindP split: sum.splits)

section \<open>Lemmas on maps, numbers and strings\<close>

lemma mget_None [simp]: "mget None k = None"
  by (simp add: mget_def)

lemma mget_Some [simp]: "mget (Some al) k = map_of al k"
  by (simp add: mget_def)

lemma mput_mget: "mput k v m = Some m' \<Longrightarrow> mget m' k' = (if k' = k then Some v else mget m k')"
  by (auto simp: mput_def mget_def update_conv split: option.splits)

lemma mput_minit [simp]: "mput k v (minit m) = Some (Some (AList.update k v (case m of None \<Rightarrow> [] | Some al \<Rightarrow> al)))"
  by (simp add: mput_def minit_def split: option.splits)

lemma mget_minit [simp]: "mget (minit m) k = mget m k"
  by (simp add: minit_def mget_def split: option.splits)

lemma mget_mapPut [simp]: "mget (mapPut k v m) k' = (if k' = k then Some v else mget m k')"
  by (cases m) (simp_all add: mapPut_def minit_def update_conv)

lemma mdel_mget [simp]: "mget (mdel k m) k' = (if k' = k then None else mget m k')"
  by (auto simp: mdel_def mget_def delete_conv split: option.splits)

lemma set_mkeys: "set (mkeys m) = {k. mget m k \<noteq> None}"
proof (cases m)
  case (Some al)
  have "map_of al k = None \<longleftrightarrow> k \<notin> fst ` set al" for k
    by (rule map_of_eq_None_iff)
  with Some show ?thesis by (auto simp: mkeys_def)
qed (simp add: mkeys_def)

lemma mlen_0: "mlen m = 0 \<longleftrightarrow> (\<forall>k. mget m k = None)"
proof -
  have "mlen m = 0 \<longleftrightarrow> set (mkeys m) = {}" by (simp add: mlen_def)
  then show ?thesis by (auto simp: set_mkeys)
qed

lemma distinct_mkeys [simp]: "distinct (mkeys m)"
  by (simp add: mkeys_def split: option.splits)

lemma wrap64_id: "- (2 ^ 63) \<le> x \<Longrightarrow> x < 2 ^ 63 \<Longrightarrow> wrap64 x = x"
  by (simp add: wrap64_def)

lemma wrap32_id: "- (2 ^ 31) \<le> x \<Longrightarrow> x < 2 ^ 31 \<Longrightarrow> wrap32 x = x"
  by (simp add: wrap32_def)

lemma quot_nonneg: "0 \<le> a \<Longrightarrow> 0 < b \<Longrightarrow> quot a b = a div b"
  by (cases "a = 0") (simp_all add: quot_def)

lemma of_char_digit_char: "d < 10 \<Longrightarrow> (of_char (digit_char d) :: nat) = 48 + d"
  by (simp add: digit_char_def)

lemma is_digit_digit_char: "d < 10 \<Longrightarrow> is_digit (digit_char d)"
  by (simp add: is_digit_def of_char_digit_char)

lemma show_nat_digits: "show_nat n \<noteq> [] \<and> list_all is_digit (show_nat n)"
proof (induction n rule: show_nat.induct)
  case (1 n)
  then show ?case
    by (cases "n < 10") (simp_all add: show_nat.simps [of n] is_digit_digit_char)
qed

lemma digits_val_snoc: "digits_val acc (xs @ [c]) = 10 * digits_val acc xs + (of_char c - 48)"
  by (induction acc xs rule: digits_val.induct) auto

lemma digits_val_show_nat: "digits_val 0 (show_nat n) = n"
proof (induction n rule: show_nat.induct)
  case (1 n)
  then show ?case
    by (cases "n < 10") (simp_all add: show_nat.simps [of n] digits_val_snoc of_char_digit_char)
qed

lemma Atoi_FormatInt:
  assumes "- (2 ^ 63) \<le> n" and "n < 2 ^ 63"
  shows "Atoi (FormatInt n) = Some n"
proof (cases "n < 0")
  case True
  with assms show ?thesis
    using show_nat_digits [of "nat (- n)"]
    by (simp add: Atoi_def FormatInt_def digits_val_show_nat Let_def)
next
  case False
  from show_nat_digits [of "nat n"] obtain c cs where s: "show_nat (nat n) = c # cs" and d: "is_digit c"
    by (cases "show_nat (nat n)") auto
  from d have "c \<noteq> CHR ''-''" and "c \<noteq> CHR ''+''"
    by (auto simp: is_digit_def)
  with False assms s show ?thesis
    using show_nat_digits [of "nat n"] digits_val_show_nat [of "nat n"]
    by (simp add: Atoi_def FormatInt_def Let_def)
qed

lemma HasPrefix_append [simp]: "HasPrefix (p @ s) p"
  by (simp add: HasPrefix_def)

lemma HasPrefix_iff: "HasPrefix s p \<longleftrightarrow> (\<exists>t. s = p @ t)"
  by (metis HasPrefix_append HasPrefix_def append_take_drop_id)

lemma ToLower_append [simp]: "ToLower (s @ t) = ToLower s @ ToLower t"
  by (simp add: ToLower_def)

lemma lower_char_idem: "lower_char (lower_char c) = lower_char c"
proof -
  have "(of_char c :: nat) < 256" by simp
  then show ?thesis
    by (auto simp: lower_char_def Let_def)
qed

lemma ToLower_idem [simp]: "ToLower (ToLower s) = ToLower s"
  by (simp add: ToLower_def lower_char_idem)

lemma EqualFold_refl [simp]: "EqualFold s s"
  by (simp add: EqualFold_def)

end
