(* ===== verification/ApiTypes.thy ===== *)
theory ApiTypes
  imports Prelude
begin

text \<open>
  The data of the program: the resources of \<open>api/v1alpha1\<close> and \<open>api/v1beta1\<close> as records with the
  fields of the Go structs, and the fields of the Kubernetes and Azure resources that the
  controllers read or write. A pointer is an \<open>option\<close>, a slice is a list (the nil slice is the empty
  list, which is what a JSON round trip through the API server makes of it), a map is a \<open>gomap\<close>, a
  Go integer is an \<open>int\<close>, and a point in time is the \<open>int\<close> number of nanoseconds since the epoch,
  \<open>None\<close> for the zero time. The two operations of \<open>common_types.go\<close> and the port conversion of
  \<open>serviceimport_types.go\<close> close the theory.
\<close>

type_synonym time = int

section \<open>Kubernetes metadata\<close>

record NamespacedName =
  nn_Namespace :: string
  nn_Name :: string

record TypeMeta =
  tm_Kind :: string
  tm_APIVersion :: string

record OwnerReference =
  or_APIVersion :: string
  or_Kind :: string
  or_Name :: string
  or_UID :: string
  or_Controller :: "bool option"

record ObjectMeta =
  om_Namespace :: string
  om_Name :: string
  om_UID :: string
  om_ResourceVersion :: string
  om_Generation :: int
  om_CreationTimestamp :: "time option"
  om_DeletionTimestamp :: "time option"
  om_Finalizers :: "string list"
  om_Labels :: "string gomap"
  om_Annotations :: "string gomap"
  om_OwnerReferences :: "OwnerReference list"

datatype ConditionStatus = ConditionTrue | ConditionFalse | ConditionUnknown

record Condition =
  c_Type :: string
  c_Status :: ConditionStatus
  c_ObservedGeneration :: int
  c_LastTransitionTime :: "time option"
  c_Reason :: string
  c_Message :: string

datatype IntOrString = IntVal int | StrVal string

section \<open>Service exports and imports\<close>

record ExportedObjectReference =
  eor_ClusterID :: string
  eor_APIVersion :: string
  eor_Kind :: string
  eor_Namespace :: string
  eor_Name :: string
  eor_ResourceVersion :: string
  eor_Generation :: int
  eor_UID :: string
  eor_NamespacedName :: string
  eor_ExportedSince :: "time option"

text \<open>\<open>ServiceInUseBy\<close>: the member clusters that import a service, by their namespace in the hub.\<close>

record ServiceInUseBy =
  siu_MemberClusters :: "string gomap"

record ServicePort =
  sp_Name :: string
  sp_Protocol :: string
  sp_AppProtocol :: "string option"
  sp_Port :: int
  sp_TargetPort :: IntOrString

record ClusterStatus =
  cs_Cluster :: string

record ClientIPConfig =
  cic_TimeoutSeconds :: "int option"

record SessionAffinityConfig =
  sac_ClientIP :: "ClientIPConfig option"

record ServiceImportStatus =
  sis_IPs :: "string list"
  sis_Type :: string
  sis_SessionAffinity :: string
  sis_SessionAffinityConfig :: "SessionAffinityConfig option"
  sis_Ports :: "ServicePort list"
  sis_Clusters :: "ClusterStatus list"

record ServiceImport =
  si_TypeMeta :: TypeMeta
  si_ObjectMeta :: ObjectMeta
  si_Status :: ServiceImportStatus

record InternalServiceExportSpec =
  ises_Ports :: "ServicePort list"
  ises_ServiceReference :: ExportedObjectReference
  ises_Type :: string
  ises_IsDNSLabelConfigured :: bool
  ises_IsInternalLoadBalancer :: bool
  ises_PublicIPResourceID :: "string option"
  ises_Weight :: "int option"

record InternalServiceExport =
  ise_ObjectMeta :: ObjectMeta
  ise_Spec :: InternalServiceExportSpec
  ise_Conditions :: "Condition list"

record InternalServiceImport =
  isi_ObjectMeta :: ObjectMeta
  isi_ServiceImportReference :: ExportedObjectReference
  isi_Status :: ServiceImportStatus

record ServiceExport =
  se_ObjectMeta :: ObjectMeta
  se_Conditions :: "Condition list"

section \<open>Endpoint slices\<close>

record EndpointPort =
  ep_Name :: "string option"
  ep_Protocol :: "string option"
  ep_Port :: "int option"
  ep_AppProtocol :: "string option"

record Endpoint =
  e_Addresses :: "string list"

record OwnerServiceReference =
  osr_Namespace :: string
  osr_Name :: string
  osr_NamespacedName :: string

record EndpointSliceExportSpec =
  eses_AddressType :: string
  eses_Endpoints :: "Endpoint list"
  eses_Ports :: "EndpointPort list"
  eses_EndpointSliceReference :: ExportedObjectReference
  eses_OwnerServiceReference :: OwnerServiceReference

record EndpointSliceExport =
  ese_ObjectMeta :: ObjectMeta
  ese_Spec :: EndpointSliceExportSpec

record EndpointSliceImport =
  esi_ObjectMeta :: ObjectMeta
  esi_Spec :: EndpointSliceExportSpec

text \<open>The endpoint slices of the member cluster (\<open>discovery.k8s.io/v1\<close>).\<close>

record DiscoveryEndpoint =
  de_Addresses :: "string list"
  de_Ready :: "bool option"

record EndpointSlice =
  es_TypeMeta :: TypeMeta
  es_ObjectMeta :: ObjectMeta
  es_AddressType :: string
  es_Endpoints :: "DiscoveryEndpoint list"
  es_Ports :: "EndpointPort list"

section \<open>Services and multi-cluster services\<close>

record CoreServicePort =
  csp_Name :: string
  csp_Protocol :: string
  csp_AppProtocol :: "string option"
  csp_Port :: int
  csp_TargetPort :: IntOrString
  csp_NodePort :: int

record LoadBalancerIngress =
  lbi_IP :: string
  lbi_Hostname :: string

record Service =
  svc_TypeMeta :: TypeMeta
  svc_ObjectMeta :: ObjectMeta
  svc_Type :: string
  svc_ClusterIP :: string
  svc_Ports :: "CoreServicePort list"
  svc_LoadBalancer :: "LoadBalancerIngress list"

record MultiClusterService =
  mcs_TypeMeta :: TypeMeta
  mcs_ObjectMeta :: ObjectMeta
  mcs_ServiceImport :: string
  mcs_LoadBalancer :: "LoadBalancerIngress list"
  mcs_Conditions :: "Condition list"

section \<open>Traffic manager resources\<close>

datatype MonitorProtocol = ProtocolHTTP | ProtocolHTTPS | ProtocolTCP

record MonitorConfigCustomHeader =
  mch_Name :: string
  mch_Value :: string

record MonitorConfig =
  mcf_IntervalInSeconds :: "int option"
  mcf_Path :: "string option"
  mcf_Port :: "int option"
  mcf_Protocol :: "MonitorProtocol option"
  mcf_CustomHeaders :: "MonitorConfigCustomHeader list"
  mcf_TimeoutInSeconds :: "int option"
  mcf_ToleratedNumberOfFailures :: "int option"

record TrafficManagerProfile =
  tmp_ObjectMeta :: ObjectMeta
  tmp_ResourceGroup :: string
  tmp_MonitorConfig :: "MonitorConfig option"
  tmp_DNSName :: "string option"
  tmp_ResourceID :: string
  tmp_Conditions :: "Condition list"

record FromCluster =
  fc_Cluster :: string
  fc_Weight :: "int option"

record TrafficManagerEndpointStatus =
  tes_Name :: string
  tes_ResourceID :: string
  tes_Weight :: "int option"
  tes_Target :: "string option"
  tes_From :: "FromCluster option"

record TrafficManagerBackend =
  tmb_ObjectMeta :: ObjectMeta
  tmb_Profile :: string
  tmb_Backend :: string
  tmb_Weight :: "int option"
  tmb_Endpoints :: "TrafficManagerEndpointStatus list"
  tmb_Conditions :: "Condition list"

text \<open>
  The Azure resources (\<open>armtrafficmanager\<close>, \<open>armnetwork\<close>): every field is a pointer. The entries of the lists of
  headers and endpoints are pointers too; lists with a nil entry are not modelled.
\<close>

record AzureHeader =
  ah_Name :: "string option"
  ah_Value :: "string option"

record AzureMonitorConfig =
  amc_IntervalInSeconds :: "int option"
  amc_Path :: "string option"
  amc_Port :: "int option"
  amc_Protocol :: "MonitorProtocol option"
  amc_TimeoutInSeconds :: "int option"
  amc_ToleratedNumberOfFailures :: "int option"
  amc_CustomHeaders :: "AzureHeader list"
  amc_ProfileMonitorStatus :: "string option"

record AzureDNSConfig =
  adc_RelativeName :: "string option"
  adc_TTL :: "int option"
  adc_Fqdn :: "string option"

record AzureEndpointProperties =
  aep_Target :: "string option"
  aep_TargetResourceID :: "string option"
  aep_EndpointStatus :: "string option"
  aep_Weight :: "int option"
  aep_Priority :: "int option"

record AzureEndpoint =
  ae_ID :: "string option"
  ae_Name :: "string option"
  ae_Type :: "string option"
  ae_Properties :: "AzureEndpointProperties option"

record AzureProfileProperties =
  app_DNSConfig :: "AzureDNSConfig option"
  app_MonitorConfig :: "AzureMonitorConfig option"
  app_ProfileStatus :: "string option"
  app_TrafficRoutingMethod :: "string option"
  app_Endpoints :: "AzureEndpoint list"
  app_MaxReturn :: "int option"

record AzureProfile =
  ap_ID :: "string option"
  ap_Name :: "string option"
  ap_Type :: "string option"
  ap_Location :: "string option"
  ap_Properties :: "AzureProfileProperties option"
  ap_Tags :: "string option gomap"

record PublicIPDNSSettings =
  pds_DomainNameLabel :: "string option"

record PublicIPProperties =
  ppp_IPAddress :: "string option"
  ppp_DNSSettings :: "PublicIPDNSSettings option"

record PublicIPAddress =
  pip_ID :: "string option"
  pip_Properties :: "PublicIPProperties option"

section \<open>Fleet membership (resources of the fleet agents)\<close>

record MemberClusterObj =
  mc_ObjectMeta :: ObjectMeta

datatype ClusterState = StateJoin | StateLeave | StateOther string

datatype AgentType = MemberAgent | MultiClusterServiceAgent | ServiceExportImportAgent

record AgentStatus =
  as_Type :: AgentType
  as_Conditions :: "Condition list"
  as_LastReceivedHeartbeat :: "time option"

record InternalMemberCluster =
  imc_ObjectMeta :: ObjectMeta
  imc_State :: ClusterState
  imc_HeartbeatPeriodSeconds :: int
  imc_AgentStatus :: "AgentStatus list"

section \<open>Zero values\<close>

text \<open>The zero values of the structs, as a Go composite literal without fields gives them.\<close>

definition zeroMeta :: ObjectMeta where
  "zeroMeta = \<lparr>om_Namespace = [], om_Name = [], om_UID = [], om_ResourceVersion = [],
     om_Generation = 0, om_CreationTimestamp = None, om_DeletionTimestamp = None, om_Finalizers = [],
     om_Labels = None, om_Annotations = None, om_OwnerReferences = []\<rparr>"

definition metaOf :: "string \<Rightarrow> string \<Rightarrow> ObjectMeta" where
  "metaOf ns nm = zeroMeta\<lparr>om_Namespace := ns, om_Name := nm\<rparr>"

definition zeroType :: TypeMeta where
  "zeroType = \<lparr>tm_Kind = [], tm_APIVersion = []\<rparr>"

definition zeroRef :: ExportedObjectReference where
  "zeroRef = \<lparr>eor_ClusterID = [], eor_APIVersion = [], eor_Kind = [], eor_Namespace = [], eor_Name = [],
     eor_ResourceVersion = [], eor_Generation = 0, eor_UID = [], eor_NamespacedName = [],
     eor_ExportedSince = None\<rparr>"

definition zeroSIStatus :: ServiceImportStatus where
  "zeroSIStatus = \<lparr>sis_IPs = [], sis_Type = [], sis_SessionAffinity = [],
     sis_SessionAffinityConfig = None, sis_Ports = [], sis_Clusters = []\<rparr>"

definition zeroISESpec :: InternalServiceExportSpec where
  "zeroISESpec = \<lparr>ises_Ports = [], ises_ServiceReference = zeroRef, ises_Type = [],
     ises_IsDNSLabelConfigured = False, ises_IsInternalLoadBalancer = False,
     ises_PublicIPResourceID = None, ises_Weight = None\<rparr>"

definition zeroESESpec :: EndpointSliceExportSpec where
  "zeroESESpec = \<lparr>eses_AddressType = [], eses_Endpoints = [], eses_Ports = [],
     eses_EndpointSliceReference = zeroRef,
     eses_OwnerServiceReference = \<lparr>osr_Namespace = [], osr_Name = [], osr_NamespacedName = []\<rparr>\<rparr>"

definition zeroMonitorConfig :: MonitorConfig where
  "zeroMonitorConfig = \<lparr>mcf_IntervalInSeconds = None, mcf_Path = None, mcf_Port = None,
     mcf_Protocol = None, mcf_CustomHeaders = [], mcf_TimeoutInSeconds = None,
     mcf_ToleratedNumberOfFailures = None\<rparr>"

section \<open>Operations of the API packages\<close>

text \<open>\<open>types.NamespacedName.String\<close> is documented to give \<open>namespace/name\<close>.\<close>

definition nnString :: "string \<Rightarrow> string \<Rightarrow> string" where
  "nnString ns nm = ns @ ''/'' @ nm"

definition FromMetaObjects :: "string \<Rightarrow> TypeMeta \<Rightarrow> ObjectMeta \<Rightarrow> time option \<Rightarrow> ExportedObjectReference" where
  "FromMetaObjects clusterID typeMeta objMeta exportedSince =
     \<lparr>eor_ClusterID = clusterID, eor_APIVersion = tm_APIVersion typeMeta, eor_Kind = tm_Kind typeMeta,
      eor_Namespace = om_Namespace objMeta, eor_Name = om_Name objMeta,
      eor_ResourceVersion = om_ResourceVersion objMeta, eor_Generation = om_Generation objMeta,
      eor_UID = om_UID objMeta,
      eor_NamespacedName = nnString (om_Namespace objMeta) (om_Name objMeta),
      eor_ExportedSince = exportedSince\<rparr>"

definition UpdateFromMetaObject ::
    "ObjectMeta \<Rightarrow> time option \<Rightarrow> ExportedObjectReference \<Rightarrow> ExportedObjectReference" where
  "UpdateFromMetaObject objMeta exportedSince e =
     e\<lparr>eor_ResourceVersion := om_ResourceVersion objMeta, eor_ExportedSince := exportedSince,
       eor_Generation := om_Generation objMeta\<rparr>"

definition ToServicePort :: "ServicePort \<Rightarrow> CoreServicePort" where
  "ToServicePort p = \<lparr>csp_Name = sp_Name p, csp_Protocol = sp_Protocol p,
     csp_AppProtocol = sp_AppProtocol p, csp_Port = sp_Port p, csp_TargetPort = sp_TargetPort p,
     csp_NodePort = 0\<rparr>"

text \<open>The key of an object.\<close>

definition metaKey :: "ObjectMeta \<Rightarrow> NamespacedName" where
  "metaKey m = \<lparr>nn_Namespace = om_Namespace m, nn_Name = om_Name m\<rparr>"

text \<open>
  Whatever reference an exported object already has, an update from the object's metadata keeps
  the identity of the reference (cluster, kind, namespace, name, UID); on a reference that was
  built from the same metadata, the update changes the timestamp only.
\<close>

lemma UpdateFromMetaObject_identity:
  "eor_ClusterID (UpdateFromMetaObject m t e) = eor_ClusterID e"
  "eor_APIVersion (UpdateFromMetaObject m t e) = eor_APIVersion e"
  "eor_Kind (UpdateFromMetaObject m t e) = eor_Kind e"
  "eor_Namespace (UpdateFromMetaObject m t e) = eor_Namespace e"
  "eor_Name (UpdateFromMetaObject m t e) = eor_Name e"
  "eor_UID (UpdateFromMetaObject m t e) = eor_UID e"
  "eor_NamespacedName (UpdateFromMetaObject m t e) = eor_NamespacedName e"
  by (simp_all add: UpdateFromMetaObject_def)

lemma UpdateFromMetaObject_FromMetaObjects:
  "UpdateFromMetaObject m t' (FromMetaObjects c ty m t) = FromMetaObjects c ty m t'"
  by (simp add: UpdateFromMetaObject_def FromMetaObjects_def)

end
