(* ===== verification/Rfc3339.thy ===== *)
theory Rfc3339
  imports Prelude
begin

text \<open>
  What the controllers use of Go's \<open>time\<close> package: writing a point in time in the format
  \<open>2006-01-02T15:04:05Z07:00\<close> and reading it back. A point in time is a number of nanoseconds since
  1970-01-01T00:00:00Z; it is written in a time zone given by its offset in seconds east of Greenwich.
\<close>

section \<open>The calendar\<close>

definition isLeap :: "int \<Rightarrow> bool" where
  "isLeap y \<longleftrightarrow> y mod 4 = 0 \<and> (y mod 100 \<noteq> 0 \<or> y mod 400 = 0)"

text \<open>The days between the first of January of the year 0 and that of the year \<open>y\<close>.\<close>

definition daysBefore :: "int \<Rightarrow> int" where
  "daysBefore y = 365 * y + (y + 3) div 4 - (y + 99) div 100 + (y + 399) div 400"

definition yearLength :: "int \<Rightarrow> int" where
  "yearLength y = (if isLeap y then 366 else 365)"

definition monthLengths :: "int \<Rightarrow> int list" where
  "monthLengths y = [31, if isLeap y then 29 else 28, 31, 30, 31, 30, 31, 31, 30, 31, 30, 31]"

text \<open>The year in which a day lies: the estimate is at most one year off.\<close>

definition yearOf :: "int \<Rightarrow> int" where
  "yearOf d = (let y = (400 * d) div 146097 in
     if d < daysBefore y then y - 1 else if d < daysBefore (y + 1) then y else y + 1)"

text \<open>The month (from 0) and the day in the month (from 0) of a day in the year.\<close>

fun splitMonths :: "int list \<Rightarrow> int \<Rightarrow> nat \<times> int" where
  "splitMonths [] d = (0, d)"
| "splitMonths (l # ls) d = (if d < l then (0, d) else case splitMonths ls (d - l) of (m, r) \<Rightarrow> (Suc m, r))"

definition epochDay :: int where
  "epochDay = 719528"

definition dayOf :: "int \<Rightarrow> nat \<Rightarrow> int \<Rightarrow> int" where
  "dayOf y m d = daysBefore y + sum_list (take m (monthLengths y)) + d"

text \<open>The year in which a point in time lies, seen from a time zone.\<close>

definition localYear :: "int \<Rightarrow> int \<Rightarrow> int" where
  "localYear offset t = yearOf ((t div 1000000000 + offset) div 86400 + epochDay)"

section \<open>Writing\<close>

definition pad2 :: "int \<Rightarrow> string" where
  "pad2 n = [digit_char (nat (n div 10)), digit_char (nat (n mod 10))]"

definition padYear :: "int \<Rightarrow> string" where
  "padYear y = (if 0 \<le> y \<and> y < 10000 then pad2 (y div 100) @ pad2 (y mod 100)
     else if 10000 \<le> y then show_nat (nat y)
     else CHR ''-'' # replicate (4 - length (show_nat (nat (- y)))) (CHR ''0'') @ show_nat (nat (- y)))"

definition zoneString :: "int \<Rightarrow> string" where
  "zoneString offset =
     (let zone = quot offset 60 in
      if zone = 0 then ''Z''
      else (if zone < 0 then ''-'' else ''+'') @ pad2 (\<bar>zone\<bar> div 60) @ '':'' @ pad2 (\<bar>zone\<bar> mod 60))"

definition FormatRFC3339 :: "int \<Rightarrow> int \<Rightarrow> string" where
  "FormatRFC3339 offset t =
     (let s = t div 1000000000 + offset; day = s div 86400 + epochDay; sec = s mod 86400;
          y = yearOf day; (m, d) = splitMonths (monthLengths y) (day - daysBefore y)
      in padYear y @ ''-'' @ pad2 (int m + 1) @ ''-'' @ pad2 (d + 1) @ ''T'' @
         pad2 (sec div 3600) @ '':'' @ pad2 (sec mod 3600 div 60) @ '':'' @ pad2 (sec mod 60) @ zoneString offset)"

section \<open>Reading\<close>

definition digitVal :: "char \<Rightarrow> int" where
  "digitVal c = of_char c - 48"

text \<open>Two digits; one or two digits; one character.\<close>

definition num2 :: "string \<Rightarrow> (int \<times> string) option" where
  "num2 s = (case s of a # b # rest \<Rightarrow> if is_digit a \<and> is_digit b then Some (10 * digitVal a + digitVal b, rest) else None
     | _ \<Rightarrow> None)"

definition num12 :: "string \<Rightarrow> (int \<times> string) option" where
  "num12 s = (case s of a # rest \<Rightarrow>
       if \<not> is_digit a then None
       else (case rest of b # rest' \<Rightarrow> if is_digit b then Some (10 * digitVal a + digitVal b, rest') else Some (digitVal a, rest)
             | [] \<Rightarrow> Some (digitVal a, []))
     | [] \<Rightarrow> None)"

definition lit :: "char \<Rightarrow> string \<Rightarrow> string option" where
  "lit c s = (case s of d # rest \<Rightarrow> if d = c then Some rest else None | [] \<Rightarrow> None)"

text \<open>
  Digits after a dot or a comma are read as a fraction of a second although the format does not
  mention them; only nine of them count.
\<close>

definition fraction :: "string \<Rightarrow> int \<times> string" where
  "fraction s =
     (case s of p # c # rest \<Rightarrow>
        if (p = CHR ''.'' \<or> p = CHR '','') \<and> is_digit c then
          (let ds = takeWhile is_digit (c # rest); nine = take 9 ds in
           (int (digits_val 0 nine) * 10 ^ (9 - length nine), dropWhile is_digit (c # rest)))
        else (0, s)
      | _ \<Rightarrow> (0, s))"

text \<open>The zone: the letter Z, or a sign and the hours and minutes.\<close>

definition zone :: "string \<Rightarrow> (int \<times> string) option" where
  "zone s =
     (case s of
        [] \<Rightarrow> None
      | c # rest \<Rightarrow>
          if c = CHR ''Z'' then Some (0, rest)
          else if c = CHR ''+'' \<or> c = CHR ''-'' then
            Option.bind (num2 rest) (\<lambda>(hr, r1). Option.bind (lit (CHR '':'') r1) (\<lambda>r2. Option.bind (num2 r2) (\<lambda>(mm, r3).
              if hr > 24 \<or> mm > 60 then None
              else Some ((if c = CHR ''-'' then -1 else 1) * (hr * 3600 + mm * 60), r3))))
          else None)"

definition ParseRFC3339 :: "string \<Rightarrow> int option" where
  "ParseRFC3339 s =
     Option.bind (num2 s) (\<lambda>(yh, s1). Option.bind (num2 s1) (\<lambda>(yl, s2). Option.bind (lit (CHR ''-'') s2) (\<lambda>s3.
     Option.bind (num2 s3) (\<lambda>(mo, s4). Option.bind (lit (CHR ''-'') s4) (\<lambda>s5. Option.bind (num2 s5) (\<lambda>(dd, s6).
     Option.bind (lit (CHR ''T'') s6) (\<lambda>s7. Option.bind (num12 s7) (\<lambda>(hh, s8). Option.bind (lit (CHR '':'') s8) (\<lambda>s9.
     Option.bind (num2 s9) (\<lambda>(mi, s10). Option.bind (lit (CHR '':'') s10) (\<lambda>s11. Option.bind (num2 s11) (\<lambda>(ss, s12).
       case fraction s12 of (ns, s13) \<Rightarrow>
       Option.bind (zone s13) (\<lambda>(off, s14).
         let y = 100 * yh + yl in
         if s14 \<noteq> [] \<or> mo < 1 \<or> 12 < mo \<or> 24 \<le> hh \<or> 60 \<le> mi \<or> 60 \<le> ss \<or> dd < 1 \<or> monthLengths y ! nat (mo - 1) < dd then None
         else Some (((dayOf y (nat (mo - 1)) (dd - 1) - epochDay) * 86400 + hh * 3600 + mi * 60 + ss - off) * 1000000000 + ns)
     )))))))))))))"

section \<open>The calendar is right\<close>

lemma div_eqI: "k * q \<le> x \<Longrightarrow> x < k * q + k \<Longrightarrow> x div k = q" for x k q :: int
  by (rule int_div_pos_eq [of _ _ _ "x - k * q"]) auto

lemma ceiling_step:
  fixes y k :: int
  assumes k: "0 < k" and "j = k - 1"
  shows "(y + 1 + j) div k = (y + j) div k + (if y mod k = 0 then 1 else 0)"
proof -
  define q r where "q = y div k" and "r = y mod k"
  have y: "y = k * q + r" "0 \<le> r" "r < k" using k by (auto simp: q_def r_def)
  have "(y + 1 + j) div k = q + 1"
    using y k assms(2) by (intro div_eqI) (simp_all add: algebra_simps)
  moreover have "(y + j) div k = (if r = 0 then q else q + 1)"
    using y k assms(2) by (auto intro!: div_eqI simp: algebra_simps)
  ultimately show ?thesis by (simp add: r_def)
qed

lemma daysBefore_step: "daysBefore (y + 1) = daysBefore y + yearLength y"
proof -
  define A B C where "A = (y + 3) div 4" and "B = (y + 99) div 100" and "C = (y + 399) div 400"
  have "y mod 400 mod 100 = y mod 100" "y mod 100 mod 4 = y mod 4" by (simp_all add: mod_mod_cancel)
  then have d: "y mod 400 = 0 \<Longrightarrow> y mod 100 = 0" "y mod 100 = 0 \<Longrightarrow> y mod 4 = 0" by auto
  have c: "(y + 1 + 3) div 4 = A + (if y mod 4 = 0 then 1 else 0)" "(y + 1 + 99) div 100 = B + (if y mod 100 = 0 then 1 else 0)"
    "(y + 1 + 399) div 400 = C + (if y mod 400 = 0 then 1 else 0)"
    unfolding A_def B_def C_def by (rule ceiling_step, simp, simp)+
  have s: "daysBefore (y + 1) = 365 * (y + 1) + (A + (if y mod 4 = 0 then 1 else 0)) - (B + (if y mod 100 = 0 then 1 else 0)) +
      (C + (if y mod 400 = 0 then 1 else 0))"
    unfolding daysBefore_def c by (rule refl)
  have t: "daysBefore y = 365 * y + A - B + C"
    unfolding daysBefore_def A_def B_def C_def by (rule refl)
  show ?thesis
    unfolding s t yearLength_def isLeap_def using d
    by (cases "y mod 4 = 0"; cases "y mod 100 = 0"; cases "y mod 400 = 0") (simp_all only: if_True if_False, simp_all)
qed

lemma sum_monthLengths: "sum_list (monthLengths y) = yearLength y"
  by (simp add: monthLengths_def yearLength_def)

lemma ceiling_bounds:
  fixes y k :: int
  assumes k: "0 < k" and j: "j = k - 1"
  shows "y \<le> k * ((y + j) div k)" and "k * ((y + j) div k) \<le> y + j"
proof -
  have "y + j = k * ((y + j) div k) + (y + j) mod k" by (rule mult_div_mod_eq [symmetric])
  moreover have "0 \<le> (y + j) mod k" "(y + j) mod k < k" using k by simp_all
  ultimately show "y \<le> k * ((y + j) div k)" and "k * ((y + j) div k) \<le> y + j" using j by linarith+
qed

lemma daysBefore_bounds: "146097 * y - 396 \<le> 400 * daysBefore y" "400 * daysBefore y \<le> 146097 * y + 700"
proof -
  define A B C where "A = (y + 3) div 4" and "B = (y + 99) div 100" and "C = (y + 399) div 400"
  have a: "y \<le> 4 * A" "4 * A \<le> y + 3" unfolding A_def by (rule ceiling_bounds, simp, simp)+
  have b: "y \<le> 100 * B" "100 * B \<le> y + 99" unfolding B_def by (rule ceiling_bounds, simp, simp)+
  have c: "y \<le> 400 * C" "400 * C \<le> y + 399" unfolding C_def by (rule ceiling_bounds, simp, simp)+
  have e: "400 * daysBefore y = 146000 * y + 400 * A - 400 * B + 400 * C"
    unfolding daysBefore_def A_def [symmetric] B_def [symmetric] C_def [symmetric] by simp
  show "146097 * y - 396 \<le> 400 * daysBefore y" unfolding e using a b c by linarith
  show "400 * daysBefore y \<le> 146097 * y + 700" unfolding e using a b c by linarith
qed

lemma yearOf_correct: "daysBefore (yearOf d) \<le> d" "d < daysBefore (yearOf d + 1)"
proof -
  define y r where "y = (400 * d) div 146097" and "r = 400 * d mod 146097"
  have "400 * d = 146097 * y + r" unfolding y_def r_def by (rule mult_div_mod_eq [symmetric])
  moreover have "0 \<le> r" "r < 146097" unfolding r_def by simp_all
  ultimately have e: "146097 * y \<le> 400 * d" "400 * d < 146097 * y + 146097" by linarith+
  have lo: "daysBefore (y - 1) \<le> d" using daysBefore_bounds(2) [of "y - 1"] e(1) by (simp only: right_diff_distrib)
  have hi: "d < daysBefore (y + 1 + 1)" using daysBefore_bounds(1) [of "y + 1 + 1"] e(2) by (simp only: distrib_left)
  show "daysBefore (yearOf d) \<le> d" "d < daysBefore (yearOf d + 1)"
    using lo hi unfolding yearOf_def Let_def y_def [symmetric] by (auto simp: not_less)
qed

lemma splitMonths_correct:
  "0 \<le> d \<Longrightarrow> d < sum_list ls \<Longrightarrow> splitMonths ls d = (m, r) \<Longrightarrow>
     m < length ls \<and> 0 \<le> r \<and> r < ls ! m \<and> sum_list (take m ls) + r = d"
proof (induction ls d arbitrary: m r rule: splitMonths.induct)
  case (2 l ls d)
  show ?case
  proof (cases "d < l")
    case False
    obtain m' where "splitMonths ls (d - l) = (m', r)" "m = Suc m'"
      using "2.prems"(3) False by (auto split: prod.splits)
    with "2.IH" [OF False _ _ this(1)] "2.prems"(2) False show ?thesis by auto
  qed (use "2.prems" in auto)
qed simp

section \<open>Reading what was written\<close>

lemma digitVal_digit_char: "0 \<le> n \<Longrightarrow> n < 10 \<Longrightarrow> digitVal (digit_char (nat n)) = n"
proof -
  assume n: "0 \<le> n" "n < 10"
  then have "nat n < 10" by simp
  then have "(of_char (digit_char (nat n)) :: nat) = 48 + nat n" by (rule of_char_digit_char)
  then have "int (of_char (digit_char (nat n))) = 48 + n" using n by simp
  then show ?thesis by (simp only: digitVal_def of_nat_of_char)
qed

lemma num2_pad2: "0 \<le> n \<Longrightarrow> n < 100 \<Longrightarrow> num2 (pad2 n @ s) = Some (n, s)"
proof -
  assume n: "0 \<le> n" "n < 100"
  define q r where "q = n div 10" and "r = n mod 10"
  have e: "n = 10 * q + r" unfolding q_def r_def by (rule mult_div_mod_eq [symmetric])
  have r: "0 \<le> r" "r < 10" unfolding r_def by simp_all
  have q: "0 \<le> q" "q < 10" using e r n by linarith+
  have "nat q < 10" "nat r < 10" using q r by simp_all
  then have "is_digit (digit_char (nat q))" "is_digit (digit_char (nat r))" by (simp_all only: is_digit_digit_char)
  moreover have "pad2 n = [digit_char (nat q), digit_char (nat r)]" by (simp only: pad2_def q_def r_def)
  ultimately have "num2 (pad2 n @ s) = Some (10 * q + r, s)"
    using digitVal_digit_char [OF q] digitVal_digit_char [OF r] by (simp add: num2_def)
  with e show ?thesis by simp
qed

lemma num12_pad2: "0 \<le> n \<Longrightarrow> n < 100 \<Longrightarrow> num12 (pad2 n @ s) = Some (n, s)"
  using num2_pad2 [of n s] by (auto simp: num2_def num12_def pad2_def split: if_splits)

lemma lit_Cons [simp]: "lit c (c # s) = Some s"
  by (simp add: lit_def)

lemma fraction_zoneString: "fraction (zoneString off) = (0, zoneString off)"
  by (auto simp: fraction_def zoneString_def Let_def pad2_def)

lemma zone_zoneString:
  assumes "off mod 60 = 0" and "\<bar>off\<bar> \<le> 24 * 3600"
  shows "zone (zoneString off) = Some (off, [])"
proof -
  obtain z where off: "off = 60 * z" using assms(1) by auto
  have q: "quot off 60 = z" by (auto simp: quot_def off abs_mult sgn_mult mult_sgn_abs)
  define h m where "h = \<bar>z\<bar> div 60" and "m = \<bar>z\<bar> mod 60"
  have e: "\<bar>z\<bar> = 60 * h + m" unfolding h_def m_def by (rule mult_div_mod_eq [symmetric])
  have m: "0 \<le> m" "m < 60" unfolding m_def by simp_all
  have z: "\<bar>z\<bar> \<le> 1440" using assms(2) off by simp
  have h: "0 \<le> h" "h \<le> 24" using e m z by linarith+
  have nh: "num2 (pad2 h @ s) = Some (h, s)" and nm: "num2 (pad2 m @ s) = Some (m, s)" for s
    using h m by (auto intro!: num2_pad2)
  show ?thesis
  proof (cases "z = 0")
    case False
    have "zone (zoneString off) =
        Some ((if z < 0 then -1 else 1) * (h * 3600 + m * 60), [])"
      using False h m nh nm [of "[]"] by (simp add: zone_def zoneString_def Let_def q h_def [symmetric] m_def [symmetric])
    moreover have "(if z < 0 then -1 else 1) * (h * 3600 + m * 60) = off"
      using e off by (cases "z < 0") simp_all
    ultimately show ?thesis by simp
  qed (simp add: zone_def zoneString_def Let_def quot_def off)
qed

lemma clock_split:
  fixes sec :: int
  assumes "0 \<le> sec" and "sec < 86400"
  shows "0 \<le> sec div 3600" "sec div 3600 < 24" "0 \<le> sec mod 3600 div 60" "sec mod 3600 div 60 < 60"
    "0 \<le> sec mod 60" "sec mod 60 < 60" "sec div 3600 * 3600 + sec mod 3600 div 60 * 60 + sec mod 60 = sec"
proof -
  define h r where "h = sec div 3600" and "r = sec mod 3600"
  have e: "sec = 3600 * h + r" unfolding h_def r_def by (rule mult_div_mod_eq [symmetric])
  have r: "0 \<le> r" "r < 3600" unfolding r_def by simp_all
  define m s where "m = r div 60" and "s = r mod 60"
  have e': "r = 60 * m + s" unfolding m_def s_def by (rule mult_div_mod_eq [symmetric])
  have s: "0 \<le> s" "s < 60" unfolding s_def by simp_all
  have ss: "sec mod 60 = s" unfolding s_def r_def by (simp add: mod_mod_cancel)
  show "0 \<le> sec div 3600" "sec div 3600 < 24" unfolding h_def [symmetric] using e r assms by linarith+
  show "0 \<le> sec mod 3600 div 60" "sec mod 3600 div 60 < 60"
    unfolding r_def [symmetric] m_def [symmetric] using e' s r by linarith+
  show "0 \<le> sec mod 60" "sec mod 60 < 60" unfolding ss using s by simp_all
  show "sec div 3600 * 3600 + sec mod 3600 div 60 * 60 + sec mod 60 = sec"
    unfolding ss r_def [symmetric] m_def [symmetric] h_def [symmetric] using e e' by linarith
qed

lemma monthLengths_bound: "m < 12 \<Longrightarrow> monthLengths y ! m \<le> 31"
  by (simp add: monthLengths_def less_Suc_eq numeral_eq_Suc) auto

lemma ParseRFC3339_fields:
  assumes "0 \<le> y" "y < 10000" "m < 12" "0 \<le> d" "d < monthLengths y ! m"
    and "0 \<le> hh" "hh < 24" "0 \<le> mi" "mi < 60" "0 \<le> ss" "ss < 60"
    and "off mod 60 = 0" "\<bar>off\<bar> \<le> 24 * 3600"
  shows "ParseRFC3339 (padYear y @ ''-'' @ pad2 (int m + 1) @ ''-'' @ pad2 (d + 1) @ ''T'' @
      pad2 hh @ '':'' @ pad2 mi @ '':'' @ pad2 ss @ zoneString off) =
    Some (((dayOf y m d - epochDay) * 86400 + hh * 3600 + mi * 60 + ss - off) * 1000000000)"
proof -
  define yh yl where "yh = y div 100" and "yl = y mod 100"
  have e: "y = 100 * yh + yl" unfolding yh_def yl_def by (rule mult_div_mod_eq [symmetric])
  have l: "0 \<le> yl" "yl < 100" unfolding yl_def by simp_all
  have h: "0 \<le> yh" "yh < 100" using e l assms(1,2) by linarith+
  have py: "padYear y = pad2 yh @ pad2 yl" using assms(1,2) by (simp only: padYear_def yh_def yl_def) simp
  have d: "d + 1 < 100" using monthLengths_bound [OF assms(3)] assms(5) by (rule order_less_le_trans [rotated, THEN add_strict_right_mono, THEN order_less_trans]) simp
  have n: "num2 (pad2 yh @ s) = Some (yh, s)" "num2 (pad2 yl @ s) = Some (yl, s)" "num2 (pad2 (int m + 1) @ s) = Some (int m + 1, s)"
    "num2 (pad2 (d + 1) @ s) = Some (d + 1, s)" "num12 (pad2 hh @ s) = Some (hh, s)" "num2 (pad2 mi @ s) = Some (mi, s)"
    "num2 (pad2 ss @ s) = Some (ss, s)" for s
    using assms h l d by (simp_all add: num2_pad2 num12_pad2)
  have m: "nat (int m + 1 - 1) = m" by simp
  show ?thesis
    unfolding ParseRFC3339_def py append_assoc n append_Cons append_Nil lit_Cons Option.bind.simps prod.case
      fraction_zoneString zone_zoneString [OF assms(12,13)] Let_def e [symmetric] m
    using assms by simp
qed

theorem ParseRFC3339_FormatRFC3339:
  assumes "0 \<le> localYear off t" "localYear off t < 10000" "off mod 60 = 0" "\<bar>off\<bar> \<le> 24 * 3600"
  shows "ParseRFC3339 (FormatRFC3339 off t) = Some (t div 1000000000 * 1000000000)"
proof -
  define s where "s = t div 1000000000 + off"
  define day sec where "day = s div 86400 + epochDay" and "sec = s mod 86400"
  define y where "y = yearOf day"
  have y: "0 \<le> y" "y < 10000" using assms(1,2) by (simp_all only: localYear_def y_def day_def s_def)
  have yd: "0 \<le> day - daysBefore y" "day - daysBefore y < sum_list (monthLengths y)"
    using yearOf_correct [of day] unfolding y_def [symmetric] daysBefore_step sum_monthLengths by simp_all
  obtain m d where md: "splitMonths (monthLengths y) (day - daysBefore y) = (m, d)" by fastforce
  have mm: "m < 12" "0 \<le> d" "d < monthLengths y ! m" "dayOf y m d = day"
    using splitMonths_correct [OF yd md] by (simp_all add: monthLengths_def dayOf_def)
  have sec: "0 \<le> sec" "sec < 86400" unfolding sec_def by simp_all
  note c = clock_split [OF sec]
  have "FormatRFC3339 off t = padYear y @ ''-'' @ pad2 (int m + 1) @ ''-'' @ pad2 (d + 1) @ ''T'' @
      pad2 (sec div 3600) @ '':'' @ pad2 (sec mod 3600 div 60) @ '':'' @ pad2 (sec mod 60) @ zoneString off"
    unfolding FormatRFC3339_def Let_def s_def [symmetric] day_def [symmetric] sec_def [symmetric] y_def [symmetric] md prod.case
    by (rule refl)
  moreover have "(dayOf y m d - epochDay) * 86400 + sec div 3600 * 3600 + sec mod 3600 div 60 * 60 + sec mod 60 - off =
      t div 1000000000"
  proof -
    have "s = 86400 * (s div 86400) + s mod 86400" by (rule mult_div_mod_eq [symmetric])
    then have "s = (day - epochDay) * 86400 + sec" by (simp only: day_def sec_def) simp
    with c(7) show ?thesis unfolding mm(4) s_def by linarith
  qed
  ultimately show ?thesis
    by (simp only: ParseRFC3339_fields [OF y mm(1-3) c(1-6) assms(3,4)])
qed

end
