(* ===== verification/Client.thy ===== *)
theory Client
  imports ApiTypes Rfc3339 "HOL-Library.Multiset" "HOL-Library.Char_ord" "HOL-Library.List_Lexorder"
begin

text \<open>
  What the controllers call but do not implement: the Kubernetes API servers of the hub and the
  member cluster, the Azure resource manager, the event recorder, the metrics registry, the clock
  and random numbers are requests with arbitrary answers (\<open>request\<close>, \<open>response\<close>); the library
  functions of \<open>apimachinery\<close>, \<open>controller-runtime\<close>, \<open>client-go\<close> and the fleet utilities are the
  fields of a record \<open>Lib\<close>, an argument of every definition that uses them. What is assumed of the
  library, where a theorem needs it, are the named laws at the end of the definitions, each of
  which states the documented behaviour of the function.
\<close>

section \<open>Errors\<close>

text \<open>
  A Go \<open>error\<close> value: the status error of an API server with its reason and the kind in its
  details, the response error of the Azure client with its HTTP status code, an error made by
  \<open>errors.New\<close> or \<open>fmt.Errorf\<close>, and the wrapped and joined errors. A nil error is \<open>None\<close>.
\<close>

datatype StatusReason =
    ReasonNotFound | ReasonAlreadyExists | ReasonConflict | ReasonTimeout | ReasonServerTimeout
  | ReasonTooManyRequests | ReasonOther string

datatype err =
    StatusErr StatusReason string string
  | ResponseErr int string
  | PlainErr string
  | WrapErr string err
  | JoinErr "err list"

fun statusReason :: "err \<Rightarrow> StatusReason option"
  and statusReasons :: "err list \<Rightarrow> StatusReason option" where
  "statusReason (StatusErr r kd msg) = Some r"
| "statusReason (ResponseErr c msg) = None"
| "statusReason (PlainErr msg) = None"
| "statusReason (WrapErr msg e) = statusReason e"
| "statusReason (JoinErr es) = statusReasons es"
| "statusReasons [] = None"
| "statusReasons (e # es) = (case statusReason e of Some r \<Rightarrow> Some r | None \<Rightarrow> statusReasons es)"

text \<open>The kind in the details of the first status error of a chain (\<open>errors.As\<close>).\<close>

fun statusKind :: "err \<Rightarrow> string option"
  and statusKinds :: "err list \<Rightarrow> string option" where
  "statusKind (StatusErr r kd msg) = Some kd"
| "statusKind (ResponseErr c msg) = None"
| "statusKind (PlainErr msg) = None"
| "statusKind (WrapErr msg e) = statusKind e"
| "statusKind (JoinErr es) = statusKinds es"
| "statusKinds [] = None"
| "statusKinds (e # es) = (case statusKind e of Some r \<Rightarrow> Some r | None \<Rightarrow> statusKinds es)"

text \<open>\<open>errors.As(err, &responseError)\<close>: the status code of the first Azure response error.\<close>

fun responseCode :: "err \<Rightarrow> int option"
  and responseCodes :: "err list \<Rightarrow> int option" where
  "responseCode (StatusErr r kd msg) = None"
| "responseCode (ResponseErr c msg) = Some c"
| "responseCode (PlainErr msg) = None"
| "responseCode (WrapErr msg e) = responseCode e"
| "responseCode (JoinErr es) = responseCodes es"
| "responseCodes [] = None"
| "responseCodes (e # es) = (case responseCode e of Some r \<Rightarrow> Some r | None \<Rightarrow> responseCodes es)"

fun errString :: "err \<Rightarrow> string"
  and errStrings :: "err list \<Rightarrow> string" where
  "errString (StatusErr r kd msg) = msg"
| "errString (ResponseErr c msg) = msg"
| "errString (PlainErr msg) = msg"
| "errString (WrapErr msg e) = msg @ '': '' @ errString e"
| "errString (JoinErr es) = errStrings es"
| "errStrings [] = []"
| "errStrings (e # es) = (if es = [] then errString e else errString e @ [CHR 0x0A] @ errStrings es)"

text \<open>The predicates of \<open>k8s.io/apimachinery/pkg/api/errors\<close> that the code uses.\<close>

definition IsNotFound :: "err \<Rightarrow> bool" where
  "IsNotFound e = (statusReason e = Some ReasonNotFound)"

definition IsAlreadyExists :: "err \<Rightarrow> bool" where
  "IsAlreadyExists e = (statusReason e = Some ReasonAlreadyExists)"

definition IsConflict :: "err \<Rightarrow> bool" where
  "IsConflict e = (statusReason e = Some ReasonConflict)"

definition IsTimeout :: "err \<Rightarrow> bool" where
  "IsTimeout e = (statusReason e = Some ReasonTimeout)"

definition IsServerTimeout :: "err \<Rightarrow> bool" where
  "IsServerTimeout e = (statusReason e = Some ReasonServerTimeout)"

definition IsTooManyRequests :: "err \<Rightarrow> bool" where
  "IsTooManyRequests e = (statusReason e = Some ReasonTooManyRequests)"

text \<open>\<open>client.IgnoreNotFound\<close> returns nil on NotFound errors and the error otherwise.\<close>

definition IgnoreNotFound :: "err \<Rightarrow> err option" where
  "IgnoreNotFound e = (if IsNotFound e then None else Some e)"

text \<open>\<open>errors.Join\<close>: nil when there is nothing to join.\<close>

definition errorsJoin :: "err list \<Rightarrow> err option" where
  "errorsJoin es = (if es = [] then None else Some (JoinErr es))"

section \<open>Requests and responses\<close>

datatype cluster = Hub | Mem

datatype kind =
    KInternalServiceExport | KServiceImport | KInternalServiceImport | KServiceExport
  | KEndpointSliceExport | KEndpointSliceImport | KEndpointSlice | KService | KMultiClusterService
  | KTrafficManagerProfile | KTrafficManagerBackend | KMemberCluster | KInternalMemberCluster

datatype kobj =
    OISE InternalServiceExport | OSI ServiceImport | OISI InternalServiceImport | OSE ServiceExport
  | OESE EndpointSliceExport | OESI EndpointSliceImport | OES EndpointSlice | OSVC Service
  | OMCS MultiClusterService | OTMP TrafficManagerProfile | OTMB TrafficManagerBackend
  | OMC MemberClusterObj | OIMC InternalMemberCluster

text \<open>The options of a list call: a namespace, a field index and its value, a label and its value.\<close>

record selector =
  sel_Namespace :: "string option"
  sel_Field :: "(string \<times> string) option"
  sel_Label :: "(string \<times> string) option"

datatype request =
    Get cluster kind NamespacedName
  | ListObjs cluster kind selector
  | Create cluster kobj
  | Update cluster kobj
  | StatusUpdate cluster kobj
  | Delete cluster kind NamespacedName
  | Eventf kind NamespacedName string string string
  | ProfilesGet string string
  | ProfilesCreateOrUpdate string string AzureProfile
  | ProfilesDelete string string
  | EndpointsCreateOrUpdate string string string AzureEndpoint
  | EndpointsDelete string string string
  | PublicIPList string
  | Now
  | NewUUID
  | RandIntn int
  | RandInt63nRange int int
  | MetricSet string "string list"
  | MetricDeletePartial string string string
  | MetricObserve string "string list" int
  | Enqueue NamespacedName

datatype response =
    RErr err
  | ROk
  | RObj kobj
  | RObjs "kobj list"
  | RProfile AzureProfile
  | REndpoint AzureEndpoint
  | RPips "PublicIPAddress list"
  | RTime time
  | RStr string
  | RInt int

type_synonym 'r op = "(request, response, 'r) prog"
type_synonym trace = "(request \<times> response) list"

text \<open>
  The answer is decoded into the type the caller asked for; an answer of another shape is a decode
  error, as it is for the Go client.
\<close>

definition decodeErr :: err where
  "decodeErr = PlainErr ''unable to decode the response''"

definition decISE :: "response \<Rightarrow> err + InternalServiceExport" where
  "decISE a = (case a of RErr e \<Rightarrow> Inl e | RObj (OISE x) \<Rightarrow> Inr x | _ \<Rightarrow> Inl decodeErr)"

definition decSI :: "response \<Rightarrow> err + ServiceImport" where
  "decSI a = (case a of RErr e \<Rightarrow> Inl e | RObj (OSI x) \<Rightarrow> Inr x | _ \<Rightarrow> Inl decodeErr)"

definition decISI :: "response \<Rightarrow> err + InternalServiceImport" where
  "decISI a = (case a of RErr e \<Rightarrow> Inl e | RObj (OISI x) \<Rightarrow> Inr x | _ \<Rightarrow> Inl decodeErr)"

definition decSE :: "response \<Rightarrow> err + ServiceExport" where
  "decSE a = (case a of RErr e \<Rightarrow> Inl e | RObj (OSE x) \<Rightarrow> Inr x | _ \<Rightarrow> Inl decodeErr)"

definition decESE :: "response \<Rightarrow> err + EndpointSliceExport" where
  "decESE a = (case a of RErr e \<Rightarrow> Inl e | RObj (OESE x) \<Rightarrow> Inr x | _ \<Rightarrow> Inl decodeErr)"

definition decESI :: "response \<Rightarrow> err + EndpointSliceImport" where
  "decESI a = (case a of RErr e \<Rightarrow> Inl e | RObj (OESI x) \<Rightarrow> Inr x | _ \<Rightarrow> Inl decodeErr)"

definition decES :: "response \<Rightarrow> err + EndpointSlice" where
  "decES a = (case a of RErr e \<Rightarrow> Inl e | RObj (OES x) \<Rightarrow> Inr x | _ \<Rightarrow> Inl decodeErr)"

definition decSVC :: "response \<Rightarrow> err + Service" where
  "decSVC a = (case a of RErr e \<Rightarrow> Inl e | RObj (OSVC x) \<Rightarrow> Inr x | _ \<Rightarrow> Inl decodeErr)"

definition decMCS :: "response \<Rightarrow> err + MultiClusterService" where
  "decMCS a = (case a of RErr e \<Rightarrow> Inl e | RObj (OMCS x) \<Rightarrow> Inr x | _ \<Rightarrow> Inl decodeErr)"

definition decTMP :: "response \<Rightarrow> err + TrafficManagerProfile" where
  "decTMP a = (case a of RErr e \<Rightarrow> Inl e | RObj (OTMP x) \<Rightarrow> Inr x | _ \<Rightarrow> Inl decodeErr)"

definition decTMB :: "response \<Rightarrow> err + TrafficManagerBackend" where
  "decTMB a = (case a of RErr e \<Rightarrow> Inl e | RObj (OTMB x) \<Rightarrow> Inr x | _ \<Rightarrow> Inl decodeErr)"

definition decMC :: "response \<Rightarrow> err + MemberClusterObj" where
  "decMC a = (case a of RErr e \<Rightarrow> Inl e | RObj (OMC x) \<Rightarrow> Inr x | _ \<Rightarrow> Inl decodeErr)"

definition decIMC :: "response \<Rightarrow> err + InternalMemberCluster" where
  "decIMC a = (case a of RErr e \<Rightarrow> Inl e | RObj (OIMC x) \<Rightarrow> Inr x | _ \<Rightarrow> Inl decodeErr)"

text \<open>Lists are decoded element by element.\<close>

definition decList :: "(response \<Rightarrow> err + 'x) \<Rightarrow> response \<Rightarrow> err + 'x list" where
  "decList dec a =
     (case a of
        RErr e \<Rightarrow> Inl e
      | RObjs os \<Rightarrow>
          (case those (map (\<lambda>o1. case dec (RObj o1) of Inl e \<Rightarrow> None | Inr x \<Rightarrow> Some x) os) of
             None \<Rightarrow> Inl decodeErr
           | Some xs \<Rightarrow> Inr xs)
      | _ \<Rightarrow> Inl decodeErr)"

text \<open>An answer without data: an error or nil.\<close>

definition decOk :: "response \<Rightarrow> err option" where
  "decOk a = (case a of RErr e \<Rightarrow> Some e | _ \<Rightarrow> None)"

definition decProfile :: "response \<Rightarrow> err + AzureProfile" where
  "decProfile a = (case a of RErr e \<Rightarrow> Inl e | RProfile x \<Rightarrow> Inr x | _ \<Rightarrow> Inl decodeErr)"

definition decEndpoint :: "response \<Rightarrow> err + AzureEndpoint" where
  "decEndpoint a = (case a of RErr e \<Rightarrow> Inl e | REndpoint x \<Rightarrow> Inr x | _ \<Rightarrow> Inl decodeErr)"

definition decPips :: "response \<Rightarrow> err + PublicIPAddress list" where
  "decPips a = (case a of RErr e \<Rightarrow> Inl e | RPips x \<Rightarrow> Inr x | _ \<Rightarrow> Inl decodeErr)"

definition decTime :: "response \<Rightarrow> time" where
  "decTime a = (case a of RTime t \<Rightarrow> t | _ \<Rightarrow> 0)"

definition decStr :: "response \<Rightarrow> string" where
  "decStr a = (case a of RStr s \<Rightarrow> s | _ \<Rightarrow> [])"

definition decInt :: "response \<Rightarrow> int" where
  "decInt a = (case a of RInt n \<Rightarrow> n | _ \<Rightarrow> 0)"

text \<open>
  The calls. A successful create or update answers with the object as the server stored it, and
  the client writes it back into the caller's object.
\<close>

definition call :: "request \<Rightarrow> (response \<Rightarrow> 'x) \<Rightarrow> 'x op" where
  "call q dec = Call q (\<lambda>a. Ret (dec a))"

definition selAll :: selector where
  "selAll = \<lparr>sel_Namespace = None, sel_Field = None, sel_Label = None\<rparr>"

definition getISE where "getISE c n = call (Get c KInternalServiceExport n) decISE"
definition getSI where "getSI c n = call (Get c KServiceImport n) decSI"
definition getISI where "getISI c n = call (Get c KInternalServiceImport n) decISI"
definition getSE where "getSE c n = call (Get c KServiceExport n) decSE"
definition getESE where "getESE c n = call (Get c KEndpointSliceExport n) decESE"
definition getESI where "getESI c n = call (Get c KEndpointSliceImport n) decESI"
definition getES where "getES c n = call (Get c KEndpointSlice n) decES"
definition getSVC where "getSVC c n = call (Get c KService n) decSVC"
definition getMCS where "getMCS c n = call (Get c KMultiClusterService n) decMCS"
definition getTMP where "getTMP c n = call (Get c KTrafficManagerProfile n) decTMP"
definition getTMB where "getTMB c n = call (Get c KTrafficManagerBackend n) decTMB"
definition getMC where "getMC c n = call (Get c KMemberCluster n) decMC"
definition getIMC where "getIMC c n = call (Get c KInternalMemberCluster n) decIMC"

text \<open>An update, a status update or a create of the object \<open>x\<close>: the error, and the caller's object.\<close>

definition decUpd :: "(response \<Rightarrow> err + 'x) \<Rightarrow> 'x \<Rightarrow> response \<Rightarrow> err option \<times> 'x" where
  "decUpd dec x a = (case dec a of Inl e \<Rightarrow> (Some e, x) | Inr y \<Rightarrow> (None, y))"

definition doUpdate :: "cluster \<Rightarrow> ('x \<Rightarrow> kobj) \<Rightarrow> (response \<Rightarrow> err + 'x) \<Rightarrow> 'x \<Rightarrow> (err option \<times> 'x) op" where
  "doUpdate c mk dec x = call (Update c (mk x)) (decUpd dec x)"

definition doStatusUpdate :: "cluster \<Rightarrow> ('x \<Rightarrow> kobj) \<Rightarrow> (response \<Rightarrow> err + 'x) \<Rightarrow> 'x \<Rightarrow> (err option \<times> 'x) op" where
  "doStatusUpdate c mk dec x = call (StatusUpdate c (mk x)) (decUpd dec x)"

definition doCreate :: "cluster \<Rightarrow> ('x \<Rightarrow> kobj) \<Rightarrow> (response \<Rightarrow> err + 'x) \<Rightarrow> 'x \<Rightarrow> (err option \<times> 'x) op" where
  "doCreate c mk dec x = call (Create c (mk x)) (decUpd dec x)"

definition doList :: "cluster \<Rightarrow> kind \<Rightarrow> (response \<Rightarrow> err + 'x) \<Rightarrow> selector \<Rightarrow> (err + 'x list) op" where
  "doList c kd dec sel = call (ListObjs c kd sel) (decList dec)"

definition deleteObj :: "cluster \<Rightarrow> kind \<Rightarrow> NamespacedName \<Rightarrow> err option op" where
  "deleteObj c kd n = call (Delete c kd n) decOk"

definition eventf :: "kind \<Rightarrow> ObjectMeta \<Rightarrow> string \<Rightarrow> string \<Rightarrow> string \<Rightarrow> unit op" where
  "eventf kd m ty reason msg = call (Eventf kd (metaKey m) ty reason msg) (\<lambda>_. ())"

definition timeNow :: "time op" where
  "timeNow = call Now decTime"

section \<open>The library parameters\<close>

record Backoff =
  bo_Steps :: nat
  bo_DurationMillis :: int
  bo_FactorTenths :: int
  bo_JitterTenths :: int
  bo_CapMillis :: int

text \<open>
  \<open>LibOnError\<close> and \<open>LibExponentialBackoff\<close> run a Go closure several times. The closures write a
  variable of the caller (the object being updated, the last error), which is passed through
  explicitly. \<open>LibErrGroup\<close>
  runs the functions passed to \<open>errs.Go\<close> and answers what \<open>errs.Wait\<close> returns. \<open>LibCreateOrUpdate\<close>
  gets the object and the mutate function. \<open>LibMapOrder\<close> is the order in which a \<open>range\<close> loop visits
  the keys of a map. \<open>LibLocalOffset\<close> is the time zone of the process: its offset from Greenwich, in
  seconds, at a point in time. \<open>LibSortSlice\<close> is the order in which \<open>sort.Slice\<close> puts the elements with
  these keys, by their positions. \<open>LibIndefiniteInt\<close> is what the conversion of a floating point number
  gives that is no 64-bit integer, which the language leaves to the implementation.
  \<open>LibGetAgentStatus\<close> is \<open>InternalMemberCluster.GetAgentStatus\<close>, which answers a pointer to an entry of the
  list: the list, which may have grown, and the position.
\<close>

record Lib =
  LibFindStatusCondition :: "Condition list \<Rightarrow> string \<Rightarrow> Condition option"
  LibSetStatusCondition :: "Condition list \<Rightarrow> Condition \<Rightarrow> Condition list"
  LibContainsFinalizer :: "ObjectMeta \<Rightarrow> string \<Rightarrow> bool"
  LibAddFinalizer :: "ObjectMeta \<Rightarrow> string \<Rightarrow> ObjectMeta"
  LibRemoveFinalizer :: "ObjectMeta \<Rightarrow> string \<Rightarrow> ObjectMeta"
  LibSetControllerReference :: "ObjectMeta \<Rightarrow> ObjectMeta \<Rightarrow> err + ObjectMeta"
  LibIsDNS1123Subdomain :: "string \<Rightarrow> string list"
  LibIsDNS1123Label :: "string \<Rightarrow> string list"
  LibIsDNS1035Label :: "string \<Rightarrow> string list"
  LibLocalOffset :: "time \<Rightarrow> int"
  LibNewAPIServerError :: "bool \<Rightarrow> err \<Rightarrow> err"
  LibNewUpdateIgnoreConflictError :: "err \<Rightarrow> err option"
  LibIsConditionStatusTrue :: "Condition option \<Rightarrow> int \<Rightarrow> bool"
  LibIsConditionStatusFalse :: "Condition option \<Rightarrow> int \<Rightarrow> bool"
  LibEqualConditionIgnoreReason :: "Condition option \<Rightarrow> Condition option \<Rightarrow> bool"
  LibMapOrder :: "string list \<Rightarrow> string list"
  LibDefaultBackoff :: Backoff
  LibOnError :: "Backoff \<Rightarrow> (err \<Rightarrow> bool) \<Rightarrow> (kobj \<Rightarrow> (err option \<times> kobj) op) \<Rightarrow> kobj
    \<Rightarrow> (err option \<times> kobj) op"
  LibExponentialBackoff :: "Backoff \<Rightarrow> (err option \<Rightarrow> (bool \<times> err option \<times> err option) op)
    \<Rightarrow> err option \<Rightarrow> (err option \<times> err option) op"
  LibInterrupted :: "err \<Rightarrow> bool"
  LibErrorInterrupted :: "err \<Rightarrow> err"
  LibErrGroup :: "err option op list \<Rightarrow> err option op"
  LibCreateOrUpdate :: "cluster \<Rightarrow> kobj \<Rightarrow> (kobj \<Rightarrow> (err option \<times> kobj) op) \<Rightarrow> (err option \<times> kobj) op"
  LibNewAlreadyExists :: "string \<Rightarrow> string \<Rightarrow> err"
  LibSortSlice :: "string list \<Rightarrow> nat list"
  LibIndefiniteInt :: int
  LibGetAgentStatus :: "AgentType \<Rightarrow> AgentStatus list \<Rightarrow> AgentStatus list \<times> nat"

section \<open>The documented behaviour of the library\<close>

text \<open>
  \<open>controllerutil\<close>: \<open>AddFinalizer\<close> and \<open>RemoveFinalizer\<close> add and remove a finalizer and change
  nothing else, \<open>ContainsFinalizer\<close> checks that it is present.
\<close>

definition finalizer_laws :: "Lib \<Rightarrow> bool" where
  "finalizer_laws L \<longleftrightarrow>
     (\<forall>m f. LibContainsFinalizer L m f = (f \<in> set (om_Finalizers m))) \<and>
     (\<forall>m f. \<exists>fs. LibAddFinalizer L m f = m\<lparr>om_Finalizers := fs\<rparr> \<and>
        set fs = insert f (set (om_Finalizers m))) \<and>
     (\<forall>m f. \<exists>fs. LibRemoveFinalizer L m f = m\<lparr>om_Finalizers := fs\<rparr> \<and>
        set fs = set (om_Finalizers m) - {f})"

text \<open>
  \<open>meta\<close>: \<open>FindStatusCondition\<close> finds the condition of a type; \<open>SetStatusCondition\<close> sets the
  condition of its type (the last transition time is the library's) and leaves the others.
\<close>

definition condition_laws :: "Lib \<Rightarrow> bool" where
  "condition_laws L \<longleftrightarrow>
     (\<forall>cs t. LibFindStatusCondition L cs t = find (\<lambda>c. c_Type c = t) cs) \<and>
     (\<forall>cs c. \<exists>t. LibFindStatusCondition L (LibSetStatusCondition L cs c) (c_Type c) =
        Some (c\<lparr>c_LastTransitionTime := t\<rparr>)) \<and>
     (\<forall>cs c t. t \<noteq> c_Type c \<longrightarrow>
        LibFindStatusCondition L (LibSetStatusCondition L cs c) t = LibFindStatusCondition L cs t)"

text \<open>A \<open>range\<close> loop over a map visits every key once, in an order that is not specified.\<close>

definition range_laws :: "Lib \<Rightarrow> bool" where
  "range_laws L \<longleftrightarrow> (\<forall>ks. distinct ks \<longrightarrow> distinct (LibMapOrder L ks) \<and> set (LibMapOrder L ks) = set ks)"

text \<open>
  \<open>retry.OnError\<close> runs the function, and runs it again while it returns an error that the caller
  calls retriable and the number of steps of the backoff is not used up.
\<close>

primrec retryLoop :: "nat \<Rightarrow> (err \<Rightarrow> bool) \<Rightarrow> (kobj \<Rightarrow> (err option \<times> kobj) op) \<Rightarrow> kobj
    \<Rightarrow> (err option \<times> kobj) op" where
  "retryLoop 0 retr f x = f x"
| "retryLoop (Suc n) retr f x =
     bindP (f x) (\<lambda>(r, y).
       case r of
         None \<Rightarrow> Ret (None, y)
       | Some e \<Rightarrow> if retr e then retryLoop n retr f y else Ret (Some e, y))"

definition retry_laws :: "Lib \<Rightarrow> bool" where
  "retry_laws L \<longleftrightarrow> 0 < bo_Steps (LibDefaultBackoff L) \<and>
     (\<forall>b retr f. 0 < bo_Steps b \<longrightarrow> (\<exists>n. n < bo_Steps b \<and> LibOnError L b retr f = retryLoop n retr f))"

text \<open>
  \<open>wait.ExponentialBackoffWithContext\<close> calls the condition until it answers true or an error, at most
  as often as the backoff has steps; when it gives up (or the context ends) it returns an error
  that \<open>wait.Interrupted\<close> recognises.
\<close>

primrec backoffLoop :: "nat \<Rightarrow> err \<Rightarrow> (err option \<Rightarrow> (bool \<times> err option \<times> err option) op) \<Rightarrow> err option
    \<Rightarrow> (err option \<times> err option) op" where
  "backoffLoop 0 timeout cond s = Ret (Some timeout, s)"
| "backoffLoop (Suc n) timeout cond s =
     bindP (cond s) (\<lambda>(ok, e, s'). if ok \<or> e \<noteq> None then Ret (e, s') else backoffLoop n timeout cond s')"

definition backoff_laws :: "Lib \<Rightarrow> bool" where
  "backoff_laws L \<longleftrightarrow>
     (\<forall>b cond s. \<exists>n timeout. n \<le> bo_Steps b \<and> LibInterrupted L timeout \<and>
        LibExponentialBackoff L b cond s = backoffLoop n timeout cond s)"

text \<open>
  \<open>controllerutil.CreateOrUpdate\<close> gets the object; if it does not exist, it calls the mutate
  function on the given object and creates it, otherwise it calls the mutate function on the
  object found and updates it if that changed it.
\<close>

definition kindOf :: "kobj \<Rightarrow> kind" where
  "kindOf o1 = (case o1 of OISE _ \<Rightarrow> KInternalServiceExport | OSI _ \<Rightarrow> KServiceImport
     | OISI _ \<Rightarrow> KInternalServiceImport | OSE _ \<Rightarrow> KServiceExport | OESE _ \<Rightarrow> KEndpointSliceExport
     | OESI _ \<Rightarrow> KEndpointSliceImport | OES _ \<Rightarrow> KEndpointSlice | OSVC _ \<Rightarrow> KService
     | OMCS _ \<Rightarrow> KMultiClusterService | OTMP _ \<Rightarrow> KTrafficManagerProfile
     | OTMB _ \<Rightarrow> KTrafficManagerBackend | OMC _ \<Rightarrow> KMemberCluster | OIMC _ \<Rightarrow> KInternalMemberCluster)"

definition metaOfObj :: "kobj \<Rightarrow> ObjectMeta" where
  "metaOfObj o1 = (case o1 of OISE x \<Rightarrow> ise_ObjectMeta x | OSI x \<Rightarrow> si_ObjectMeta x
     | OISI x \<Rightarrow> isi_ObjectMeta x | OSE x \<Rightarrow> se_ObjectMeta x | OESE x \<Rightarrow> ese_ObjectMeta x
     | OESI x \<Rightarrow> esi_ObjectMeta x | OES x \<Rightarrow> es_ObjectMeta x | OSVC x \<Rightarrow> svc_ObjectMeta x
     | OMCS x \<Rightarrow> mcs_ObjectMeta x | OTMP x \<Rightarrow> tmp_ObjectMeta x | OTMB x \<Rightarrow> tmb_ObjectMeta x
     | OMC x \<Rightarrow> mc_ObjectMeta x | OIMC x \<Rightarrow> imc_ObjectMeta x)"

text \<open>The kind of object that a request is about.\<close>

definition reqKind :: "request \<Rightarrow> kind option" where
  "reqKind q = (case q of Get c kd n \<Rightarrow> Some kd | ListObjs c kd sel \<Rightarrow> Some kd | Create c x \<Rightarrow> Some (kindOf x)
     | Update c x \<Rightarrow> Some (kindOf x) | StatusUpdate c x \<Rightarrow> Some (kindOf x) | Delete c kd n \<Rightarrow> Some kd
     | _ \<Rightarrow> None)"

definition decObj :: "kind \<Rightarrow> response \<Rightarrow> err + kobj" where
  "decObj kd a = (case a of RErr e \<Rightarrow> Inl e
     | RObj x \<Rightarrow> if kindOf x = kd then Inr x else Inl decodeErr | _ \<Rightarrow> Inl decodeErr)"

definition createOrUpdateDoc ::
    "cluster \<Rightarrow> kobj \<Rightarrow> (kobj \<Rightarrow> (err option \<times> kobj) op) \<Rightarrow> (err option \<times> kobj) op" where
  "createOrUpdateDoc c o1 mutate =
     bindP (call (Get c (kindOf o1) (metaKey (metaOfObj o1))) (decObj (kindOf o1))) (\<lambda>g.
       case g of
         Inl e \<Rightarrow>
           if \<not> IsNotFound e then Ret (Some e, o1)
           else bindP (mutate o1) (\<lambda>(me, o2).
             case me of Some e2 \<Rightarrow> Ret (Some e2, o2)
             | None \<Rightarrow> bindP (call (Create c o2) (decObj (kindOf o1))) (\<lambda>r.
                 case r of Inl e3 \<Rightarrow> Ret (Some e3, o2) | Inr o3 \<Rightarrow> Ret (None, o3)))
       | Inr o2 \<Rightarrow>
           bindP (mutate o2) (\<lambda>(me, o3).
             case me of Some e2 \<Rightarrow> Ret (Some e2, o3)
             | None \<Rightarrow>
                 if o3 = o2 then Ret (None, o3)
                 else bindP (call (Update c o3) (decObj (kindOf o1))) (\<lambda>r.
                   case r of Inl e3 \<Rightarrow> Ret (Some e3, o3) | Inr o4 \<Rightarrow> Ret (None, o4))))"

definition createOrUpdate_laws :: "Lib \<Rightarrow> bool" where
  "createOrUpdate_laws L \<longleftrightarrow> (\<forall>c o1 f. LibCreateOrUpdate L c o1 f = createOrUpdateDoc c o1 f)"

text \<open>
  \<open>errgroup\<close>: every function is called, in no particular order, and \<open>Wait\<close> returns the first
  non-nil error if there is one.
\<close>

primrec runAll :: "err option op list \<Rightarrow> err option list op" where
  "runAll [] = Ret []"
| "runAll (p # ps) = bindP p (\<lambda>r. bindP (runAll ps) (\<lambda>rs. Ret (r # rs)))"

definition errgroup_laws :: "Lib \<Rightarrow> bool" where
  "errgroup_laws L \<longleftrightarrow> (\<forall>ps. \<exists>qs pick. mset qs = mset ps \<and>
     LibErrGroup L ps = bindP (runAll qs) (\<lambda>rs. Ret (pick rs)) \<and>
     (\<forall>rs. (pick rs = None \<longleftrightarrow> list_all (\<lambda>r. r = None) rs) \<and> (\<forall>e. pick rs = Some e \<longrightarrow> Some e \<in> set rs)))"

text \<open>\<open>apierrors.NewAlreadyExists\<close> makes an error with that reason for the kind of resource given.\<close>

definition alreadyExists_laws :: "Lib \<Rightarrow> bool" where
  "alreadyExists_laws L \<longleftrightarrow>
     (\<forall>r n. statusReason (LibNewAlreadyExists L r n) = Some ReasonAlreadyExists \<and> statusKind (LibNewAlreadyExists L r n) = Some r)"

text \<open>
  \<open>SetControllerReference\<close> sets the owner as the controller of an object, whose name stays; it returns an
  error if the controller of the object is another one.
\<close>

definition owner_laws :: "Lib \<Rightarrow> bool" where
  "owner_laws L \<longleftrightarrow> (\<forall>o1 m.
     (\<forall>m'. LibSetControllerReference L o1 m = Inr m' \<longrightarrow> metaKey m' = metaKey m \<and>
        (\<exists>r \<in> set (om_OwnerReferences m'). or_Controller r = Some True \<and> or_Name r = om_Name o1)) \<and>
     (\<forall>r. find (\<lambda>r. or_Controller r = Some True) (om_OwnerReferences m) = Some r \<longrightarrow> or_Name r \<noteq> om_Name o1 \<longrightarrow>
        isl (LibSetControllerReference L o1 m)))"

text \<open>\<open>sort.Slice\<close> permutes the elements so that the keys ascend; it is not guaranteed to be stable.\<close>

definition sort_laws :: "Lib \<Rightarrow> bool" where
  "sort_laws L \<longleftrightarrow>
     (\<forall>ks. mset (LibSortSlice L ks) = mset [0..<length ks] \<and> sorted (map (\<lambda>i. ks ! i) (LibSortSlice L ks)))"

text \<open>
  \<open>GetAgentStatus\<close> retrieves the status of an agent; if there is none, it adds an empty one. The
  others stay as they are.
\<close>

definition agent_laws :: "Lib \<Rightarrow> bool" where
  "agent_laws L \<longleftrightarrow>
     (\<forall>ty as bs i. LibGetAgentStatus L ty as = (bs, i) \<longrightarrow>
        i < length bs \<and> as_Type (bs ! i) = ty \<and> (bs = as \<or> (\<exists>b. bs = as @ [b]) \<and> (\<forall>a \<in> set as. as_Type a \<noteq> ty)))"

text \<open>
  A closure over an object of one type as a closure over an API object.
\<close>

definition asISE :: "InternalServiceExport \<Rightarrow> kobj \<Rightarrow> InternalServiceExport" where
  "asISE d x = (case x of OISE y \<Rightarrow> y | _ \<Rightarrow> d)"

definition asSI :: "ServiceImport \<Rightarrow> kobj \<Rightarrow> ServiceImport" where
  "asSI d x = (case x of OSI y \<Rightarrow> y | _ \<Rightarrow> d)"

section \<open>Results\<close>

text \<open>\<open>ctrl.Result\<close>: requeue at once, or after a number of nanoseconds (0: not at all).\<close>

record Result =
  res_Requeue :: bool
  res_RequeueAfter :: int

definition emptyResult :: Result where
  "emptyResult = \<lparr>res_Requeue = False, res_RequeueAfter = 0\<rparr>"

definition requeueAfter :: "int \<Rightarrow> Result" where
  "requeueAfter d = \<lparr>res_Requeue = False, res_RequeueAfter = d\<rparr>"

definition seconds :: "int \<Rightarrow> int" where
  "seconds n = n * 1000000000"

type_synonym outcome = "Result \<times> err option"

section \<open>A concrete library\<close>

text \<open>
  One instance of the library that satisfies the laws; the witnesses of theorems about the library
  parameters are evaluated on it.
\<close>

definition refSetStatusCondition :: "Condition list \<Rightarrow> Condition \<Rightarrow> Condition list" where
  "refSetStatusCondition cs c =
     (if find (\<lambda>d. c_Type d = c_Type c) cs = None then cs @ [c]
      else map (\<lambda>d. if c_Type d = c_Type c
                     then c\<lparr>c_LastTransitionTime := if c_Status d = c_Status c
                            then c_LastTransitionTime d else c_LastTransitionTime c\<rparr>
                     else d) cs)"

definition refLabelErrs :: "nat \<Rightarrow> (char \<Rightarrow> bool) \<Rightarrow> string \<Rightarrow> string list" where
  "refLabelErrs n okc s = (if s \<noteq> [] \<and> length s \<le> n \<and> list_all okc s then [] else [''invalid''])"

definition refLabelChar :: "char \<Rightarrow> bool" where
  "refLabelChar c = (is_digit c \<or> c = CHR ''-'' \<or> (97 \<le> (of_char c :: nat) \<and> (of_char c :: nat) \<le> 122))"

definition refWaitTimeout :: err where
  "refWaitTimeout = PlainErr ''timed out waiting for the condition''"

definition refLib :: Lib where
  "refLib = \<lparr>
     LibFindStatusCondition = (\<lambda>cs t. find (\<lambda>c. c_Type c = t) cs),
     LibSetStatusCondition = refSetStatusCondition,
     LibContainsFinalizer = (\<lambda>m f. f \<in> set (om_Finalizers m)),
     LibAddFinalizer = (\<lambda>m f. m\<lparr>om_Finalizers := List.insert f (om_Finalizers m)\<rparr>),
     LibRemoveFinalizer = (\<lambda>m f. m\<lparr>om_Finalizers := filter (\<lambda>g. g \<noteq> f) (om_Finalizers m)\<rparr>),
     LibSetControllerReference = (\<lambda>owner m.
       if list_ex (\<lambda>r. or_Controller r = Some True \<and> or_Name r \<noteq> om_Name owner) (om_OwnerReferences m)
       then Inl (PlainErr ''already owned'')
       else Inr (m\<lparr>om_OwnerReferences := [\<lparr>or_APIVersion = [], or_Kind = [], or_Name = om_Name owner,
                  or_UID = om_UID owner, or_Controller = Some True\<rparr>]\<rparr>)),
     LibIsDNS1123Subdomain = refLabelErrs 253 (\<lambda>c. refLabelChar c \<or> c = CHR ''.''),
     LibIsDNS1123Label = refLabelErrs 63 refLabelChar,
     LibIsDNS1035Label = refLabelErrs 63 refLabelChar,
     LibLocalOffset = (\<lambda>t. 0),
     LibNewAPIServerError = (\<lambda>fromCache e. WrapErr ''API server error'' e),
     LibNewUpdateIgnoreConflictError = (\<lambda>e. if IsConflict e then None else Some e),
     LibIsConditionStatusTrue = (\<lambda>c g. case c of None \<Rightarrow> False
       | Some d \<Rightarrow> c_Status d = ConditionTrue \<and> c_ObservedGeneration d = g),
     LibIsConditionStatusFalse = (\<lambda>c g. case c of None \<Rightarrow> False
       | Some d \<Rightarrow> c_Status d = ConditionFalse \<and> c_ObservedGeneration d = g),
     LibEqualConditionIgnoreReason = (\<lambda>c d. case (c, d) of
         (Some x, Some y) \<Rightarrow> c_Type x = c_Type y \<and> c_Status x = c_Status y \<and>
            c_ObservedGeneration x = c_ObservedGeneration y
       | (x, y) \<Rightarrow> x = y),
     LibMapOrder = (\<lambda>ks. ks),
     LibDefaultBackoff = \<lparr>bo_Steps = 4, bo_DurationMillis = 10, bo_FactorTenths = 50,
       bo_JitterTenths = 1, bo_CapMillis = 0\<rparr>,
     LibOnError = (\<lambda>b. retryLoop (bo_Steps b - 1)),
     LibExponentialBackoff = (\<lambda>b. backoffLoop (bo_Steps b) refWaitTimeout),
     LibInterrupted = (\<lambda>e. e = refWaitTimeout),
     LibErrorInterrupted = (\<lambda>e. e),
     LibErrGroup = (\<lambda>ps. bindP (runAll ps) (\<lambda>rs. Ret (case find (\<lambda>r. r \<noteq> None) rs of
        None \<Rightarrow> None | Some r \<Rightarrow> r))),
     LibCreateOrUpdate = createOrUpdateDoc,
     LibNewAlreadyExists = (\<lambda>r n. StatusErr ReasonAlreadyExists r (n @ '' already exists'')),
     LibSortSlice = (\<lambda>ks. sort_key (\<lambda>i. ks ! i) [0..<length ks]),
     LibIndefiniteInt = - (2 ^ 63),
     LibGetAgentStatus = (\<lambda>ty as. case find (\<lambda>i. as_Type (as ! i) = ty) [0..<length as] of
         Some i \<Rightarrow> (as, i)
       | None \<Rightarrow> (as @ [\<lparr>as_Type = ty, as_Conditions = [], as_LastReceivedHeartbeat = None\<rparr>], length as))\<rparr>"

text \<open>Objects for the examples: the service \<open>work/app\<close>, exported by the cluster \<open>c1\<close>.\<close>

definition demoPort :: ServicePort where
  "demoPort = \<lparr>sp_Name = ''http'', sp_Protocol = ''TCP'', sp_AppProtocol = None, sp_Port = 80, sp_TargetPort = IntVal 8080\<rparr>"

definition demoImport :: ServiceImport where
  "demoImport = \<lparr>si_TypeMeta = zeroType, si_ObjectMeta = metaOf ''work'' ''app'', si_Status = zeroSIStatus\<rparr>"

definition demoExport :: InternalServiceExport where
  "demoExport = \<lparr>ise_ObjectMeta = metaOf ''fleet-member-c1'' ''work-app'',
     ise_Spec = zeroISESpec\<lparr>ises_Ports := [demoPort], ises_ServiceReference := zeroRef\<lparr>eor_ClusterID := ''c1'',
       eor_Namespace := ''work'', eor_Name := ''app'', eor_NamespacedName := ''work/app''\<rparr>\<rparr>,
     ise_Conditions = []\<rparr>"

definition demoExportKey :: NamespacedName where
  "demoExportKey = \<lparr>nn_Namespace = ''fleet-member-c1'', nn_Name = ''work-app''\<rparr>"

definition demoImportKey :: NamespacedName where
  "demoImportKey = \<lparr>nn_Namespace = ''work'', nn_Name = ''app''\<rparr>"

definition notFound :: response where
  "notFound = RErr (StatusErr ReasonNotFound ''ServiceImport'' ''not found'')"

section \<open>Lemmas\<close>

declare call_def [prog_simps]
declare getISE_def [prog_simps] getSI_def [prog_simps] getISI_def [prog_simps] getSE_def [prog_simps]
  getESE_def [prog_simps] getESI_def [prog_simps] getES_def [prog_simps] getSVC_def [prog_simps]
  getMCS_def [prog_simps] getTMP_def [prog_simps] getTMB_def [prog_simps] getMC_def [prog_simps]
  getIMC_def [prog_simps]
declare doUpdate_def [prog_simps] doStatusUpdate_def [prog_simps] doCreate_def [prog_simps]
  doList_def [prog_simps]
declare deleteObj_def [prog_simps] eventf_def [prog_simps] timeNow_def [prog_simps]

text \<open>An answer decodes to an object just if it is that object.\<close>

lemma dec_Inr_iff [simp]:
  "decISE a = Inr x0 \<longleftrightarrow> a = RObj (OISE x0)"
  "decSI a = Inr x1 \<longleftrightarrow> a = RObj (OSI x1)"
  "decISI a = Inr x2 \<longleftrightarrow> a = RObj (OISI x2)"
  "decSE a = Inr x3 \<longleftrightarrow> a = RObj (OSE x3)"
  "decESE a = Inr x4 \<longleftrightarrow> a = RObj (OESE x4)"
  "decESI a = Inr x5 \<longleftrightarrow> a = RObj (OESI x5)"
  "decES a = Inr x6 \<longleftrightarrow> a = RObj (OES x6)"
  "decSVC a = Inr x7 \<longleftrightarrow> a = RObj (OSVC x7)"
  "decMCS a = Inr x8 \<longleftrightarrow> a = RObj (OMCS x8)"
  "decTMP a = Inr x9 \<longleftrightarrow> a = RObj (OTMP x9)"
  "decTMB a = Inr x10 \<longleftrightarrow> a = RObj (OTMB x10)"
  "decMC a = Inr x11 \<longleftrightarrow> a = RObj (OMC x11)"
  "decIMC a = Inr x12 \<longleftrightarrow> a = RObj (OIMC x12)"
  by (auto simp: decISE_def decSI_def decISI_def decSE_def decESE_def decESI_def decES_def decSVC_def decMCS_def decTMP_def decTMB_def decMC_def decIMC_def
      split: response.splits kobj.splits)

lemma dec_RObj [simp]:
  "decISE (RObj (OISE x0)) = Inr x0"
  "decSI (RObj (OSI x1)) = Inr x1"
  "decISI (RObj (OISI x2)) = Inr x2"
  "decSE (RObj (OSE x3)) = Inr x3"
  "decESE (RObj (OESE x4)) = Inr x4"
  "decESI (RObj (OESI x5)) = Inr x5"
  "decES (RObj (OES x6)) = Inr x6"
  "decSVC (RObj (OSVC x7)) = Inr x7"
  "decMCS (RObj (OMCS x8)) = Inr x8"
  "decTMP (RObj (OTMP x9)) = Inr x9"
  "decTMB (RObj (OTMB x10)) = Inr x10"
  "decMC (RObj (OMC x11)) = Inr x11"
  "decIMC (RObj (OIMC x12)) = Inr x12"
  by simp_all

lemma dec_RErr [simp]:
  "decISE (RErr e) = Inl e"
  "decSI (RErr e) = Inl e"
  "decISI (RErr e) = Inl e"
  "decSE (RErr e) = Inl e"
  "decESE (RErr e) = Inl e"
  "decESI (RErr e) = Inl e"
  "decES (RErr e) = Inl e"
  "decSVC (RErr e) = Inl e"
  "decMCS (RErr e) = Inl e"
  "decTMP (RErr e) = Inl e"
  "decTMB (RErr e) = Inl e"
  "decMC (RErr e) = Inl e"
  "decIMC (RErr e) = Inl e"
  by (simp_all add: decISE_def decSI_def decISI_def decSE_def decESE_def decESI_def decES_def decSVC_def decMCS_def decTMP_def decTMB_def decMC_def decIMC_def)

lemma dec_Az_iff [simp]:
  "decProfile a = Inr p \<longleftrightarrow> a = RProfile p"
  "decEndpoint a = Inr e \<longleftrightarrow> a = REndpoint e"
  "decPips a = Inr ps \<longleftrightarrow> a = RPips ps"
  by (auto simp: decProfile_def decEndpoint_def decPips_def split: response.splits)

lemma kindOf_simps [simp]:
  "kindOf (OISE x1) = KInternalServiceExport" "kindOf (OSI x2) = KServiceImport"
  "kindOf (OISI x3) = KInternalServiceImport" "kindOf (OSE x4) = KServiceExport"
  "kindOf (OESE x5) = KEndpointSliceExport" "kindOf (OESI x6) = KEndpointSliceImport"
  "kindOf (OES x7) = KEndpointSlice" "kindOf (OSVC x8) = KService" "kindOf (OMCS x9) = KMultiClusterService"
  "kindOf (OTMP x10) = KTrafficManagerProfile" "kindOf (OTMB x11) = KTrafficManagerBackend"
  "kindOf (OMC x12) = KMemberCluster" "kindOf (OIMC x13) = KInternalMemberCluster"
  by (simp_all add: kindOf_def)

lemma decObj_RObj [simp]: "kindOf x = kd \<Longrightarrow> decObj kd (RObj x) = Inr x"
  by (simp add: decObj_def)

lemma decObj_Inr [simp]: "decObj kd a = Inr x \<longleftrightarrow> a = RObj x \<and> kindOf x = kd"
  by (auto simp: decObj_def split: response.splits if_splits)

lemma kindOf_ISE: "kindOf x = KInternalServiceExport \<Longrightarrow> \<exists>e. x = OISE e"
  by (cases x) (simp_all add: kindOf_def)

lemma decObj_NotFound: "decObj kd a = Inl e \<Longrightarrow> IsNotFound e \<Longrightarrow> a = RErr e"
  by (auto simp: decObj_def decodeErr_def IsNotFound_def split: response.splits if_splits)

lemma decUpd_iff:
  "decUpd dec x a = (er, y) \<longleftrightarrow> (er = None \<and> dec a = Inr y) \<or> (\<exists>e. er = Some e \<and> dec a = Inl e \<and> y = x)"
  "(er, y) = decUpd dec x a \<longleftrightarrow> (er = None \<and> dec a = Inr y) \<or> (\<exists>e. er = Some e \<and> dec a = Inl e \<and> y = x)"
  by (auto simp: decUpd_def split: sum.splits)

lemma wp_call: "wp G Q (call q dec) h \<longleftrightarrow> G h q \<and> (\<forall>a. Q (h @ [(q, a)]) (dec a))"
  by (simp add: call_def)

lemma wp_bindP_call:
  "wp G Q (bindP (call q dec) f) h \<longleftrightarrow> G h q \<and> (\<forall>a. wp G Q (f (dec a)) (h @ [(q, a)]))"
  by (simp add: call_def)

lemma steps_bindP_call:
  "steps (bindP (call q dec) f) tr (Ret r) \<Longrightarrow> \<exists>a ts. tr = (q, a) # ts \<and> steps (f (dec a)) ts (Ret r)"
  by (auto simp: call_def steps_Call)

lemma reqKind_simps [simp]:
  "reqKind (Get c kd n) = Some kd" "reqKind (ListObjs c kd sel) = Some kd"
  "reqKind (Create c x) = Some (kindOf x)" "reqKind (Update c x) = Some (kindOf x)"
  "reqKind (StatusUpdate c x) = Some (kindOf x)" "reqKind (Delete c kd n) = Some kd"
  by (simp_all add: reqKind_def)

lemma finalizer_lawsD:
  assumes "finalizer_laws L"
  shows "LibContainsFinalizer L m f = (f \<in> set (om_Finalizers m))"
    and "set (om_Finalizers (LibAddFinalizer L m f)) = insert f (set (om_Finalizers m))"
    and "set (om_Finalizers (LibRemoveFinalizer L m f)) = set (om_Finalizers m) - {f}"
    and "metaKey (LibAddFinalizer L m f) = metaKey m"
    and "metaKey (LibRemoveFinalizer L m f) = metaKey m"
    and "om_DeletionTimestamp (LibAddFinalizer L m f) = om_DeletionTimestamp m"
    and "om_DeletionTimestamp (LibRemoveFinalizer L m f) = om_DeletionTimestamp m"
proof -
  obtain fs where a: "LibAddFinalizer L m f = m\<lparr>om_Finalizers := fs\<rparr>"
    "set fs = insert f (set (om_Finalizers m))"
    using assms unfolding finalizer_laws_def by blast
  obtain gs where r: "LibRemoveFinalizer L m f = m\<lparr>om_Finalizers := gs\<rparr>"
    "set gs = set (om_Finalizers m) - {f}"
    using assms unfolding finalizer_laws_def by blast
  show "LibContainsFinalizer L m f = (f \<in> set (om_Finalizers m))"
    using assms unfolding finalizer_laws_def by blast
  show "set (om_Finalizers (LibAddFinalizer L m f)) = insert f (set (om_Finalizers m))"
    "metaKey (LibAddFinalizer L m f) = metaKey m"
    "om_DeletionTimestamp (LibAddFinalizer L m f) = om_DeletionTimestamp m"
    using a by (simp_all add: metaKey_def)
  show "set (om_Finalizers (LibRemoveFinalizer L m f)) = set (om_Finalizers m) - {f}"
    "metaKey (LibRemoveFinalizer L m f) = metaKey m"
    "om_DeletionTimestamp (LibRemoveFinalizer L m f) = om_DeletionTimestamp m"
    using r by (simp_all add: metaKey_def)
qed

lemma finalizer_laws_fields:
  assumes "finalizer_laws L"
  shows
    "om_Annotations (LibAddFinalizer L m f) = om_Annotations m"
    "om_ResourceVersion (LibAddFinalizer L m f) = om_ResourceVersion m"
    "om_Namespace (LibAddFinalizer L m f) = om_Namespace m"
    "om_Name (LibAddFinalizer L m f) = om_Name m"
    "om_Generation (LibAddFinalizer L m f) = om_Generation m"
    "om_Labels (LibAddFinalizer L m f) = om_Labels m"
    "om_Annotations (LibRemoveFinalizer L m f) = om_Annotations m"
    "om_ResourceVersion (LibRemoveFinalizer L m f) = om_ResourceVersion m"
    "om_Namespace (LibRemoveFinalizer L m f) = om_Namespace m"
    "om_Name (LibRemoveFinalizer L m f) = om_Name m"
    "om_Generation (LibRemoveFinalizer L m f) = om_Generation m"
    "om_Labels (LibRemoveFinalizer L m f) = om_Labels m"
    "om_UID (LibAddFinalizer L m f) = om_UID m"
    "om_UID (LibRemoveFinalizer L m f) = om_UID m"
    "om_CreationTimestamp (LibAddFinalizer L m f) = om_CreationTimestamp m"
    "om_CreationTimestamp (LibRemoveFinalizer L m f) = om_CreationTimestamp m"
proof -
  obtain fs where a: "LibAddFinalizer L m f = m\<lparr>om_Finalizers := fs\<rparr>"
    using assms unfolding finalizer_laws_def by blast
  obtain gs where r: "LibRemoveFinalizer L m f = m\<lparr>om_Finalizers := gs\<rparr>"
    using assms unfolding finalizer_laws_def by blast
  show
    "om_Annotations (LibAddFinalizer L m f) = om_Annotations m"
    "om_ResourceVersion (LibAddFinalizer L m f) = om_ResourceVersion m"
    "om_Namespace (LibAddFinalizer L m f) = om_Namespace m"
    "om_Name (LibAddFinalizer L m f) = om_Name m"
    "om_Generation (LibAddFinalizer L m f) = om_Generation m"
    "om_Labels (LibAddFinalizer L m f) = om_Labels m"
    "om_Annotations (LibRemoveFinalizer L m f) = om_Annotations m"
    "om_ResourceVersion (LibRemoveFinalizer L m f) = om_ResourceVersion m"
    "om_Namespace (LibRemoveFinalizer L m f) = om_Namespace m"
    "om_Name (LibRemoveFinalizer L m f) = om_Name m"
    "om_Generation (LibRemoveFinalizer L m f) = om_Generation m"
    "om_Labels (LibRemoveFinalizer L m f) = om_Labels m"
    "om_UID (LibAddFinalizer L m f) = om_UID m"
    "om_UID (LibRemoveFinalizer L m f) = om_UID m"
    "om_CreationTimestamp (LibAddFinalizer L m f) = om_CreationTimestamp m"
    "om_CreationTimestamp (LibRemoveFinalizer L m f) = om_CreationTimestamp m"
    using a r by simp_all
qed

lemma condition_lawsD:
  assumes "condition_laws L"
  shows "LibFindStatusCondition L cs t = find (\<lambda>c. c_Type c = t) cs"
    and "\<exists>u. LibFindStatusCondition L (LibSetStatusCondition L cs c) (c_Type c) =
      Some (c\<lparr>c_LastTransitionTime := u\<rparr>)"
    and "t \<noteq> c_Type c \<Longrightarrow>
      LibFindStatusCondition L (LibSetStatusCondition L cs c) t = LibFindStatusCondition L cs t"
  using assms unfolding condition_laws_def by blast+

text \<open>What a retried function keeps, the loop keeps.\<close>

lemma wp_retryLoop:
  assumes "I h x"
    and step: "\<And>h x. I h x \<Longrightarrow> wp G (\<lambda>h' r. I h' (snd r) \<and> Q h' r) (f x) h"
  shows "wp G (\<lambda>h' r. I h' (snd r) \<and> Q h' r) (retryLoop n retr f x) h"
  using assms(1)
proof (induction n arbitrary: h x)
  case 0
  then show ?case using step by simp
next
  case (Suc n)
  show ?case
    unfolding retryLoop.simps wp_bindP
    by (rule wp_conseq [OF step [OF Suc.prems]]) (auto split: option.splits intro: Suc.IH)
qed

lemma wp_OnError:
  assumes "retry_laws L" and "0 < bo_Steps b" and "I h x"
    and "\<And>h x. I h x \<Longrightarrow> wp G (\<lambda>h' r. I h' (snd r) \<and> Q h' r) (f x) h"
  shows "wp G (\<lambda>h' r. I h' (snd r) \<and> Q h' r) (LibOnError L b retr f x) h"
proof -
  obtain n where "LibOnError L b retr f x = retryLoop n retr f x"
    using assms(1,2) unfolding retry_laws_def by metis
  with wp_retryLoop [of I h x G Q f n retr] assms(3,4) show ?thesis by simp
qed

text \<open>The laws hold of the concrete library.\<close>

lemma find_map_same:
  "(\<And>d. P (f d) = P d) \<Longrightarrow> find P (map f xs) = map_option f (find P xs)"
  by (induction xs) auto

lemma find_map_cong:
  "(\<And>d. P (f d) = P d) \<Longrightarrow> (\<And>d. P d \<Longrightarrow> f d = d) \<Longrightarrow> find P (map f xs) = find P xs"
  by (induction xs) auto

lemma find_append_single: "find P (xs @ [x]) = (case find P xs of None \<Rightarrow> if P x then Some x else None | Some y \<Rightarrow> Some y)"
  by (induction xs) auto

lemma find_SomeD: "find P xs = Some y \<Longrightarrow> P y"
  by (induction xs) (auto split: if_splits)

lemma refLib_finalizer_laws: "finalizer_laws refLib"
  by (auto simp: finalizer_laws_def refLib_def)

lemma refLib_condition_laws: "condition_laws refLib"
proof -
  have same: "\<exists>t. find (\<lambda>d. c_Type d = c_Type c) (refSetStatusCondition cs c) = Some (c\<lparr>c_LastTransitionTime := t\<rparr>)"
    for cs c
  proof (cases "find (\<lambda>d. c_Type d = c_Type c) cs")
    case None
    then have "find (\<lambda>d. c_Type d = c_Type c) (refSetStatusCondition cs c) = Some (c\<lparr>c_LastTransitionTime := c_LastTransitionTime c\<rparr>)"
      by (simp add: refSetStatusCondition_def find_append_single)
    then show ?thesis by blast
  next
    case (Some d)
    from find_SomeD [OF Some] have "c_Type d = c_Type c" .
    with Some have "find (\<lambda>d. c_Type d = c_Type c) (refSetStatusCondition cs c) =
        Some (c\<lparr>c_LastTransitionTime := if c_Status d = c_Status c then c_LastTransitionTime d
                else c_LastTransitionTime c\<rparr>)"
      by (simp add: refSetStatusCondition_def find_map_same)
    then show ?thesis by blast
  qed
  have other: "find (\<lambda>d. c_Type d = t) (refSetStatusCondition cs c) = find (\<lambda>d. c_Type d = t) cs"
    if "t \<noteq> c_Type c" for cs c t
    using that by (auto simp: refSetStatusCondition_def find_append_single find_map_cong split: option.splits)
  show ?thesis using same other by (simp add: condition_laws_def refLib_def)
qed

lemma refLib_retry_laws: "retry_laws refLib"
proof -
  have "\<exists>n < bo_Steps b. retryLoop (bo_Steps b - 1) retr f = retryLoop n retr f"
    if "0 < bo_Steps b" for b and retr :: "err \<Rightarrow> bool" and f
    using that by (intro exI [of _ "bo_Steps b - 1"]) simp
  then show ?thesis by (auto simp: retry_laws_def refLib_def)
qed

lemma refLib_backoff_laws: "backoff_laws refLib"
proof -
  have "bo_Steps b \<le> bo_Steps b \<and> LibInterrupted refLib refWaitTimeout \<and>
      LibExponentialBackoff refLib b cond s = backoffLoop (bo_Steps b) refWaitTimeout cond s" for b cond s
    by (simp add: refLib_def)
  then show ?thesis unfolding backoff_laws_def by blast
qed

lemma refLib_range_laws: "range_laws refLib"
  by (simp add: range_laws_def refLib_def)

lemma refLib_createOrUpdate_laws: "createOrUpdate_laws refLib"
  by (simp add: createOrUpdate_laws_def refLib_def)

lemma refLib_alreadyExists_laws: "alreadyExists_laws refLib"
  by (simp add: alreadyExists_laws_def refLib_def)

lemma refLib_owner_laws: "owner_laws refLib"
  unfolding owner_laws_def refLib_def
  by (auto simp: metaKey_def list_ex_iff find_Some_iff)

lemma refLib_sort_laws: "sort_laws refLib"
  by (simp add: sort_laws_def refLib_def)

lemma refLib_agent_laws: "agent_laws refLib"
proof -
  have "i < length bs \<and> as_Type (bs ! i) = ty \<and> (bs = as \<or> (\<exists>b. bs = as @ [b]) \<and> (\<forall>a \<in> set as. as_Type a \<noteq> ty))"
    if "LibGetAgentStatus refLib ty as = (bs, i)" for ty as bs i
    using that unfolding refLib_def
    by (auto simp: find_Some_iff find_None_iff in_set_conv_nth split: option.splits)
  then show ?thesis unfolding agent_laws_def by blast
qed

lemma refLib_errgroup_laws: "errgroup_laws refLib"
proof -
  let ?pick = "\<lambda>rs :: err option list. case find (\<lambda>r. r \<noteq> None) rs of None \<Rightarrow> None | Some r \<Rightarrow> r"
  have n: "(?pick rs = None) = list_all (\<lambda>r. r = None) rs" for rs
    by (induction rs) auto
  have e: "?pick rs = Some e \<Longrightarrow> Some e \<in> set rs" for rs e
    by (induction rs) (auto split: if_splits)
  show ?thesis
    unfolding errgroup_laws_def refLib_def using n e by (auto intro!: exI [of _ ?pick])
qed

end
