(* ===== verification/Conditions.thy ===== *)
theory Conditions
  imports Client
begin

text \<open>
  The package \<open>pkg/common/condition\<close>: comparing status conditions and the two conflict conditions of
  a service export, with the contract that the controllers rely on when they decide whether a
  status has to be written. The contract is the locale \<open>status_sync\<close>; it is interpreted on the
  three comparison functions of the package.
\<close>

definition conditionReasonNoConflictFound :: string where
  "conditionReasonNoConflictFound = ''NoConflictFound''"

definition conditionReasonConflictFound :: string where
  "conditionReasonConflictFound = ''ConflictFound''"

text \<open>The condition types of a service export (\<open>api/v1beta1/serviceexport_types.go\<close>).\<close>

definition ServiceExportValid :: string where
  "ServiceExportValid = ''Valid''"

definition ServiceExportConflict :: string where
  "ServiceExportConflict = ''Conflict''"

definition EqualCondition :: "Condition option \<Rightarrow> Condition option \<Rightarrow> bool" where
  "EqualCondition current desired =
     (case (current, desired) of
        (None, None) \<Rightarrow> True
      | (Some c, Some d) \<Rightarrow> c_Type c = c_Type d \<and> c_Status c = c_Status d \<and> c_Reason c = c_Reason d \<and>
          c_ObservedGeneration c \<ge> c_ObservedGeneration d
      | _ \<Rightarrow> False)"

definition EqualConditionIgnoreReason :: "Condition option \<Rightarrow> Condition option \<Rightarrow> bool" where
  "EqualConditionIgnoreReason current desired =
     (case (current, desired) of
        (None, None) \<Rightarrow> True
      | (Some c, Some d) \<Rightarrow> c_Type c = c_Type d \<and> c_Status c = c_Status d \<and>
          c_ObservedGeneration c \<ge> c_ObservedGeneration d
      | _ \<Rightarrow> False)"

definition EqualConditionWithMessage :: "Condition option \<Rightarrow> Condition option \<Rightarrow> bool" where
  "EqualConditionWithMessage current desired =
     (case (current, desired) of
        (None, None) \<Rightarrow> True
      | (Some c, Some d) \<Rightarrow> c_Type c = c_Type d \<and> c_Status c = c_Status d \<and> c_Reason c = c_Reason d \<and>
          c_Message c = c_Message d \<and> c_ObservedGeneration c \<ge> c_ObservedGeneration d
      | _ \<Rightarrow> False)"

definition UnconflictedServiceExportConflictCondition :: "InternalServiceExport \<Rightarrow> Condition" where
  "UnconflictedServiceExportConflictCondition e =
     (let ref = ises_ServiceReference (ise_Spec e);
          svcName = nnString (eor_Namespace ref) (eor_Name ref)
      in \<lparr>c_Type = ServiceExportConflict, c_Status = ConditionFalse,
          c_ObservedGeneration = om_Generation (ise_ObjectMeta e), c_LastTransitionTime = None,
          c_Reason = conditionReasonNoConflictFound,
          c_Message = ''service '' @ svcName @ '' is exported without conflict''\<rparr>)"

definition ConflictedServiceExportConflictCondition :: "InternalServiceExport \<Rightarrow> Condition" where
  "ConflictedServiceExportConflictCondition e =
     (let ref = ises_ServiceReference (ise_Spec e);
          svcName = nnString (eor_Namespace ref) (eor_Name ref)
      in \<lparr>c_Type = ServiceExportConflict, c_Status = ConditionTrue,
          c_ObservedGeneration = om_Generation (ise_ObjectMeta e), c_LastTransitionTime = None,
          c_Reason = conditionReasonConflictFound,
          c_Message = ''service '' @ svcName @ '' is in conflict with other exported services''\<rparr>)"

text \<open>
  The pattern of every status writer: look the current condition up, stop if it compares equal to
  the desired one, otherwise set it (and write the status).
\<close>

definition syncCondition :: "Lib \<Rightarrow> (Condition option \<Rightarrow> Condition option \<Rightarrow> bool) \<Rightarrow>
    Condition list \<Rightarrow> Condition \<Rightarrow> Condition list" where
  "syncCondition L eq cs desired =
     (if eq (LibFindStatusCondition L cs (c_Type desired)) (Some desired) then cs
      else LibSetStatusCondition L cs desired)"

section \<open>The contract of a comparison\<close>

text \<open>
  What a status writer needs of the comparison: the stored copy of a condition (its transition time
  is the library's) equals the condition, and an equality is kept when the current condition only
  becomes newer, type and status included.
\<close>

locale status_sync =
  fixes eq :: "Condition option \<Rightarrow> Condition option \<Rightarrow> bool"
  assumes eq_stored: "eq (Some (c\<lparr>c_LastTransitionTime := t\<rparr>)) (Some c)"
    and eq_trans: "eq x y \<Longrightarrow> eq y z \<Longrightarrow> eq x z"
    and eq_status: "eq (Some c) (Some d) \<Longrightarrow> c_Type c = c_Type d \<and> c_Status c = c_Status d"
    and eq_missing: "\<not> eq None (Some d)"
begin

lemma sync_establishes:
  assumes "condition_laws L"
  shows "eq (LibFindStatusCondition L (syncCondition L eq cs d) (c_Type d)) (Some d)"
proof (cases "eq (LibFindStatusCondition L cs (c_Type d)) (Some d)")
  case False
  obtain u where "LibFindStatusCondition L (LibSetStatusCondition L cs d) (c_Type d) =
      Some (d\<lparr>c_LastTransitionTime := u\<rparr>)"
    using condition_lawsD(2) [OF assms] by blast
  with False show ?thesis by (simp add: syncCondition_def eq_stored)
qed (simp add: syncCondition_def)

lemma sync_idem:
  assumes "condition_laws L"
  shows "syncCondition L eq (syncCondition L eq cs d) d = syncCondition L eq cs d"
  using sync_establishes [OF assms, of cs d] by (simp add: syncCondition_def [of L eq "syncCondition L eq cs d"])

lemma sync_status:
  assumes "condition_laws L"
  shows "\<exists>c. LibFindStatusCondition L (syncCondition L eq cs d) (c_Type d) = Some c \<and> c_Status c = c_Status d"
  using sync_establishes [OF assms, of cs d] eq_missing
  by (cases "LibFindStatusCondition L (syncCondition L eq cs d) (c_Type d)") (auto dest: eq_status)

lemma sync_other:
  assumes "condition_laws L" and "t \<noteq> c_Type d"
  shows "LibFindStatusCondition L (syncCondition L eq cs d) t = LibFindStatusCondition L cs t"
  using condition_lawsD(3) [OF assms] by (simp add: syncCondition_def)

end

interpretation eqc: status_sync EqualCondition
  by unfold_locales (auto simp: EqualCondition_def split: option.splits)

interpretation eqm: status_sync EqualConditionWithMessage
  by unfold_locales (auto simp: EqualConditionWithMessage_def split: option.splits)

interpretation eqr: status_sync EqualConditionIgnoreReason
  by unfold_locales (auto simp: EqualConditionIgnoreReason_def split: option.splits)

section \<open>Lemmas on the conditions of the package\<close>

text \<open>The three comparisons form a chain, from the finest to the coarsest.\<close>

lemma EqualCondition_chain:
  "EqualConditionWithMessage c d \<Longrightarrow> EqualCondition c d"
  "EqualCondition c d \<Longrightarrow> EqualConditionIgnoreReason c d"
  by (auto simp: EqualCondition_def EqualConditionIgnoreReason_def EqualConditionWithMessage_def
      split: option.splits)

lemma conflict_conditions_exclusive:
  "\<not> EqualConditionIgnoreReason (Some (ConflictedServiceExportConflictCondition e))
       (Some (UnconflictedServiceExportConflictCondition e'))"
  "\<not> EqualConditionIgnoreReason (Some (UnconflictedServiceExportConflictCondition e))
       (Some (ConflictedServiceExportConflictCondition e'))"
  by (simp_all add: EqualConditionIgnoreReason_def ConflictedServiceExportConflictCondition_def
      UnconflictedServiceExportConflictCondition_def Let_def)

lemma conflict_condition_type [simp]:
  "c_Type (ConflictedServiceExportConflictCondition e) = ServiceExportConflict"
  "c_Type (UnconflictedServiceExportConflictCondition e) = ServiceExportConflict"
  "c_Status (ConflictedServiceExportConflictCondition e) = ConditionTrue"
  "c_Status (UnconflictedServiceExportConflictCondition e) = ConditionFalse"
  by (simp_all add: ConflictedServiceExportConflictCondition_def
      UnconflictedServiceExportConflictCondition_def Let_def)

end
