(* ===== verification/ObjectNames.thy ===== *)
theory ObjectNames
  imports Client
begin

text \<open>
  The packages \<open>pkg/common/objectmeta\<close> (finalizers, labels, annotations and the weight of a service
  export) and \<open>pkg/common/uniquename\<close> (the names under which objects are exported). The validators
  of \<open>apimachinery\<close> are library parameters; the UUID and the random numbers are requests.
\<close>

section \<open>Finalizers, labels and annotations\<close>

definition fleetNetworkingPrefix :: string where
  "fleetNetworkingPrefix = ''networking.fleet.azure.com/''"

definition InternalServiceExportFinalizer :: string where
  "InternalServiceExportFinalizer = fleetNetworkingPrefix @ ''internal-svc-export-cleanup''"

definition TrafficManagerProfileFinalizer :: string where
  "TrafficManagerProfileFinalizer = fleetNetworkingPrefix @ ''traffic-manager-profile-cleanup''"

definition TrafficManagerBackendFinalizer :: string where
  "TrafficManagerBackendFinalizer = fleetNetworkingPrefix @ ''traffic-manager-backend-cleanup''"

definition MetricsFinalizer :: string where
  "MetricsFinalizer = fleetNetworkingPrefix @ ''metrics-cleanup''"

definition MultiClusterServiceLabelDerivedService :: string where
  "MultiClusterServiceLabelDerivedService = fleetNetworkingPrefix @ ''derived-service''"

definition ServiceImportAnnotationServiceInUseBy :: string where
  "ServiceImportAnnotationServiceInUseBy = fleetNetworkingPrefix @ ''service-in-use-by''"

definition ExportedObjectAnnotationUniqueName :: string where
  "ExportedObjectAnnotationUniqueName = fleetNetworkingPrefix @ ''fleet-unique-name''"

definition ServiceExportAnnotationWeight :: string where
  "ServiceExportAnnotationWeight = fleetNetworkingPrefix @ ''weight''"

definition ServiceAnnotationAzureLoadBalancerInternal :: string where
  "ServiceAnnotationAzureLoadBalancerInternal = ''service.beta.kubernetes.io/azure-load-balancer-internal''"

definition ServiceAnnotationLoadBalancerResourceGroup :: string where
  "ServiceAnnotationLoadBalancerResourceGroup = ''service.beta.kubernetes.io/azure-load-balancer-resource-group''"

definition ServiceAnnotationAzureDNSLabelName :: string where
  "ServiceAnnotationAzureDNSLabelName = ''service.beta.kubernetes.io/azure-dns-label-name''"

text \<open>\<open>strings.ReplaceAll\<close> of a one-character string.\<close>

definition replaceChar :: "char \<Rightarrow> string \<Rightarrow> string \<Rightarrow> string" where
  "replaceChar c r s = concat (map (\<lambda>d. if d = c then r else [d]) s)"

definition AzureTrafficManagerProfileTagKey :: string where
  "AzureTrafficManagerProfileTagKey = replaceChar (CHR ''/'') ''.'' fleetNetworkingPrefix @ ''trafficManagerProfile''"

text \<open>The error carries the message of \<open>fmt.Errorf\<close>; the value returned beside it is -1.\<close>

definition ExtractWeightFromServiceExport :: "ServiceExport \<Rightarrow> int \<times> err option" where
  "ExtractWeightFromServiceExport svcExport =
     (case mget (om_Annotations (se_ObjectMeta svcExport)) ServiceExportAnnotationWeight of
        None \<Rightarrow> (1, None)
      | Some weightAnno \<Rightarrow>
          (case Atoi weightAnno of
             None \<Rightarrow> (-1, Some (PlainErr (''the weight annotation is not a valid integer: '' @ weightAnno)))
           | Some weight \<Rightarrow>
               if weight < 0 \<or> weight > 1000
               then (-1, Some (PlainErr (''the weight annotation is not in the range [0, 1000]: '' @ weightAnno)))
               else (weight, None)))"

section \<open>Unique names\<close>

datatype Format = DNS1123Subdomain | DNS1123Label | DNS1035Label | OtherFormat int

definition uuidLength :: nat where
  "uuidLength = 5"

definition DNS1123SubdomainMaxLength :: nat where "DNS1123SubdomainMaxLength = 253"
definition DNS1123LabelMaxLength :: nat where "DNS1123LabelMaxLength = 63"
definition DNS1035LabelMaxLength :: nat where "DNS1035LabelMaxLength = 63"

definition minInt :: "nat \<Rightarrow> nat \<Rightarrow> nat" where
  "minInt a b = (if a < b then a else b)"

text \<open>\<open>s[0]\<close> panics on the empty string, so the test is a program.\<close>

definition startsWithNumericCharacter :: "string \<Rightarrow> bool op" where
  "startsWithNumericCharacter s =
     (case s of [] \<Rightarrow> Panic ''index out of range'' | c # _ \<Rightarrow> Ret (is_digit c))"

definition removeDots :: "string \<Rightarrow> string" where
  "removeDots s = replaceChar (CHR ''.'') [] s"

text \<open>\<open>uuid.NewUUID()[:uuidLength]\<close>.\<close>

definition uuidSuffix :: "string op" where
  "uuidSuffix = bindP (call NewUUID decStr) (\<lambda>u.
     if length u < uuidLength then Panic ''slice bounds out of range'' else Ret (take uuidLength u))"

text \<open>\<open>%v\<close> of a list of strings.\<close>

definition showList :: "string list \<Rightarrow> string" where
  "showList ss = ''['' @ (case ss of [] \<Rightarrow> [] | s # rest \<Rightarrow> s @ concat (map (\<lambda>t. '' '' @ t) rest)) @ '']''"

definition dash :: string where
  "dash = ''-''"

definition ClusterScopedUniqueName :: "Lib \<Rightarrow> Format \<Rightarrow> string \<Rightarrow> string \<Rightarrow> (err + string) op" where
  "ClusterScopedUniqueName L format namespace name =
     (let reservedSlots = 2 + uuidLength in
      case format of
        DNS1123Subdomain \<Rightarrow>
          (let slotsPerSeg = (DNS1123SubdomainMaxLength - reservedSlots) div 2 in
           bindP uuidSuffix (\<lambda>u.
             let uniqueName = take (minInt slotsPerSeg (length namespace)) namespace @ dash @
                   take (minInt slotsPerSeg (length name)) name @ dash @ u;
                 errs = LibIsDNS1123Subdomain L uniqueName
             in if errs \<noteq> [] then Ret (Inl (PlainErr
                  (''failed to format a unique RFC 1123 DNS subdomain name with namespace '' @ namespace
                   @ '', name '' @ name @ '': '' @ showList errs)))
                else Ret (Inr uniqueName)))
      | DNS1123Label \<Rightarrow>
          (let slotsPerSeg = (DNS1123LabelMaxLength - reservedSlots) div 2; name = removeDots name in
           bindP uuidSuffix (\<lambda>u.
             let uniqueName = take (minInt slotsPerSeg (length namespace)) namespace @ dash @
                   take (minInt slotsPerSeg (length name)) name @ dash @ u;
                 errs = LibIsDNS1123Label L uniqueName
             in if errs \<noteq> [] then Ret (Inl (PlainErr
                  (''failed to format a unique RFC 1123 DNS label name with namespace '' @ namespace
                   @ '', name '' @ name @ '': '' @ showList errs)))
                else Ret (Inr uniqueName)))
      | DNS1035Label \<Rightarrow>
          (let slotsPerSeg = (DNS1035LabelMaxLength - reservedSlots) div 2 in
           bindP (startsWithNumericCharacter namespace) (\<lambda>num.
             let namespace = (if num then ''ns'' @ namespace else namespace); name = removeDots name in
             bindP uuidSuffix (\<lambda>u.
             let uniqueName = take (minInt slotsPerSeg (length namespace)) namespace @ dash @
                   take (minInt slotsPerSeg (length name)) name @ dash @ u;
                 errs = LibIsDNS1035Label L uniqueName
             in if errs \<noteq> [] then Ret (Inl (PlainErr
                  (''failed to format a unique RFC 1035 DNS label name with namespace '' @ namespace
                   @ '', name '' @ name @ '': '' @ showList errs)))
                else Ret (Inr uniqueName))))
      | OtherFormat n \<Rightarrow> Ret (Inl (PlainErr (''not a valid name format: '' @ FormatInt n))))"

definition FleetScopedUniqueName :: "Lib \<Rightarrow> Format \<Rightarrow> string \<Rightarrow> string \<Rightarrow> string \<Rightarrow> (err + string) op" where
  "FleetScopedUniqueName L format clusterID namespace name =
     (let reservedSlots = 3 + uuidLength in
      case format of
        DNS1123Subdomain \<Rightarrow>
          (let slotsPerSeg = (DNS1123SubdomainMaxLength - reservedSlots) div 3 in
           bindP uuidSuffix (\<lambda>u.
             let uniqueName = take (minInt slotsPerSeg (length clusterID)) clusterID @ dash @
                   take (minInt slotsPerSeg (length namespace)) namespace @ dash @
                   take (minInt slotsPerSeg (length name)) name @ dash @ u;
                 errs = LibIsDNS1123Subdomain L uniqueName
             in if errs \<noteq> [] then Ret (Inl (PlainErr
                  (''failed to format a unique RFC 1123 DNS subdomain name with cluster ID '' @ clusterID
                   @ '', namespace '' @ namespace @ '', name '' @ name @ '': '' @ showList errs)))
                else Ret (Inr uniqueName)))
      | DNS1123Label \<Rightarrow>
          (let slotsPerSeg = (DNS1123LabelMaxLength - reservedSlots) div 3;
               clusterID = removeDots clusterID; name = removeDots name in
           bindP uuidSuffix (\<lambda>u.
             let uniqueName = take (minInt slotsPerSeg (length clusterID)) clusterID @ dash @
                   take (minInt slotsPerSeg (length namespace)) namespace @ dash @
                   take (minInt slotsPerSeg (length name)) name @ dash @ u;
                 errs = LibIsDNS1123Label L uniqueName
             in if errs \<noteq> [] then Ret (Inl (PlainErr
                  (''failed to format a unique RFC 1123 DNS label name with cluster ID '' @ clusterID
                   @ '', namespace '' @ namespace @ '', name '' @ name @ '': '' @ showList errs)))
                else Ret (Inr uniqueName)))
      | DNS1035Label \<Rightarrow>
          (let slotsPerSeg = (DNS1035LabelMaxLength - reservedSlots) div 3;
               clusterID = removeDots clusterID; name = removeDots name in
           bindP uuidSuffix (\<lambda>u.
             let uniqueName = take (minInt slotsPerSeg (length clusterID)) clusterID @ dash @
                   take (minInt slotsPerSeg (length namespace)) namespace @ dash @
                   take (minInt slotsPerSeg (length name)) name @ dash @ u;
                 errs = LibIsDNS1035Label L uniqueName
             in if errs \<noteq> [] then Ret (Inl (PlainErr
                  (''failed to format a unique RFC 1035 DNS label name with cluster ID '' @ clusterID
                   @ '', namespace '' @ namespace @ '', name '' @ name @ '': '' @ showList errs)))
                else Ret (Inr uniqueName)))
      | OtherFormat n \<Rightarrow> Ret (Inl (PlainErr (''not a valid name format: '' @ FormatInt n))))"

definition alphabet :: string where
  "alphabet = ''abcdefghijklmnopqrstuvwxyz''"

text \<open>The loop fills the buffer from the first position to the last.\<close>

primrec randomLetters :: "nat \<Rightarrow> string op" where
  "randomLetters 0 = Ret []"
| "randomLetters (Suc n) =
     bindP (call (RandIntn (int (length alphabet))) decInt) (\<lambda>i.
       if i < 0 \<or> i \<ge> int (length alphabet) then Panic ''index out of range''
       else bindP (randomLetters n) (\<lambda>s. Ret (alphabet ! nat i # s)))"

definition RandomLowerCaseAlphabeticString :: "int \<Rightarrow> string op" where
  "RandomLowerCaseAlphabeticString n =
     (if n < 0 then Panic ''makeslice: len out of range'' else randomLetters (nat n))"

section \<open>The shape of a name\<close>

text \<open>
  The shape of every unique name: each normalised segment cut to the slots of a segment, each
  followed by a dash, and the suffix.
\<close>

definition joinName :: "nat \<Rightarrow> string list \<Rightarrow> string \<Rightarrow> string" where
  "joinName k segs u = concat (map (\<lambda>s. take k s @ dash) segs) @ u"

definition clusterSegments :: "Format \<Rightarrow> string \<Rightarrow> string \<Rightarrow> string list" where
  "clusterSegments fmt ns nm =
     (case fmt of
        DNS1123Label \<Rightarrow> [ns, removeDots nm]
      | DNS1035Label \<Rightarrow> [if ns \<noteq> [] \<and> is_digit (hd ns) then ''ns'' @ ns else ns, removeDots nm]
      | _ \<Rightarrow> [ns, nm])"

definition fleetSegments :: "Format \<Rightarrow> string \<Rightarrow> string \<Rightarrow> string \<Rightarrow> string list" where
  "fleetSegments fmt c ns nm =
     (case fmt of
        DNS1123Subdomain \<Rightarrow> [c, ns, nm]
      | _ \<Rightarrow> [removeDots c, ns, removeDots nm])"

definition maxLength :: "Format \<Rightarrow> nat" where
  "maxLength fmt = (case fmt of DNS1123Subdomain \<Rightarrow> DNS1123SubdomainMaxLength
     | DNS1123Label \<Rightarrow> DNS1123LabelMaxLength | DNS1035Label \<Rightarrow> DNS1035LabelMaxLength | OtherFormat n \<Rightarrow> 0)"

definition validatorOf :: "Lib \<Rightarrow> Format \<Rightarrow> string \<Rightarrow> string list" where
  "validatorOf L fmt s = (case fmt of DNS1123Subdomain \<Rightarrow> LibIsDNS1123Subdomain L s
     | DNS1123Label \<Rightarrow> LibIsDNS1123Label L s | DNS1035Label \<Rightarrow> LibIsDNS1035Label L s
     | OtherFormat n \<Rightarrow> [''not a valid name format''])"

text \<open>The slots of a segment when \<open>n\<close> segments share the name.\<close>

definition slotsOf :: "Format \<Rightarrow> nat \<Rightarrow> nat" where
  "slotsOf fmt n = (maxLength fmt - (n + uuidLength)) div n"

section \<open>Lemmas\<close>

text \<open>A weight that is extracted without error is the integer of the annotation, in range.\<close>

lemma ExtractWeight_range:
  "ExtractWeightFromServiceExport e = (w, None) \<Longrightarrow> 0 \<le> w \<and> w \<le> 1000"
  by (auto simp: ExtractWeightFromServiceExport_def split: option.splits if_splits)

lemma ExtractWeight_error:
  "ExtractWeightFromServiceExport e = (w, Some er) \<Longrightarrow> w = -1"
  by (auto simp: ExtractWeightFromServiceExport_def split: option.splits if_splits)

lemma take_minInt: "take (minInt k (length s)) s = take k s"
  by (simp add: minInt_def)

lemma length_joinName: "length (joinName k segs u) \<le> length segs * (k + 1) + length u"
  by (induction segs) (auto simp: joinName_def dash_def)

lemma length_joinName_max:
  assumes "segs \<noteq> []" and "length u = uuidLength" and "length segs + uuidLength \<le> maxLength fmt"
  shows "length (joinName (slotsOf fmt (length segs)) segs u) \<le> maxLength fmt"
proof -
  let ?n = "length segs"
  have "?n * slotsOf fmt ?n \<le> maxLength fmt - (?n + uuidLength)"
    by (simp add: slotsOf_def)
  then have "?n * (slotsOf fmt ?n + 1) + uuidLength \<le> maxLength fmt"
    using assms(3) by (simp add: algebra_simps)
  with length_joinName [of "slotsOf fmt ?n" segs u] assms(2) show ?thesis by simp
qed

lemmas name_defs = uuidSuffix_def Let_def slotsOf_def maxLength_def validatorOf_def joinName_def take_minInt

text \<open>
  A generator makes one call, for a UUID; a name that it returns passes the validator and ends with the
  first characters of that UUID.
\<close>

lemma ClusterScoped_wp:
  assumes "\<And>h. G h NewUUID"
  shows "wp G (\<lambda>h' r. \<forall>s. r = Inr s \<longrightarrow> validatorOf L fmt s = [] \<and>
      (\<exists>a. h' = h @ [(NewUUID, a)] \<and> 5 \<le> length (decStr a) \<and> s = joinName (slotsOf fmt 2) (clusterSegments fmt ns nm) (take 5 (decStr a))))
     (ClusterScopedUniqueName L fmt ns nm) h"
proof (cases fmt)
  case DNS1035Label
  with assms show ?thesis
    by (cases ns) (auto simp: ClusterScopedUniqueName_def clusterSegments_def name_defs prog_simps uuidLength_def
        startsWithNumericCharacter_def)
qed (use assms in \<open>auto simp: ClusterScopedUniqueName_def clusterSegments_def name_defs prog_simps uuidLength_def\<close>)

lemma FleetScoped_wp:
  assumes "\<And>h. G h NewUUID"
  shows "wp G (\<lambda>h' r. \<forall>s. r = Inr s \<longrightarrow> validatorOf L fmt s = [] \<and>
      (\<exists>a. h' = h @ [(NewUUID, a)] \<and> 5 \<le> length (decStr a) \<and> s = joinName (slotsOf fmt 3) (fleetSegments fmt c ns nm) (take 5 (decStr a))))
     (FleetScopedUniqueName L fmt c ns nm) h"
  by (cases fmt) (use assms in \<open>auto simp: FleetScopedUniqueName_def fleetSegments_def name_defs prog_simps uuidLength_def\<close>)

lemma randomLetters_wp:
  assumes "\<And>h k. G h (RandIntn k)"
  shows "wp G (\<lambda>_ s. length s = n \<and> set s \<subseteq> set alphabet) (randomLetters n) h"
proof (induction n arbitrary: h)
  case (Suc n)
  have "alphabet ! nat i \<in> set alphabet" if "\<not> (i < 0 \<or> i \<ge> int (length alphabet))" for i
    using that by (intro nth_mem) (simp add: nat_less_iff)
  then show ?case
    by (auto simp: prog_simps wp_bindP assms intro!: wp_conseq [OF Suc.IH])
qed simp

section \<open>Properties\<close>

text \<open>C39. Unique names fit: a generator that returns a name has made one call, for a UUID, and the name passes the
  validator of its format, is at most as long as the format allows (63 characters for a label, 253 for a
  subdomain), and is made of the normalised segments, each cut to an equal number of characters and followed
  by a dash, and the first five characters of that UUID.\<close>

theorem unique_names_fit:
  assumes "steps (ClusterScopedUniqueName L fmt ns nm) tr (Ret (Inr s)) \<and> segs = clusterSegments fmt ns nm \<or>
    steps (FleetScopedUniqueName L fmt c ns nm) tr (Ret (Inr s)) \<and> segs = fleetSegments fmt c ns nm"
  shows "validatorOf L fmt s = [] \<and> length s \<le> (if fmt = DNS1123Subdomain then 253 else 63) \<and>
    (\<exists>a. tr = [(NewUUID, a)] \<and> 5 \<le> length (decStr a) \<and> s = joinName (slotsOf fmt (length segs)) segs (take 5 (decStr a)))"
proof -
  have n: "length (clusterSegments fmt ns nm) = 2" "length (fleetSegments fmt c ns nm) = 3"
    by (auto simp: clusterSegments_def fleetSegments_def split: Format.splits)
  from assms have "\<forall>s'. Inr s = (Inr s' :: err + string) \<longrightarrow> validatorOf L fmt s' = [] \<and>
      (\<exists>a. [] @ tr = [] @ [(NewUUID, a)] \<and> 5 \<le> length (decStr a) \<and> s' = joinName (slotsOf fmt (length segs)) segs (take 5 (decStr a)))"
  proof
    assume "steps (ClusterScopedUniqueName L fmt ns nm) tr (Ret (Inr s)) \<and> segs = clusterSegments fmt ns nm"
    with wp_result [OF _ refl ClusterScoped_wp [where G = "\<lambda>_ _. True" and h = "[]"]] show ?thesis by (fastforce simp: n)
  next
    assume "steps (FleetScopedUniqueName L fmt c ns nm) tr (Ret (Inr s)) \<and> segs = fleetSegments fmt c ns nm"
    with wp_result [OF _ refl FleetScoped_wp [where G = "\<lambda>_ _. True" and h = "[]"]] show ?thesis by (fastforce simp: n)
  qed
  then obtain a where v: "validatorOf L fmt s = []" and a: "tr = [(NewUUID, a)]" "5 \<le> length (decStr a)"
    "s = joinName (slotsOf fmt (length segs)) segs (take 5 (decStr a))" by auto
  have l: "length segs \<in> {2, 3}" using assms n by auto
  have m: "maxLength fmt = (if fmt = DNS1123Subdomain then 253 else 63)" using v
    by (cases fmt) (auto simp: validatorOf_def maxLength_def DNS1123SubdomainMaxLength_def
        DNS1123LabelMaxLength_def DNS1035LabelMaxLength_def)
  have "segs \<noteq> []" "length segs + uuidLength \<le> maxLength fmt" "length (take 5 (decStr a)) = uuidLength"
    using l m a(2) by (auto simp: uuidLength_def)
  with length_joinName_max have "length s \<le> maxLength fmt" using a(3) by blast
  with v a m show ?thesis by simp
qed

theorem unique_names_fit_witness:
  "\<exists>tr. steps (ClusterScopedUniqueName refLib DNS1035Label ''1work'' ''a.pp'') tr (Ret (Inr ''ns1work-app-0a1b2'')) \<and>
     validatorOf refLib DNS1035Label ''ns1work-app-0a1b2'' = [] \<and>
     (\<exists>a. tr = [(NewUUID, a)] \<and> ''ns1work-app-0a1b2'' = joinName (slotsOf DNS1035Label 2) [''ns1work'', ''app''] (take 5 (decStr a)))"
proof -
  let ?p = "ClusterScopedUniqueName refLib DNS1035Label ''1work'' ''a.pp''"
  have "map_option snd (playRet [RStr ''0a1b2c3d''] ?p) = Some (Inr ''ns1work-app-0a1b2'')" by code_simp
  then obtain tr where "playRet [RStr ''0a1b2c3d''] ?p = Some (tr, Inr ''ns1work-app-0a1b2'')" by auto
  then have st: "steps ?p tr (Ret (Inr ''ns1work-app-0a1b2''))" by (rule playRet_steps)
  moreover have "[''ns1work'', ''app''] = clusterSegments DNS1035Label ''1work'' ''a.pp''" by code_simp
  ultimately have "steps ?p tr (Ret (Inr ''ns1work-app-0a1b2'')) \<and> [''ns1work'', ''app''] = clusterSegments DNS1035Label ''1work'' ''a.pp''" by blast
  from unique_names_fit [OF disjI1 [OF this]] st show ?thesis by (auto simp: eval_nat_numeral)
qed

end
