(* ===== verification/Hub_InternalServiceExport.thy ===== *)
theory Hub_InternalServiceExport
  imports Conditions ObjectNames
begin

text \<open>
  The InternalServiceExport controller of the hub cluster
  (\<open>pkg/controllers/hub/internalserviceexport/controller.go\<close>): it registers a cluster that exports a
  service in the status of the fleet-wide ServiceImport, reports whether the export is in conflict,
  and unregisters the cluster when the export is deleted.
\<close>

section \<open>The clusters of a service import\<close>

definition ISE_removeClusterFromServiceImportStatus :: "ServiceImport \<Rightarrow> string \<Rightarrow> ServiceImport" where
  "ISE_removeClusterFromServiceImportStatus s clusterID =
     (let updatedClusters = filter (\<lambda>c. cs_Cluster c \<noteq> clusterID) (sis_Clusters (si_Status s)) in
      if updatedClusters = [] then s\<lparr>si_Status := zeroSIStatus\<rparr>
      else s\<lparr>si_Status := (si_Status s)\<lparr>sis_Clusters := updatedClusters\<rparr>\<rparr>)"

definition ISE_addClusterToServiceImportStatus :: "ServiceImport \<Rightarrow> string \<Rightarrow> ServiceImport" where
  "ISE_addClusterToServiceImportStatus s clusterID =
     (if list_ex (\<lambda>c. cs_Cluster c = clusterID) (sis_Clusters (si_Status s)) then s
      else s\<lparr>si_Status := (si_Status s)\<lparr>sis_Clusters := sis_Clusters (si_Status s) @ [\<lparr>cs_Cluster = clusterID\<rparr>]\<rparr>\<rparr>)"

section \<open>The controller\<close>

definition ISE_updateServiceImportStatus :: "ServiceImport \<Rightarrow> ServiceImportStatus \<Rightarrow> (err option \<times> ServiceImport) op" where
  "ISE_updateServiceImportStatus s oldStatus =
     (if si_Status s = oldStatus then Ret (None, s) else doStatusUpdate Hub OSI decSI s)"

definition ISE_removeFinalizer :: "Lib \<Rightarrow> InternalServiceExport \<Rightarrow> outcome op" where
  "ISE_removeFinalizer L e =
     (let e' = e\<lparr>ise_ObjectMeta := LibRemoveFinalizer L (ise_ObjectMeta e) InternalServiceExportFinalizer\<rparr> in
      bindP (doUpdate Hub OISE decISE e') (\<lambda>(er, _).
        case er of Some x \<Rightarrow> Ret (emptyResult, Some x) | None \<Rightarrow> Ret (emptyResult, None)))"

definition ISE_updateInternalServiceExportStatus :: "Lib \<Rightarrow> InternalServiceExport \<Rightarrow> bool \<Rightarrow> err option op" where
  "ISE_updateInternalServiceExportStatus L e conflict =
     (let desiredCond = (if conflict then ConflictedServiceExportConflictCondition e
                         else UnconflictedServiceExportConflictCondition e);
          currentCond = LibFindStatusCondition L (ise_Conditions e) ServiceExportConflict
      in if EqualCondition currentCond (Some desiredCond) then Ret None
         else let e' = e\<lparr>ise_Conditions := LibSetStatusCondition L (ise_Conditions e) desiredCond\<rparr> in
              bindP (doStatusUpdate Hub OISE decISE e') (\<lambda>(er, _). Ret er))"

text \<open>The name of the service import of an export.\<close>

definition importKeyOf :: "InternalServiceExport \<Rightarrow> NamespacedName" where
  "importKeyOf e = (let ref = ises_ServiceReference (ise_Spec e) in
     \<lparr>nn_Namespace = eor_Namespace ref, nn_Name = eor_Name ref\<rparr>)"

definition clusterOf :: "InternalServiceExport \<Rightarrow> string" where
  "clusterOf e = eor_ClusterID (ises_ServiceReference (ise_Spec e))"

definition ISE_handleDelete :: "Lib \<Rightarrow> int \<Rightarrow> InternalServiceExport \<Rightarrow> outcome op" where
  "ISE_handleDelete L retryInternal e =
     (if \<not> LibContainsFinalizer L (ise_ObjectMeta e) InternalServiceExportFinalizer
      then Ret (emptyResult, None)
      else bindP (getSI Hub (importKeyOf e)) (\<lambda>r.
        case r of
          Inl er \<Rightarrow> if \<not> IsNotFound er then Ret (emptyResult, Some er) else ISE_removeFinalizer L e
        | Inr s \<Rightarrow>
            if sis_Ports (si_Status s) = [] then Ret (requeueAfter retryInternal, None)
            else let oldStatus = si_Status s;
                     s1 = ISE_removeClusterFromServiceImportStatus s (clusterOf e)
                 in bindP (ISE_updateServiceImportStatus s1 oldStatus) (\<lambda>(er, _).
                   case er of Some x \<Rightarrow> Ret (emptyResult, Some x)
                   | None \<Rightarrow> ISE_removeFinalizer L e)))"

text \<open>The second half of \<open>handleUpdate\<close>, with the service import read or created.\<close>

definition ISE_syncImport :: "Lib \<Rightarrow> int \<Rightarrow> InternalServiceExport \<Rightarrow> ServiceImport \<Rightarrow> outcome op" where
  "ISE_syncImport L retryInternal e s =
     (if sis_Ports (si_Status s) = [] then Ret (requeueAfter retryInternal, None)
      else
        let oldStatus = si_Status s; clusterID = clusterOf e in
        if sis_Ports (si_Status s) \<noteq> ises_Ports (ise_Spec e) then
          bindP (ISE_updateServiceImportStatus (ISE_removeClusterFromServiceImportStatus s clusterID) oldStatus)
            (\<lambda>(er, s2).
              case er of Some x \<Rightarrow> Ret (emptyResult, Some x)
              | None \<Rightarrow>
                  if sis_Ports (si_Status s2) = [] then Ret (requeueAfter retryInternal, None)
                  else bindP (ISE_updateInternalServiceExportStatus L e True) (\<lambda>er2. Ret (emptyResult, er2)))
        else
          bindP (ISE_updateServiceImportStatus (ISE_addClusterToServiceImportStatus s clusterID) oldStatus)
            (\<lambda>(er, _).
              case er of Some x \<Rightarrow> Ret (emptyResult, Some x)
              | None \<Rightarrow> bindP (ISE_updateInternalServiceExportStatus L e False) (\<lambda>er2. Ret (emptyResult, er2))))"

definition newServiceImport :: "NamespacedName \<Rightarrow> ServiceImport" where
  "newServiceImport n = \<lparr>si_TypeMeta = zeroType, si_ObjectMeta = metaOf (nn_Namespace n) (nn_Name n),
     si_Status = zeroSIStatus\<rparr>"

definition ISE_handleUpdate :: "Lib \<Rightarrow> int \<Rightarrow> InternalServiceExport \<Rightarrow> outcome op" where
  "ISE_handleUpdate L retryInternal e =
     bindP (getSI Hub (importKeyOf e)) (\<lambda>r.
       case r of
         Inl er \<Rightarrow>
           if \<not> IsNotFound er then Ret (emptyResult, Some er)
           else bindP (doCreate Hub OSI decSI (newServiceImport (importKeyOf e))) (\<lambda>(cer, s).
             case cer of Some x \<Rightarrow> Ret (emptyResult, Some x)
             | None \<Rightarrow> ISE_syncImport L retryInternal e s)
       | Inr s \<Rightarrow> ISE_syncImport L retryInternal e s)"

definition ISE_Reconcile :: "Lib \<Rightarrow> int \<Rightarrow> NamespacedName \<Rightarrow> outcome op" where
  "ISE_Reconcile L retryInternal name =
     bindP (getISE Hub name) (\<lambda>r.
       case r of
         Inl er \<Rightarrow> if IsNotFound er then Ret (emptyResult, None) else Ret (emptyResult, Some er)
       | Inr e \<Rightarrow>
           if om_DeletionTimestamp (ise_ObjectMeta e) \<noteq> None then ISE_handleDelete L retryInternal e
           else if \<not> LibContainsFinalizer L (ise_ObjectMeta e) InternalServiceExportFinalizer then
             let e1 = e\<lparr>ise_ObjectMeta := LibAddFinalizer L (ise_ObjectMeta e) InternalServiceExportFinalizer\<rparr> in
             bindP (doUpdate Hub OISE decISE e1) (\<lambda>(er, e2).
               case er of Some x \<Rightarrow> Ret (emptyResult, Some x)
               | None \<Rightarrow> ISE_handleUpdate L retryInternal e2)
           else ISE_handleUpdate L retryInternal e)"

section \<open>What is said of the controller\<close>

definition clustersOf :: "ServiceImport \<Rightarrow> string set" where
  "clustersOf s = cs_Cluster ` set (sis_Clusters (si_Status s))"

definition clusterList :: "ServiceImport \<Rightarrow> string list" where
  "clusterList s = map cs_Cluster (sis_Clusters (si_Status s))"

definition hasExportFinalizer :: "InternalServiceExport \<Rightarrow> bool" where
  "hasExportFinalizer e = (InternalServiceExportFinalizer \<in> set (om_Finalizers (ise_ObjectMeta e)))"

text \<open>The API server has reported, or accepted, the export with the finalizer.\<close>

definition finalizerRecorded :: "trace \<Rightarrow> bool" where
  "finalizerRecorded h \<longleftrightarrow> (\<exists>e. hasExportFinalizer e \<and>
     ((\<exists>n a. (Get Hub KInternalServiceExport n, a) \<in> set h \<and> decISE a = Inr e) \<or>
      (\<exists>a y. (Update Hub (OISE e), a) \<in> set h \<and> decISE a = Inr y)))"

definition importWrite :: "request \<Rightarrow> bool" where
  "importWrite q = (case q of Create c (OSI s) \<Rightarrow> True | StatusUpdate c (OSI s) \<Rightarrow> True
     | Update c (OSI s) \<Rightarrow> True | Delete c kd n \<Rightarrow> kd = KServiceImport | _ \<Rightarrow> False)"

text \<open>
  The service import of the export does not exist, or the API server has reported, or accepted, a
  status that does not list the cluster of the export.
\<close>

definition importReleased :: "trace \<Rightarrow> InternalServiceExport \<Rightarrow> bool" where
  "importReleased h e \<longleftrightarrow>
     (\<exists>a er. (Get Hub KServiceImport (importKeyOf e), a) \<in> set h \<and> decSI a = Inl er \<and> IsNotFound er) \<or>
     (\<exists>a s. (Get Hub KServiceImport (importKeyOf e), a) \<in> set h \<and> decSI a = Inr s \<and> clusterOf e \<notin> clustersOf s) \<or>
     (\<exists>a0 s0 a s s'. (Get Hub KServiceImport (importKeyOf e), a0) \<in> set h \<and> decSI a0 = Inr s0 \<and> (StatusUpdate Hub (OSI s), a) \<in> set h \<and>
        decSI a = Inr s' \<and> si_ObjectMeta s = si_ObjectMeta s0 \<and> clusterOf e \<notin> clustersOf s)"

text \<open>
  The export and the service import agree: the cluster is listed and the export is reported free of
  conflict if the ports are equal; otherwise the cluster is not listed, another one is, and the
  export is reported in conflict.
\<close>

definition settled :: "Lib \<Rightarrow> InternalServiceExport \<Rightarrow> ServiceImport \<Rightarrow> bool" where
  "settled L e s \<longleftrightarrow> hasExportFinalizer e \<and> sis_Ports (si_Status s) \<noteq> [] \<and>
     (let cur = LibFindStatusCondition L (ise_Conditions e) ServiceExportConflict in
      if sis_Ports (si_Status s) = ises_Ports (ise_Spec e)
      then clusterOf e \<in> clustersOf s \<and> EqualCondition cur (Some (UnconflictedServiceExportConflictCondition e))
      else clusterOf e \<notin> clustersOf s \<and> clustersOf s \<noteq> {} \<and>
           EqualCondition cur (Some (ConflictedServiceExportConflictCondition e)))"

text \<open>The last export and the last service import that the API server has shown in a run.\<close>

definition lastISE :: "trace \<Rightarrow> InternalServiceExport option" where
  "lastISE h = foldl (\<lambda>x (q, a). if reqKind q = Some KInternalServiceExport
     then (case decISE a of Inl er \<Rightarrow> x | Inr e \<Rightarrow> Some e) else x) None h"

definition lastSI :: "trace \<Rightarrow> ServiceImport option" where
  "lastSI h = foldl (\<lambda>x (q, a). if reqKind q = Some KServiceImport
     then (case decSI a of Inl er \<Rightarrow> x | Inr s \<Rightarrow> Some s) else x) None h"

text \<open>
  An API server that stores what it accepts: an accepted write is answered with the object that was
  sent, under a new resource version; for a status update the same holds of the status.
\<close>

definition echoesISE :: "trace \<Rightarrow> bool" where
  "echoesISE h \<longleftrightarrow> (\<forall>(q, a) \<in> set h.
     (\<forall>e e'. (q = Update Hub (OISE e) \<or> q = StatusUpdate Hub (OISE e)) \<and> decISE a = Inr e' \<longrightarrow>
        (\<exists>v. e' = e\<lparr>ise_ObjectMeta := (ise_ObjectMeta e)\<lparr>om_ResourceVersion := v\<rparr>\<rparr>)) \<and>
     (\<forall>s s'. q = StatusUpdate Hub (OSI s) \<and> decSI a = Inr s' \<longrightarrow> si_Status s' = si_Status s))"

text \<open>A run ends in agreement.\<close>

definition endsSettled :: "Lib \<Rightarrow> trace \<Rightarrow> bool" where
  "endsSettled L h \<longleftrightarrow> (\<exists>e s. lastISE h = Some e \<and> lastSI h = Some s \<and> settled L e s)"

text \<open>Half of the agreement: the registration of the cluster.\<close>

definition registered :: "InternalServiceExport \<Rightarrow> ServiceImport \<Rightarrow> bool" where
  "registered e s \<longleftrightarrow> hasExportFinalizer e \<and> sis_Ports (si_Status s) \<noteq> [] \<and>
     (if sis_Ports (si_Status s) = ises_Ports (ise_Spec e) then clusterOf e \<in> clustersOf s
      else clusterOf e \<notin> clustersOf s \<and> clustersOf s \<noteq> {})"

text \<open>Objects for the examples.\<close>

definition demoExportF :: InternalServiceExport where
  "demoExportF = demoExport\<lparr>ise_ObjectMeta := (ise_ObjectMeta demoExport)\<lparr>om_Finalizers := [InternalServiceExportFinalizer]\<rparr>\<rparr>"

definition demoExportDel :: InternalServiceExport where
  "demoExportDel = demoExport\<lparr>ise_ObjectMeta := (ise_ObjectMeta demoExport)\<lparr>om_Finalizers := [InternalServiceExportFinalizer],
     om_DeletionTimestamp := Some 7\<rparr>\<rparr>"

definition demoExportOk :: InternalServiceExport where
  "demoExportOk = demoExportF\<lparr>ise_Conditions := [UnconflictedServiceExportConflictCondition demoExportF]\<rparr>"

definition demoImportWith :: "string list \<Rightarrow> ServiceImport" where
  "demoImportWith cs = demoImport\<lparr>si_Status := zeroSIStatus\<lparr>sis_Ports := [demoPort],
     sis_Clusters := map (\<lambda>c. \<lparr>cs_Cluster = c\<rparr>) cs\<rparr>\<rparr>"

section \<open>Lemmas on the clusters of a service import\<close>

text \<open>
  What the controllers need of a registry of clusters: adding and removing a cluster change the
  set of registered clusters by that cluster only.
\<close>

locale cluster_registry =
  fixes add :: "'s \<Rightarrow> string \<Rightarrow> 's"
    and remove :: "'s \<Rightarrow> string \<Rightarrow> 's"
    and members :: "'s \<Rightarrow> string set"
  assumes members_add: "members (add s c) = insert c (members s)"
    and members_remove: "members (remove s c) = members s - {c}"
begin

text \<open>A sequence of registrations (\<open>Inl\<close>) and removals (\<open>Inr\<close>).\<close>

definition apply1 :: "'s \<Rightarrow> string + string \<Rightarrow> 's" where
  "apply1 s x = (case x of Inl c \<Rightarrow> add s c | Inr c \<Rightarrow> remove s c)"

lemma members_run:
  "members (foldl apply1 s xs) = foldl (\<lambda>M x. case x of Inl c \<Rightarrow> insert c M | Inr c \<Rightarrow> M - {c}) (members s) xs"
  by (induction xs rule: rev_induct) (auto simp: apply1_def members_add members_remove split: sum.splits)

lemma last_word:
  "c \<in> members (foldl apply1 s (xs @ [Inl c]))" "c \<notin> members (foldl apply1 s (xs @ [Inr c]))"
  by (simp_all add: apply1_def members_add members_remove)

lemma removed_stays_out:
  "Inl c \<notin> set xs \<Longrightarrow> c \<notin> members s \<Longrightarrow> c \<notin> members (foldl apply1 s xs)"
  by (induction xs arbitrary: s rule: rev_induct)
    (auto simp: apply1_def members_add members_remove split: sum.splits)

end

lemma clustersOf_add: "clustersOf (ISE_addClusterToServiceImportStatus s c) = insert c (clustersOf s)"
  by (auto simp: clustersOf_def ISE_addClusterToServiceImportStatus_def list_ex_iff)

lemma clustersOf_remove: "clustersOf (ISE_removeClusterFromServiceImportStatus s c) = clustersOf s - {c}"
  by (auto simp: clustersOf_def ISE_removeClusterFromServiceImportStatus_def Let_def zeroSIStatus_def
      filter_empty_conv)

interpretation sic: cluster_registry ISE_addClusterToServiceImportStatus
  ISE_removeClusterFromServiceImportStatus clustersOf
  by unfold_locales (rule clustersOf_add, rule clustersOf_remove)

text \<open>A registry that is kept as a list, in which no cluster is entered twice.\<close>

locale unique_registry = cluster_registry +
  fixes entries :: "'a \<Rightarrow> string list"
  assumes distinct_add: "distinct (entries s) \<Longrightarrow> distinct (entries (add s c))"
    and distinct_remove: "distinct (entries s) \<Longrightarrow> distinct (entries (remove s c))"
begin

lemma distinct_run: "distinct (entries s) \<Longrightarrow> distinct (entries (foldl apply1 s xs))"
  by (induction xs rule: rev_induct) (auto simp: apply1_def distinct_add distinct_remove split: sum.splits)

end

lemma distinct_clusterList_add: "distinct (clusterList s) \<Longrightarrow> distinct (clusterList (ISE_addClusterToServiceImportStatus s c))"
  by (auto simp: clusterList_def ISE_addClusterToServiceImportStatus_def list_ex_iff)

lemma distinct_clusterList_remove: "distinct (clusterList s) \<Longrightarrow> distinct (clusterList (ISE_removeClusterFromServiceImportStatus s c))"
  by (auto simp: clusterList_def ISE_removeClusterFromServiceImportStatus_def Let_def zeroSIStatus_def distinct_map_filter)

interpretation siu: unique_registry ISE_addClusterToServiceImportStatus
  ISE_removeClusterFromServiceImportStatus clustersOf clusterList
  by unfold_locales (rule distinct_clusterList_add, assumption, rule distinct_clusterList_remove, assumption)

text \<open>Removing the last cluster resets the status.\<close>

lemma remove_last_resets:
  "clustersOf (ISE_removeClusterFromServiceImportStatus s c) = {} \<Longrightarrow> si_Status (ISE_removeClusterFromServiceImportStatus s c) = zeroSIStatus"
  by (auto simp: clustersOf_def ISE_removeClusterFromServiceImportStatus_def Let_def)

lemma status_add_unchanged:
  "si_Status (ISE_addClusterToServiceImportStatus s c) = si_Status s \<longleftrightarrow> c \<in> clustersOf s"
  by (auto simp: clustersOf_def ISE_addClusterToServiceImportStatus_def list_ex_iff
      dest!: arg_cong [where f = sis_Clusters])

lemma status_remove_unchanged:
  assumes "sis_Ports (si_Status s) \<noteq> []"
  shows "si_Status (ISE_removeClusterFromServiceImportStatus s c) = si_Status s \<longleftrightarrow>
    c \<notin> clustersOf s \<and> clustersOf s \<noteq> {}"
proof (cases "filter (\<lambda>x. cs_Cluster x \<noteq> c) (sis_Clusters (si_Status s)) = []")
  case True
  then have "si_Status (ISE_removeClusterFromServiceImportStatus s c) = zeroSIStatus"
    by (simp add: ISE_removeClusterFromServiceImportStatus_def)
  moreover have "zeroSIStatus \<noteq> si_Status s"
    using assms by (metis ServiceImportStatus.select_convs(5) zeroSIStatus_def)
  ultimately show ?thesis using True by (auto simp: clustersOf_def filter_empty_conv neq_Nil_conv)
next
  case False
  let ?f = "filter (\<lambda>x. cs_Cluster x \<noteq> c) (sis_Clusters (si_Status s))"
  have "si_Status (ISE_removeClusterFromServiceImportStatus s c) = (si_Status s)\<lparr>sis_Clusters := ?f\<rparr>"
    using False by (simp add: ISE_removeClusterFromServiceImportStatus_def)
  moreover have "(si_Status s)\<lparr>sis_Clusters := ?f\<rparr> = si_Status s \<longleftrightarrow> ?f = sis_Clusters (si_Status s)"
    by (cases "si_Status s") simp
  ultimately show ?thesis using False by (auto simp: clustersOf_def filter_id_conv)
qed

section \<open>Lemmas on the controller\<close>

lemmas ISE_write_defs = ISE_updateServiceImportStatus_def ISE_removeFinalizer_def
  ISE_updateInternalServiceExportStatus_def ISE_syncImport_def ISE_handleDelete_def ISE_handleUpdate_def
  ISE_Reconcile_def Let_def decUpd_def

lemma finalizerRecorded_mono [simp]: "finalizerRecorded h \<Longrightarrow> finalizerRecorded (h @ k)"
  by (fastforce simp: finalizerRecorded_def)

lemma importWrite_simps [simp]:
  "\<not> importWrite (Get c kd n)" "\<not> importWrite (Update c (OISE e))" "\<not> importWrite (StatusUpdate c (OISE e))"
  by (simp_all add: importWrite_def)

lemma handleUpdate_guarded:
  "finalizerRecorded h \<Longrightarrow>
     wp (\<lambda>h q. importWrite q \<longrightarrow> finalizerRecorded h) (\<lambda>_ _. True) (ISE_handleUpdate L ri e) h"
  by (auto simp: ISE_write_defs prog_simps wp_simps split: sum.splits option.splits)

lemma handleDelete_guarded:
  "finalizerRecorded h \<Longrightarrow>
     wp (\<lambda>h q. importWrite q \<longrightarrow> finalizerRecorded h) (\<lambda>_ _. True) (ISE_handleDelete L ri e) h"
  by (auto simp: ISE_write_defs prog_simps wp_simps split: sum.splits option.splits)

lemma finalizerRecorded_read:
  "hasExportFinalizer e \<Longrightarrow> decISE a = Inr e \<Longrightarrow>
     (Get Hub KInternalServiceExport n, a) \<in> set h \<Longrightarrow> finalizerRecorded h"
  unfolding finalizerRecorded_def by blast

lemma finalizerRecorded_written:
  "hasExportFinalizer e \<Longrightarrow> decISE a = Inr y \<Longrightarrow> (Update Hub (OISE e), a) \<in> set h \<Longrightarrow> finalizerRecorded h"
  unfolding finalizerRecorded_def by blast

lemma Reconcile_guarded:
  assumes "finalizer_laws L"
  shows "wp (\<lambda>h q. importWrite q \<longrightarrow> finalizerRecorded h) (\<lambda>_ _. True) (ISE_Reconcile L ri n) h"
proof -
  have added: "hasExportFinalizer (e\<lparr>ise_ObjectMeta := LibAddFinalizer L (ise_ObjectMeta e) InternalServiceExportFinalizer\<rparr>)" for e
    using finalizer_lawsD(2) [OF assms] by (simp add: hasExportFinalizer_def)
  have present: "hasExportFinalizer e" if "LibContainsFinalizer L (ise_ObjectMeta e) InternalServiceExportFinalizer" for e
    using that finalizer_lawsD(1) [OF assms] by (simp add: hasExportFinalizer_def)
  have deleted: "wp (\<lambda>h q. importWrite q \<longrightarrow> finalizerRecorded h) (\<lambda>_ _. True) (ISE_handleDelete L ri e)
      (h @ [(Get Hub KInternalServiceExport n, a)])" if "decISE a = Inr e" for e a h
  proof (cases "LibContainsFinalizer L (ise_ObjectMeta e) InternalServiceExportFinalizer")
    case True
    then show ?thesis by (intro handleDelete_guarded finalizerRecorded_read [OF present that, of n]) simp_all
  qed (simp add: ISE_handleDelete_def)
  show ?thesis
    unfolding ISE_Reconcile_def
    by (auto simp: prog_simps Let_def decUpd_def split: sum.splits option.splits
        intro!: deleted handleUpdate_guarded intro: finalizerRecorded_read [OF present]
          finalizerRecorded_written [OF added])
qed

lemma importReleased_absent:
  "(Get Hub KServiceImport (importKeyOf e), a) \<in> set h \<Longrightarrow> decSI a = Inl er \<Longrightarrow> IsNotFound er \<Longrightarrow> importReleased h e"
  unfolding importReleased_def by blast

lemma importReleased_read:
  "(Get Hub KServiceImport (importKeyOf e), a) \<in> set h \<Longrightarrow> decSI a = Inr s \<Longrightarrow> clusterOf e \<notin> clustersOf s
   \<Longrightarrow> importReleased h e"
  unfolding importReleased_def by blast

lemma importReleased_written:
  "(Get Hub KServiceImport (importKeyOf e), a0) \<in> set h \<Longrightarrow> decSI a0 = Inr s0 \<Longrightarrow> (StatusUpdate Hub (OSI s), a) \<in> set h \<Longrightarrow>
   decSI a = Inr s' \<Longrightarrow> si_ObjectMeta s = si_ObjectMeta s0 \<Longrightarrow> clusterOf e \<notin> clustersOf s \<Longrightarrow> importReleased h e"
  unfolding importReleased_def by blast

lemma removeFinalizer_released:
  assumes "finalizer_laws L" and "importReleased h e"
  shows "wp (\<lambda>h q. \<forall>e. q = Update Hub (OISE e) \<and> \<not> hasExportFinalizer e \<longrightarrow> importReleased h e) (\<lambda>_ _. True)
     (ISE_removeFinalizer L e) h"
proof -
  have "importReleased h (e\<lparr>ise_ObjectMeta := m\<rparr>)" for m
    using assms(2) by (simp add: importReleased_def importKeyOf_def clusterOf_def Let_def)
  then show ?thesis by (auto simp: ISE_removeFinalizer_def Let_def prog_simps split: prod.splits option.splits)
qed

text \<open>
  After the clean-up of the status, the service import no longer lists the cluster: either the
  status was written, or it did not list the cluster in the first place.
\<close>

lemma ISE_remove_meta: "si_ObjectMeta (ISE_removeClusterFromServiceImportStatus s c) = si_ObjectMeta s"
  by (simp add: ISE_removeClusterFromServiceImportStatus_def Let_def)

lemma cleanup_released:
  assumes "decSI b = Inr s" and "(Get Hub KServiceImport (importKeyOf e), b) \<in> set h"
    and "sis_Ports (si_Status s) \<noteq> []"
  shows "wp (\<lambda>h q. \<forall>e. q \<noteq> Update Hub (OISE e)) (\<lambda>h r. fst r = None \<longrightarrow> importReleased h e)
     (ISE_updateServiceImportStatus (ISE_removeClusterFromServiceImportStatus s (clusterOf e)) (si_Status s)) h"
proof -
  have written: "importReleased (h @ [(StatusUpdate Hub (OSI (ISE_removeClusterFromServiceImportStatus s (clusterOf e))), a)]) e"
    if "decSI a = Inr s'" for a s'
    by (rule importReleased_written [where ?a0.0 = b and ?s0.0 = s and s = "ISE_removeClusterFromServiceImportStatus s (clusterOf e)" and a = a,
          OF _ assms(1) _ that])
      (use assms(2) in \<open>simp_all add: clustersOf_remove ISE_remove_meta\<close>)
  have "importReleased (h @ k) e" if "clusterOf e \<notin> clustersOf s" for k
    by (rule importReleased_read [OF _ assms(1) that]) (use assms(2) in simp)
  from written this [of "[]"] show ?thesis
    using status_remove_unchanged [OF assms(3)]
    by (auto simp: ISE_updateServiceImportStatus_def prog_simps decUpd_def split: sum.splits)
qed

lemma handleDelete_released:
  assumes "finalizer_laws L"
  shows "wp (\<lambda>h q. \<forall>e. q = Update Hub (OISE e) \<and> \<not> hasExportFinalizer e \<longrightarrow> importReleased h e) (\<lambda>_ _. True)
     (ISE_handleDelete L ri e) h" (is "wp ?G _ _ _")
proof -
  have notfound: "importReleased (h @ [(Get Hub KServiceImport (importKeyOf e), a)]) e"
    if "decSI a = Inl er" "IsNotFound er" for a er
    using that by (auto intro: importReleased_absent)
  have found: "wp ?G (\<lambda>_ _. True) (bindP (ISE_updateServiceImportStatus
      (ISE_removeClusterFromServiceImportStatus s (clusterOf e)) (si_Status s)) (\<lambda>(er, _).
        case er of Some x \<Rightarrow> Ret (emptyResult, Some x) | None \<Rightarrow> ISE_removeFinalizer L e))
      (h @ [(Get Hub KServiceImport (importKeyOf e), a)])"
    if "decSI a = Inr s" "sis_Ports (si_Status s) \<noteq> []" for a s
    unfolding wp_bindP
    by (rule wp_conseq [OF cleanup_released [OF that(1) _ that(2)]])
      (auto split: option.splits intro: removeFinalizer_released [OF assms])
  show ?thesis
    unfolding ISE_handleDelete_def
    by (auto simp: prog_simps Let_def split: sum.splits
        intro!: removeFinalizer_released [OF assms] notfound found)
qed

lemma Reconcile_released:
  assumes "finalizer_laws L"
  shows "wp (\<lambda>h q. \<forall>e. q = Update Hub (OISE e) \<and> \<not> hasExportFinalizer e \<longrightarrow> importReleased h e) (\<lambda>_ _. True)
     (ISE_Reconcile L ri n) h" (is "wp ?G _ _ _")
proof -
  have upd: "wp ?G (\<lambda>_ _. True) (ISE_handleUpdate L ri e) h" for e h
    by (auto simp: ISE_handleUpdate_def ISE_syncImport_def ISE_updateServiceImportStatus_def
        ISE_updateInternalServiceExportStatus_def Let_def prog_simps wp_simps decUpd_def split: sum.splits option.splits)
  have "hasExportFinalizer (e\<lparr>ise_ObjectMeta := LibAddFinalizer L (ise_ObjectMeta e) InternalServiceExportFinalizer\<rparr>)" for e
    using finalizer_lawsD(2) [OF assms] by (simp add: hasExportFinalizer_def)
  then show ?thesis
    unfolding ISE_Reconcile_def
    by (auto simp: prog_simps Let_def decUpd_def split: sum.splits option.splits
        intro!: upd handleDelete_released [OF assms])
qed

text \<open>When the writes of a pass are stored as they are sent, the pass ends in agreement.\<close>

lemma last_Nil [simp]: "lastISE [] = None" "lastSI [] = None"
  by (simp_all add: lastISE_def lastSI_def)

lemma last_snoc [simp]:
  "lastISE (h @ [(q, a)]) = (if reqKind q = Some KInternalServiceExport
     then (case decISE a of Inl er \<Rightarrow> lastISE h | Inr e \<Rightarrow> Some e) else lastISE h)"
  "lastSI (h @ [(q, a)]) = (if reqKind q = Some KServiceImport
     then (case decSI a of Inl er \<Rightarrow> lastSI h | Inr e \<Rightarrow> Some e) else lastSI h)"
  unfolding lastISE_def lastSI_def by simp_all

lemma echoesISE_snoc:
  "echoesISE (h @ [(q, a)]) \<Longrightarrow> echoesISE h"
  "echoesISE (h @ [(StatusUpdate Hub (OISE e), RObj (OISE e'))]) \<Longrightarrow>
     \<exists>v. e' = e\<lparr>ise_ObjectMeta := (ise_ObjectMeta e)\<lparr>om_ResourceVersion := v\<rparr>\<rparr>"
  "echoesISE (h @ [(Update Hub (OISE e), RObj (OISE e'))]) \<Longrightarrow>
     \<exists>v. e' = e\<lparr>ise_ObjectMeta := (ise_ObjectMeta e)\<lparr>om_ResourceVersion := v\<rparr>\<rparr>"
  "echoesISE (h @ [(StatusUpdate Hub (OSI s), RObj (OSI s'))]) \<Longrightarrow> si_Status s' = si_Status s"
  by (auto simp: echoesISE_def)

lemma exportStatus_settles:
  assumes "condition_laws L" and "lastISE h = Some e" and "lastSI h = Some s" and "registered e s"
    and "conflict = (sis_Ports (si_Status s) \<noteq> ises_Ports (ise_Spec e))"
  shows "wp (\<lambda>_ _. True) (\<lambda>h r. echoesISE h \<longrightarrow> (r = None \<longrightarrow> endsSettled L h))
     (ISE_updateInternalServiceExportStatus L e conflict) h"
proof -
  let ?d = "if conflict then ConflictedServiceExportConflictCondition e else UnconflictedServiceExportConflictCondition e"
  let ?w = "\<lambda>v. e\<lparr>ise_Conditions := LibSetStatusCondition L (ise_Conditions e) ?d,
      ise_ObjectMeta := (ise_ObjectMeta e)\<lparr>om_ResourceVersion := v\<rparr>\<rparr>"
  have ty: "c_Type ?d = ServiceExportConflict" by simp
  obtain u where "LibFindStatusCondition L (LibSetStatusCondition L (ise_Conditions e) ?d) ServiceExportConflict =
      Some (?d\<lparr>c_LastTransitionTime := u\<rparr>)"
    using condition_lawsD(2) [OF assms(1), of "ise_Conditions e" ?d] unfolding ty by blast
  then have cur: "EqualCondition (LibFindStatusCondition L (LibSetStatusCondition L (ise_Conditions e) ?d) ServiceExportConflict)
      (Some ?d)" by (simp only: eqc.eq_stored)
  have "settled L (?w v) s" for v
    using cur assms(4,5)
    by (auto simp: settled_def registered_def Let_def hasExportFinalizer_def clusterOf_def
        ConflictedServiceExportConflictCondition_def UnconflictedServiceExportConflictCondition_def split: if_splits)
  moreover have "settled L e s" if "EqualCondition (LibFindStatusCondition L (ise_Conditions e) ServiceExportConflict) (Some ?d)"
    using that assms(4,5) by (auto simp: settled_def registered_def Let_def split: if_splits)
  ultimately show ?thesis
    using assms(2,3)
    by (auto simp: ISE_updateInternalServiceExportStatus_def Let_def prog_simps decUpd_def endsSettled_def
        split: sum.splits dest!: echoesISE_snoc(2))
qed

lemma importStatus_stored:
  assumes "lastISE h = Some e" and "lastSI h = Some s"
  shows "wp (\<lambda>_ _. True) (\<lambda>h r. echoesISE h \<longrightarrow> (fst r = None \<longrightarrow>
       lastISE h = Some e \<and> si_Status (snd r) = si_Status s1 \<and> (\<exists>s'. lastSI h = Some s' \<and> si_Status s' = si_Status s1)))
     (ISE_updateServiceImportStatus s1 (si_Status s)) h"
  using assms
  by (auto simp: ISE_updateServiceImportStatus_def prog_simps decUpd_def split: sum.splits
      dest!: echoesISE_snoc(4))

lemma registered_remove:
  assumes "hasExportFinalizer e" and "sis_Ports (si_Status s) \<noteq> ises_Ports (ise_Spec e)"
    and "si_Status s' = si_Status (ISE_removeClusterFromServiceImportStatus s (clusterOf e))"
    and "sis_Ports (si_Status s') \<noteq> []"
  shows "registered e s'"
proof -
  have "clustersOf s' = clustersOf s - {clusterOf e}"
    using clustersOf_remove [of s "clusterOf e"] assms(3) by (simp add: clustersOf_def)
  moreover have "clustersOf s' \<noteq> {} \<and> sis_Ports (si_Status s') = sis_Ports (si_Status s)"
    using assms(3,4)
    by (auto simp: ISE_removeClusterFromServiceImportStatus_def Let_def zeroSIStatus_def clustersOf_def split: if_splits)
  ultimately show ?thesis using assms(1,2,4) by (auto simp: registered_def)
qed

lemma registered_add:
  assumes "hasExportFinalizer e" and "sis_Ports (si_Status s) = ises_Ports (ise_Spec e)"
    and "sis_Ports (si_Status s) \<noteq> []"
    and "si_Status s' = si_Status (ISE_addClusterToServiceImportStatus s (clusterOf e))"
  shows "registered e s'"
proof -
  have "clustersOf s' = insert (clusterOf e) (clustersOf s)"
    using clustersOf_add [of s "clusterOf e"] assms(4) by (simp add: clustersOf_def)
  moreover have "sis_Ports (si_Status s') = sis_Ports (si_Status s)"
    using assms(4) by (simp add: ISE_addClusterToServiceImportStatus_def)
  ultimately show ?thesis using assms(1,2,3) by (simp add: registered_def)
qed

lemma echoesISE_prefix: "echoesISE (h @ k) \<Longrightarrow> echoesISE h"
  by (auto simp: echoesISE_def)

definition settlesQ :: "Lib \<Rightarrow> trace \<Rightarrow> outcome \<Rightarrow> bool" where
  "settlesQ L h r \<longleftrightarrow> (echoesISE h \<longrightarrow> (r = (emptyResult, None) \<longrightarrow> endsSettled L h))"

lemma requeueAfter_neq: "ri \<noteq> 0 \<Longrightarrow> requeueAfter ri \<noteq> emptyResult"
  by (simp add: requeueAfter_def emptyResult_def)

lemma statusResult_settles:
  assumes "condition_laws L" and "lastISE h = Some e" and "lastSI h = Some s" and "registered e s"
    and "conflict = (sis_Ports (si_Status s) \<noteq> ises_Ports (ise_Spec e))"
  shows "wp (\<lambda>_ _. True) (settlesQ L)
     (bindP (ISE_updateInternalServiceExportStatus L e conflict) (\<lambda>er2. Ret (emptyResult, er2))) h"
  unfolding wp_bindP
  by (rule wp_conseq [OF exportStatus_settles [OF assms]]) (auto simp: settlesQ_def)

lemma settlesQ_error: "settlesQ L h (emptyResult, Some x)"
  by (simp add: settlesQ_def)

lemma settlesQ_wait: "ri \<noteq> 0 \<Longrightarrow> settlesQ L h (requeueAfter ri, None)"
  by (simp add: settlesQ_def requeueAfter_neq)

lemma settles_skip: "\<not> echoesISE h \<Longrightarrow> wp (\<lambda>_ _. True) (settlesQ L) p h"
  by (rule wp_conseq [OF wp_extends]) (use echoesISE_prefix in \<open>auto simp: settlesQ_def\<close>)

lemma ports_remove:
  "sis_Ports (si_Status (ISE_removeClusterFromServiceImportStatus s c)) \<noteq> [] \<Longrightarrow>
     sis_Ports (si_Status (ISE_removeClusterFromServiceImportStatus s c)) = sis_Ports (si_Status s)"
  by (simp add: ISE_removeClusterFromServiceImportStatus_def Let_def zeroSIStatus_def split: if_splits)

lemma conflict_settles:
  assumes "condition_laws L" and "ri \<noteq> 0" and "hasExportFinalizer e"
    and "sis_Ports (si_Status s) \<noteq> ises_Ports (ise_Spec e)"
    and st: "s1 = ISE_removeClusterFromServiceImportStatus s (clusterOf e)"
    and stored: "echoesISE h \<longrightarrow> (fst r = None \<longrightarrow> lastISE h = Some e \<and> si_Status (snd r) = si_Status s1 \<and>
      (\<exists>s'. lastSI h = Some s' \<and> si_Status s' = si_Status s1))"
  shows "wp (\<lambda>_ _. True) (settlesQ L)
      (case r of (er, s2) \<Rightarrow>
         (case er of None \<Rightarrow> if sis_Ports (si_Status s2) = [] then Ret (requeueAfter ri, None)
           else bindP (ISE_updateInternalServiceExportStatus L e True) (\<lambda>er2. Ret (emptyResult, er2))
         | Some x \<Rightarrow> Ret (emptyResult, Some x))) h"
proof (cases "echoesISE h \<and> fst r = None \<and> sis_Ports (si_Status (snd r)) \<noteq> []")
  case True
  with stored obtain s' where s': "lastISE h = Some e" "lastSI h = Some s'" "si_Status s' = si_Status s1"
    "sis_Ports (si_Status s') \<noteq> []" by auto
  then have reg: "registered e s'" using registered_remove [OF assms(3,4), of s'] st by simp
  have "sis_Ports (si_Status s') = sis_Ports (si_Status s)"
    using s'(3,4) ports_remove [of s "clusterOf e"] st by simp
  then have "True = (sis_Ports (si_Status s') \<noteq> ises_Ports (ise_Spec e))" using assms(4) by simp
  with reg statusResult_settles [OF assms(1) s'(1,2), of True] True show ?thesis by (cases r) simp
next
  case False
  then show ?thesis
    by (cases "echoesISE h")
      (auto simp: settlesQ_error settlesQ_wait [OF assms(2)] settles_skip split: prod.splits option.splits)
qed

lemma noconflict_settles:
  assumes "condition_laws L" and "hasExportFinalizer e"
    and "sis_Ports (si_Status s) = ises_Ports (ise_Spec e)" and "sis_Ports (si_Status s) \<noteq> []"
    and st: "s1 = ISE_addClusterToServiceImportStatus s (clusterOf e)"
    and stored: "echoesISE h \<longrightarrow> (fst r = None \<longrightarrow> lastISE h = Some e \<and> si_Status (snd r) = si_Status s1 \<and>
      (\<exists>s'. lastSI h = Some s' \<and> si_Status s' = si_Status s1))"
  shows "wp (\<lambda>_ _. True) (settlesQ L)
      (case r of (er, s2) \<Rightarrow>
         (case er of None \<Rightarrow> bindP (ISE_updateInternalServiceExportStatus L e False) (\<lambda>er2. Ret (emptyResult, er2))
         | Some x \<Rightarrow> Ret (emptyResult, Some x))) h"
proof (cases "echoesISE h \<and> fst r = None")
  case True
  with stored obtain s' where s': "lastISE h = Some e" "lastSI h = Some s'" "si_Status s' = si_Status s1" by auto
  then have reg: "registered e s'" using registered_add [OF assms(2-4), of s'] st by simp
  have "False = (sis_Ports (si_Status s') \<noteq> ises_Ports (ise_Spec e))"
    using s'(3) assms(3) st by (simp add: ISE_addClusterToServiceImportStatus_def)
  with reg statusResult_settles [OF assms(1) s'(1,2), of False] True show ?thesis by (cases r) simp
next
  case False
  then show ?thesis 
    by (cases "echoesISE h") (auto simp: settlesQ_error settles_skip split: prod.splits option.splits)
qed

lemma syncImport_settles:
  assumes "condition_laws L" and "ri \<noteq> 0" and "lastISE h = Some e" and "lastSI h = Some s"
    and "hasExportFinalizer e"
  shows "wp (\<lambda>_ _. True) (settlesQ L) (ISE_syncImport L ri e s) h"
proof -
  note stored = importStatus_stored [OF assms(3,4)]
  have wait: "settlesQ L h (requeueAfter ri, None)" by (rule settlesQ_wait [OF assms(2)])
  have conflict: "wp (\<lambda>_ _. True) (settlesQ L)
      (bindP (ISE_updateServiceImportStatus (ISE_removeClusterFromServiceImportStatus s (clusterOf e)) (si_Status s))
        (\<lambda>(er, s2). case er of None \<Rightarrow> if sis_Ports (si_Status s2) = [] then Ret (requeueAfter ri, None)
           else bindP (ISE_updateInternalServiceExportStatus L e True) (\<lambda>er2. Ret (emptyResult, er2))
         | Some x \<Rightarrow> Ret (emptyResult, Some x))) h"
    if "sis_Ports (si_Status s) \<noteq> ises_Ports (ise_Spec e)"
    unfolding wp_bindP
    by (rule wp_conseq [OF stored]) (rule conflict_settles [OF assms(1,2,5) that refl], assumption, simp)
  have noconflict: "wp (\<lambda>_ _. True) (settlesQ L)
      (bindP (ISE_updateServiceImportStatus (ISE_addClusterToServiceImportStatus s (clusterOf e)) (si_Status s))
        (\<lambda>(er, s2). case er of None \<Rightarrow> bindP (ISE_updateInternalServiceExportStatus L e False) (\<lambda>er2. Ret (emptyResult, er2))
         | Some x \<Rightarrow> Ret (emptyResult, Some x))) h"
    if "sis_Ports (si_Status s) = ises_Ports (ise_Spec e)" "sis_Ports (si_Status s) \<noteq> []"
    unfolding wp_bindP
    by (rule wp_conseq [OF stored]) (rule noconflict_settles [OF assms(1,5) that refl], assumption, simp)
  show ?thesis
    using conflict noconflict wait unfolding ISE_syncImport_def Let_def by simp
qed

text \<open>The finalizer that was added is part of what the server shows.\<close>

lemma handleUpdate_settles:
  assumes "condition_laws L" and "ri \<noteq> 0" and "lastISE h = Some e" and "hasExportFinalizer e"
  shows "wp (\<lambda>_ _. True) (settlesQ L) (ISE_handleUpdate L ri e) h"
  using assms
  by (auto simp: ISE_handleUpdate_def prog_simps decUpd_def settlesQ_error simp del: append_assoc
      split: sum.splits intro!: syncImport_settles)

lemma Reconcile_settles:
  assumes "finalizer_laws L" and "condition_laws L" and "ri \<noteq> 0"
    and "om_DeletionTimestamp (ise_ObjectMeta e) = None"
    and run: "steps (ISE_Reconcile L ri n) ((Get Hub KInternalServiceExport n, RObj (OISE e)) # tr) (Ret r)"
  shows "settlesQ L ((Get Hub KInternalServiceExport n, RObj (OISE e)) # tr) r"
proof -
  let ?m = "LibAddFinalizer L (ise_ObjectMeta e) InternalServiceExportFinalizer"
  let ?e1 = "e\<lparr>ise_ObjectMeta := ?m\<rparr>" and ?g = "(Get Hub KInternalServiceExport n, RObj (OISE e))"
  let ?p = "if \<not> LibContainsFinalizer L (ise_ObjectMeta e) InternalServiceExportFinalizer
     then bindP (doUpdate Hub OISE decISE ?e1) (\<lambda>(er, e2). case er of Some x \<Rightarrow> Ret (emptyResult, Some x)
             | None \<Rightarrow> ISE_handleUpdate L ri e2)
     else ISE_handleUpdate L ri e"
  have p: "steps ?p tr (Ret r)"
    using run assms(4) unfolding ISE_Reconcile_def getISE_def call_def Let_def by (simp add: steps_Call)
  have added: "wp (\<lambda>_ _. True) (settlesQ L) (ISE_handleUpdate L ri e2) ([?g] @ [(Update Hub (OISE ?e1), RObj (OISE e2))])" for e2
  proof (cases "echoesISE ([?g] @ [(Update Hub (OISE ?e1), RObj (OISE e2))])")
    case True
    from echoesISE_snoc(3) [OF this] have "hasExportFinalizer e2"
      using finalizer_lawsD(2) [OF assms(1)] by (auto simp: hasExportFinalizer_def)
    then show ?thesis
      by (intro handleUpdate_settles [OF assms(2,3)]) (simp_all del: append.simps)
  qed (rule settles_skip)
  have present: "hasExportFinalizer e" if "LibContainsFinalizer L (ise_ObjectMeta e) InternalServiceExportFinalizer"
    using that finalizer_lawsD(1) [OF assms(1)] by (simp add: hasExportFinalizer_def)
  have "lastISE ([] @ [?g]) = Some e" by (simp add: lastISE_def)
  then have "wp (\<lambda>_ _. True) (settlesQ L) ?p ([] @ [?g])"
    using handleUpdate_settles [OF assms(2,3) _ present, of "[] @ [?g]"] added
    by (auto simp: prog_simps decUpd_def settlesQ_error simp del: append_assoc split: sum.splits)
  from wp_result [OF p refl this] show ?thesis by simp
qed

lemma settled_quiet:
  assumes "finalizer_laws L" and "settled L e s" and "om_DeletionTimestamp (ise_ObjectMeta e) = None"
  shows "play [RObj (OISE e), RObj (OSI s)] (ISE_Reconcile L ri n) =
    ([(Get Hub KInternalServiceExport n, RObj (OISE e)), (Get Hub KServiceImport (importKeyOf e), RObj (OSI s))],
     Ret (emptyResult, None))"
proof -
  have f: "LibContainsFinalizer L (ise_ObjectMeta e) InternalServiceExportFinalizer"
    using assms(2) finalizer_lawsD(1) [OF assms(1)] by (simp add: settled_def hasExportFinalizer_def)
  have p: "sis_Ports (si_Status s) \<noteq> []" using assms(2) by (simp add: settled_def)
  show ?thesis
    using assms(2,3) f status_remove_unchanged [OF p, of "clusterOf e"] status_add_unchanged [of s "clusterOf e"]
    by (auto simp: ISE_write_defs prog_simps settled_def Let_def split: if_splits)
qed

section \<open>Properties\<close>

text \<open>C18. Finalizer before effect: whatever the API server answers and wherever the process is
  stopped, the InternalServiceExport controller writes a ServiceImport (creates it or updates its
  status) only after the server has reported or accepted the export with the clean-up finalizer, so
  that no registration can outlive its export unnoticed.\<close>

theorem ISE_finalizer_before_effect:
  assumes "finalizer_laws L" and "steps (ISE_Reconcile L ri n) tr p"
  shows "guarded (\<lambda>h q. importWrite q \<longrightarrow> finalizerRecorded h) [] tr"
  by (rule wp_guarded [OF assms(2) Reconcile_guarded [OF assms(1)]])

theorem ISE_finalizer_before_effect_witness:
  "guarded (\<lambda>h q. importWrite q \<longrightarrow> finalizerRecorded h) []
     [(Get Hub KInternalServiceExport demoExportKey, RObj (OISE demoExport)),
      (Update Hub (OISE demoExportF), RObj (OISE demoExportF)),
      (Get Hub KServiceImport demoImportKey, notFound),
      (Create Hub (OSI demoImport), RObj (OSI demoImport))]"
proof -
  have "steps (ISE_Reconcile refLib 5 demoExportKey)
     [(Get Hub KInternalServiceExport demoExportKey, RObj (OISE demoExport)),
      (Update Hub (OISE demoExportF), RObj (OISE demoExportF)),
      (Get Hub KServiceImport demoImportKey, notFound),
      (Create Hub (OSI demoImport), RObj (OSI demoImport))]
     (snd (play [RObj (OISE demoExport), RObj (OISE demoExportF), notFound, RObj (OSI demoImport)]
        (ISE_Reconcile refLib 5 demoExportKey)))"
    by (rule play_trace_steps) code_simp
  from ISE_finalizer_before_effect [OF refLib_finalizer_laws this] show ?thesis .
qed

text \<open>C2. Clean-up before release: whatever the API server answers and wherever the process is
  stopped, the controller sends an export without the finalizer only after the service import of
  that export was found absent, or was reported, or after it was read was accepted, with a status that does not
  list the cluster of the export.\<close>

theorem ISE_cleanup_before_release:
  assumes "finalizer_laws L" and "steps (ISE_Reconcile L ri n) tr p"
  shows "guarded (\<lambda>h q. \<forall>e. q = Update Hub (OISE e) \<and> \<not> hasExportFinalizer e \<longrightarrow> importReleased h e) [] tr"
  by (rule wp_guarded [OF assms(2) Reconcile_released [OF assms(1)]])

theorem ISE_cleanup_before_release_witness:
  "guarded (\<lambda>h q. \<forall>e. q = Update Hub (OISE e) \<and> \<not> hasExportFinalizer e \<longrightarrow> importReleased h e) []
     [(Get Hub KInternalServiceExport demoExportKey, RObj (OISE demoExportDel)),
      (Get Hub KServiceImport demoImportKey, RObj (OSI (demoImportWith [''c1'', ''c2'']))),
      (StatusUpdate Hub (OSI (demoImportWith [''c2''])), RObj (OSI (demoImportWith [''c2'']))),
      (Update Hub (OISE (demoExportDel\<lparr>ise_ObjectMeta := (ise_ObjectMeta demoExportDel)\<lparr>om_Finalizers := []\<rparr>\<rparr>)), ROk)]"
proof -
  have "steps (ISE_Reconcile refLib 5 demoExportKey)
     [(Get Hub KInternalServiceExport demoExportKey, RObj (OISE demoExportDel)),
      (Get Hub KServiceImport demoImportKey, RObj (OSI (demoImportWith [''c1'', ''c2'']))),
      (StatusUpdate Hub (OSI (demoImportWith [''c2''])), RObj (OSI (demoImportWith [''c2'']))),
      (Update Hub (OISE (demoExportDel\<lparr>ise_ObjectMeta := (ise_ObjectMeta demoExportDel)\<lparr>om_Finalizers := []\<rparr>\<rparr>)), ROk)]
     (snd (play [RObj (OISE demoExportDel), RObj (OSI (demoImportWith [''c1'', ''c2''])),
         RObj (OSI (demoImportWith [''c2''])), ROk] (ISE_Reconcile refLib 5 demoExportKey)))"
    by (rule play_trace_steps) code_simp
  from ISE_cleanup_before_release [OF refLib_finalizer_laws this] show ?thesis .
qed

text \<open>C10. Convergence: a complete pass over an export that is not being deleted, in which the API
  server stores what it accepts, and which ends without error and without asking to be called
  again, leaves the export and its service import in agreement: with equal ports the cluster is
  listed and the export is reported free of conflict, with different ports the cluster is not
  listed and the export is reported in conflict.\<close>

theorem ISE_converges:
  assumes "finalizer_laws L" and "condition_laws L" and "ri \<noteq> 0"
    and "om_DeletionTimestamp (ise_ObjectMeta e) = None"
    and "steps (ISE_Reconcile L ri n) ((Get Hub KInternalServiceExport n, RObj (OISE e)) # tr) (Ret (emptyResult, None))"
    and "echoesISE ((Get Hub KInternalServiceExport n, RObj (OISE e)) # tr)"
  shows "endsSettled L ((Get Hub KInternalServiceExport n, RObj (OISE e)) # tr)"
  using Reconcile_settles [OF assms(1-5)] assms(6) by (simp add: settlesQ_def)

theorem ISE_converges_witness:
  "endsSettled refLib
     [(Get Hub KInternalServiceExport demoExportKey, RObj (OISE demoExportF)),
      (Get Hub KServiceImport demoImportKey, RObj (OSI (demoImportWith [''c2'']))),
      (StatusUpdate Hub (OSI (demoImportWith [''c2'', ''c1''])), RObj (OSI (demoImportWith [''c2'', ''c1'']))),
      (StatusUpdate Hub (OISE demoExportOk), RObj (OISE demoExportOk))]"
proof -
  have run: "steps (ISE_Reconcile refLib 5 demoExportKey)
     [(Get Hub KInternalServiceExport demoExportKey, RObj (OISE demoExportF)),
      (Get Hub KServiceImport demoImportKey, RObj (OSI (demoImportWith [''c2'']))),
      (StatusUpdate Hub (OSI (demoImportWith [''c2'', ''c1''])), RObj (OSI (demoImportWith [''c2'', ''c1'']))),
      (StatusUpdate Hub (OISE demoExportOk), RObj (OISE demoExportOk))] (Ret (emptyResult, None))"
    by (rule playRet_steps [of "[RObj (OISE demoExportF), RObj (OSI (demoImportWith [''c2''])),
      RObj (OSI (demoImportWith [''c2'', ''c1''])), RObj (OISE demoExportOk)]"]) code_simp
  have live: "om_DeletionTimestamp (ise_ObjectMeta demoExportF) = None" by code_simp
  have "\<exists>v. demoExportOk = demoExportOk\<lparr>ise_ObjectMeta := (ise_ObjectMeta demoExportOk)\<lparr>om_ResourceVersion := v\<rparr>\<rparr>"
    by (rule exI [of _ "om_ResourceVersion (ise_ObjectMeta demoExportOk)"]) simp
  then have "echoesISE
     [(Get Hub KInternalServiceExport demoExportKey, RObj (OISE demoExportF)),
      (Get Hub KServiceImport demoImportKey, RObj (OSI (demoImportWith [''c2'']))),
      (StatusUpdate Hub (OSI (demoImportWith [''c2'', ''c1''])), RObj (OSI (demoImportWith [''c2'', ''c1'']))),
      (StatusUpdate Hub (OISE demoExportOk), RObj (OISE demoExportOk))]"
    by (auto simp: echoesISE_def)
  from ISE_converges [OF refLib_finalizer_laws refLib_condition_laws _ live run this] show ?thesis by simp
qed

text \<open>Quiescence: when an export and its service import agree, a pass reads the two objects,
  writes nothing and asks for no retry.\<close>

theorem ISE_quiescent:
  assumes "finalizer_laws L" and "settled L e s" and "om_DeletionTimestamp (ise_ObjectMeta e) = None"
  shows "play [RObj (OISE e), RObj (OSI s)] (ISE_Reconcile L ri n) =
    ([(Get Hub KInternalServiceExport n, RObj (OISE e)), (Get Hub KServiceImport (importKeyOf e), RObj (OSI s))],
     Ret (emptyResult, None))"
  by (rule settled_quiet [OF assms])

theorem ISE_quiescent_witness:
  "play [RObj (OISE demoExportOk), RObj (OSI (demoImportWith [''c1'']))] (ISE_Reconcile refLib 5 demoExportKey) =
    ([(Get Hub KInternalServiceExport demoExportKey, RObj (OISE demoExportOk)),
      (Get Hub KServiceImport (importKeyOf demoExportOk), RObj (OSI (demoImportWith [''c1''])))],
     Ret (emptyResult, None))"
proof -
  have "settled refLib demoExportOk (demoImportWith [''c1''])" by code_simp
  moreover have "om_DeletionTimestamp (ise_ObjectMeta demoExportOk) = None" by code_simp
  ultimately show ?thesis by (rule ISE_quiescent [OF refLib_finalizer_laws])
qed

text \<open>C33. The cluster list of a service import is a set of clusters: after any sequence of
  registrations and removals, in any order and with repetitions, the clusters listed are those that
  the same sequence leaves in a set, none is listed twice if none was before, and when the last step was a removal
  that left no cluster, the whole status is reset.\<close>

theorem ISE_cluster_list_is_set:
  assumes "distinct (clusterList s)"
    and "t = foldl (\<lambda>s x. case x of Inl c \<Rightarrow> ISE_addClusterToServiceImportStatus s c
                                  | Inr c \<Rightarrow> ISE_removeClusterFromServiceImportStatus s c) s xs"
  shows "set (clusterList t) = foldl (\<lambda>M x. case x of Inl c \<Rightarrow> insert c M | Inr c \<Rightarrow> M - {c}) (set (clusterList s)) xs \<and>
    distinct (clusterList t) \<and> (\<forall>ys c. xs = ys @ [Inr c] \<and> clusterList t = [] \<longrightarrow> si_Status t = zeroSIStatus)"
proof -
  have t: "t = foldl sic.apply1 s xs" by (simp add: assms(2) sic.apply1_def [abs_def])
  have cl: "set (clusterList u) = clustersOf u" for u by (simp add: clusterList_def clustersOf_def)
  have "si_Status t = zeroSIStatus" if "xs = ys @ [Inr c]" "clusterList t = []" for ys c
    using that cl [of t] by (auto simp: t sic.apply1_def intro: remove_last_resets)
  moreover note sic.members_run [of s xs, folded t] siu.distinct_run [OF assms(1), of xs, folded t]
  ultimately show ?thesis unfolding cl by blast
qed

theorem ISE_cluster_list_is_set_witness:
  "set (clusterList (ISE_addClusterToServiceImportStatus (ISE_addClusterToServiceImportStatus (demoImportWith [''c1'']) ''c2'') ''c1'')) = {''c1'', ''c2''} \<and>
   distinct (clusterList (ISE_addClusterToServiceImportStatus (ISE_addClusterToServiceImportStatus (demoImportWith [''c1'']) ''c2'') ''c1''))"
proof -
  have "distinct (clusterList (demoImportWith [''c1'']))" and c: "set (clusterList (demoImportWith [''c1''])) = {''c1''}" by code_simp+
  from ISE_cluster_list_is_set [OF this(1) refl, of "[Inl ''c2'', Inl ''c1'']"] show ?thesis by (auto simp: c)
qed

end
