(* ===== verification/ApiRetry.thy ===== *)
theory ApiRetry
  imports Client
begin

text \<open>
  The packages \<open>pkg/common/apiretry\<close> (retrying calls to the API server), \<open>pkg/common/azureerrors\<close>
  (classifying errors of the Azure resource manager), \<open>pkg/common/env\<close> and the namespace of a member
  cluster in \<open>pkg/common/hubconfig\<close>.
\<close>

section \<open>Retries\<close>

definition retriable :: "err \<Rightarrow> bool" where
  "retriable e = (if IsTimeout e \<or> IsServerTimeout e \<or> IsTooManyRequests e then True else False)"

text \<open>\<open>apiretry.Do\<close>.\<close>

definition retryDo :: "Lib \<Rightarrow> (kobj \<Rightarrow> (err option \<times> kobj) op) \<Rightarrow> kobj \<Rightarrow> (err option \<times> kobj) op" where
  "retryDo L f x = LibOnError L ((LibDefaultBackoff L)\<lparr>bo_CapMillis := 1000\<rparr>) (\<lambda>e. retriable e) f x"

text \<open>
  The closure of \<open>WaitUntilObjectDeleted\<close>: it reads the object and answers whether to stop, with
  which error, and the new value of \<open>lastErr\<close>.
\<close>

definition waitCondition :: "err option op \<Rightarrow> err option \<Rightarrow> (bool \<times> err option \<times> err option) op" where
  "waitCondition get lastErr =
     bindP get (\<lambda>r.
       case r of
         None \<Rightarrow> Ret (False, None, None)
       | Some e \<Rightarrow>
           if IsNotFound e then Ret (True, None, lastErr)
           else if retriable e then Ret (False, None, Some e)
           else Ret (False, Some e, lastErr))"

definition WaitUntilObjectDeleted :: "Lib \<Rightarrow> err option op \<Rightarrow> err option op" where
  "WaitUntilObjectDeleted L get =
     bindP (LibExponentialBackoff L
        \<lparr>bo_Steps = 5, bo_DurationMillis = 500, bo_FactorTenths = 16, bo_JitterTenths = 2, bo_CapMillis = 5000\<rparr>
        (waitCondition get) None) (\<lambda>(err, lastErr).
       case err of
         None \<Rightarrow> Ret None
       | Some e \<Rightarrow>
           if LibInterrupted L e
           then (case lastErr of
                   None \<Rightarrow> Ret (Some (LibErrorInterrupted L (PlainErr ''timed out or the context ended'')))
                 | Some l \<Rightarrow> Ret (Some l))
           else Ret (Some e))"

section \<open>Errors of the Azure resource manager\<close>

definition AzIsNotFound :: "err \<Rightarrow> bool" where
  "AzIsNotFound e = (responseCode e = Some 404)"

definition AzIsClientError :: "err \<Rightarrow> bool" where
  "AzIsClientError e = (case responseCode e of None \<Rightarrow> False | Some c \<Rightarrow> 400 \<le> c \<and> c < 500)"

definition AzIsConflict :: "err \<Rightarrow> bool" where
  "AzIsConflict e = (responseCode e = Some 409)"

definition AzIsThrottled :: "err \<Rightarrow> bool" where
  "AzIsThrottled e = (responseCode e = Some 429)"

definition AzIsForbidden :: "err \<Rightarrow> bool" where
  "AzIsForbidden e = (responseCode e = Some 403)"

section \<open>Environment\<close>

text \<open>The environment of the process is a function from keys to values (\<open>os.LookupEnv\<close>).\<close>

definition memberClusterNameEnvKey :: string where
  "memberClusterNameEnvKey = ''MEMBER_CLUSTER_NAME''"

definition envLookup :: "(string \<Rightarrow> string option) \<Rightarrow> string \<Rightarrow> err + string" where
  "envLookup env envKey =
     (case env envKey of
        None \<Rightarrow> Inl (PlainErr (''failed to retrieve the environment variable value from '' @ envKey))
      | Some v \<Rightarrow> Inr v)"

definition LookupMemberClusterName :: "(string \<Rightarrow> string option) \<Rightarrow> err + string" where
  "LookupMemberClusterName env = envLookup env memberClusterNameEnvKey"

definition HubNamespaceNameFormat :: "string \<Rightarrow> string" where
  "HubNamespaceNameFormat mcName = ''fleet-member-'' @ mcName"

definition FetchMemberClusterNamespace :: "(string \<Rightarrow> string option) \<Rightarrow> err + string" where
  "FetchMemberClusterNamespace env =
     (case LookupMemberClusterName env of
        Inl e \<Rightarrow> Inl e
      | Inr mcName \<Rightarrow> Inr (HubNamespaceNameFormat mcName))"

section \<open>What is said of the retries\<close>

text \<open>The errors that the API server may not give again: time-outs and too many requests.\<close>

definition transientError :: "err \<Rightarrow> bool" where
  "transientError e \<longleftrightarrow> (\<exists>r \<in> {ReasonTimeout, ReasonServerTimeout, ReasonTooManyRequests}. statusReason e = Some r)"

text \<open>Calls that were all the same and failed with such an error.\<close>

definition allTransient :: "request \<Rightarrow> (response \<Rightarrow> err + 'x) \<Rightarrow> trace \<Rightarrow> bool" where
  "allTransient q dec ts \<longleftrightarrow> (\<forall>(q', b) \<in> set ts. q' = q \<and> (\<exists>e. dec b = Inl e \<and> transientError e))"

section \<open>Lemmas\<close>

lemma retriable_iff: "retriable e \<longleftrightarrow> transientError e"
  by (auto simp: retriable_def transientError_def IsTimeout_def IsServerTimeout_def IsTooManyRequests_def)

lemma HubNamespaceNameFormat_inj: "HubNamespaceNameFormat a = HubNamespaceNameFormat b \<longleftrightarrow> a = b"
  by (simp add: HubNamespaceNameFormat_def)

lemma azure_error_classes:
  "AzIsNotFound e \<or> AzIsConflict e \<or> AzIsThrottled e \<or> AzIsForbidden e \<Longrightarrow> AzIsClientError e"
  by (auto simp: AzIsNotFound_def AzIsConflict_def AzIsThrottled_def AzIsForbidden_def AzIsClientError_def)

text \<open>What a retried closure keeps of the history and its object, the retries keep.\<close>

lemma wp_retryDo:
  assumes "retry_laws L" and "I h x"
    and "\<And>h x. I h x \<Longrightarrow> wp G (\<lambda>h' r. I h' (snd r) \<and> Q h' r) (f x) h"
  shows "wp G (\<lambda>h' r. I h' (snd r) \<and> Q h' r) (retryDo L f x) h"
  unfolding retryDo_def
  by (rule wp_OnError [where I = I]) (use assms in \<open>auto simp: retry_laws_def\<close>)

text \<open>A retried call that leaves the object as it is when it fails ends with the answer to its last attempt.\<close>

lemma wp_retryLoop_single:
  assumes "\<And>k. G (h @ k) (q x)" and d: "\<And>a e y. d x a = (Some e, y) \<Longrightarrow> y = x"
  shows "wp G (\<lambda>h' r. \<exists>k a. h' = h @ k @ [(q x, a)] \<and> r = d x a)
     (retryLoop n retr (\<lambda>x. call (q x) (d x)) x) h"
  using assms(1)
proof (induction n arbitrary: h)
  case 0
  from 0 [of "[]"] show ?case by (simp add: call_def)
next
  case (Suc n)
  let ?p = "retryLoop n retr (\<lambda>x. call (q x) (d x)) x"
  have again: "wp G (\<lambda>h' r. \<exists>k a. h' = h @ k @ [(q x, a)] \<and> r = d x a) ?p (h @ [(q x, b)])" for b
  proof (rule wp_conseq [OF Suc.IH])
    fix k
    from Suc.prems [of "(q x, b) # k"] show "G ((h @ [(q x, b)]) @ k) (q x)" by simp
  next
    fix h' r
    assume "\<exists>k a. h' = (h @ [(q x, b)]) @ k @ [(q x, a)] \<and> r = d x a"
    then obtain k a where "h' = h @ ((q x, b) # k) @ [(q x, a)]" "r = d x a" by auto
    then show "\<exists>k a. h' = h @ k @ [(q x, a)] \<and> r = d x a" by blast
  qed
  have last: "\<exists>k a. h @ [(q x, b)] = h @ k @ [(q x, a)] \<and> d x b = d x a" for b
    by (rule exI [of _ "[]"]) auto
  from Suc.prems [of "[]"] have "G h (q x)" by simp
  moreover have "wp G (\<lambda>h' r. \<exists>k a. h' = h @ k @ [(q x, a)] \<and> r = d x a)
      (case d x b of (r, y) \<Rightarrow> (case r of None \<Rightarrow> Ret (None, y)
        | Some e \<Rightarrow> if retr e then retryLoop n retr (\<lambda>x. call (q x) (d x)) y else Ret (Some e, y)))
      (h @ [(q x, b)])" for b
  proof (cases "d x b")
    case (Pair r y)
    with d [of b] again [of b] last [of b] show ?thesis by (auto split: option.splits)
  qed
  ultimately show ?case by (simp add: wp_bindP_call)
qed

lemma wp_retry_single:
  assumes "retry_laws L" and "\<And>k. G (h @ k) (q x)" and "\<And>a e y. d x a = (Some e, y) \<Longrightarrow> y = x"
  shows "wp G (\<lambda>h' r. \<exists>k a. h' = h @ k @ [(q x, a)] \<and> r = d x a) (retryDo L (\<lambda>x. call (q x) (d x)) x) h"
proof -
  let ?b = "(LibDefaultBackoff L)\<lparr>bo_CapMillis := 1000\<rparr>" and ?f = "\<lambda>x. call (q x) (d x)"
  have "0 < bo_Steps ?b" using assms(1) by (simp add: retry_laws_def)
  then obtain n where "LibOnError L ?b (\<lambda>e. retriable e) ?f = retryLoop n (\<lambda>e. retriable e) ?f"
    using assms(1) unfolding retry_laws_def by blast
  with wp_retryLoop_single [of G h q x d, OF assms(2,3)] show ?thesis by (simp add: retryDo_def)
qed

lemma wp_retry_call:
  assumes "retry_laws L" and "\<And>k. G (h @ k) (q x)"
  shows "wp G (\<lambda>h' r. \<exists>k a. h' = h @ k @ [(q x, a)] \<and> r = decUpd dec x a)
     (retryDo L (\<lambda>x. call (q x) (decUpd dec x)) x) h"
  by (rule wp_retry_single [OF assms(1)]) (use assms(2) in \<open>auto simp: decUpd_iff\<close>)

text \<open>
  The runs of a retried single call, whose failure leaves the object as it is: the program is about to make
  the call again, or it has returned the answer to its last attempt.
\<close>

lemma retryLoop_runs:
  assumes "steps (retryLoop n (\<lambda>e. retriable e) (\<lambda>x. call (q x) (decUpd dec x)) x) tr p"
  shows "(\<exists>k. p = Call (q x) k) \<and> length tr \<le> n \<and> allTransient (q x) dec tr \<or>
    (\<exists>ts a. p = Ret (decUpd dec x a) \<and> tr = ts @ [(q x, a)] \<and> length tr \<le> Suc n \<and> allTransient (q x) dec ts \<and>
       (\<forall>e. dec a = Inl e \<and> transientError e \<longrightarrow> length tr = Suc n))"
  using assms
proof (induction n arbitrary: tr)
  case 0
  then show ?case by (auto simp: call_def steps_Call allTransient_def)
next
  case (Suc n)
  let ?f = "\<lambda>x. call (q x) (decUpd dec x)"
  let ?rest = "\<lambda>a. case decUpd dec x a of (r, y) \<Rightarrow> (case r of None \<Rightarrow> Ret (None, y)
      | Some e \<Rightarrow> if retriable e then retryLoop n (\<lambda>e. retriable e) ?f y else Ret (Some e, y))"
  have unfold: "retryLoop (Suc n) (\<lambda>e. retriable e) ?f x = Call (q x) ?rest" by (simp add: call_def [of "q x" "decUpd dec x"])
  from Suc.prems [unfolded unfold] consider "tr = []" "p = Call (q x) ?rest" | a ts where "tr = (q x, a) # ts" "steps (?rest a) ts p"
    by (auto simp: steps_Call)
  then show ?case
  proof cases
    case 1
    then show ?thesis by (auto simp: allTransient_def)
  next
    case (2 a ts)
    show ?thesis
    proof (cases "\<exists>e. dec a = Inl e \<and> transientError e")
      case True
      then obtain e where "dec a = Inl e" "retriable e" by (auto simp: retriable_iff)
      with 2(2) have "steps (retryLoop n (\<lambda>e. retriable e) ?f x) ts p" by (simp add: decUpd_def)
      from Suc.IH [OF this] show ?thesis
      proof (elim disjE exE conjE)
        fix us b
        assume "p = Ret (decUpd dec x b)" "ts = us @ [(q x, b)]" "length ts \<le> Suc n" "allTransient (q x) dec us"
          "\<forall>e. dec b = Inl e \<and> transientError e \<longrightarrow> length ts = Suc n"
        with 2(1) True show ?thesis
          by (intro disjI2 exI [of _ "(q x, a) # us"] exI [of _ b]) (auto simp: allTransient_def)
      qed (use 2(1) True in \<open>auto simp: allTransient_def\<close>)
    next
      case False
      with 2(2) have "ts = [] \<and> p = Ret (decUpd dec x a)"
        by (auto simp: decUpd_def retriable_iff split: sum.splits if_splits)
      with 2(1) False show ?thesis by (intro disjI2 exI [of _ "[]"] exI [of _ a]) (auto simp: allTransient_def)
    qed
  qed
qed

text \<open>The runs of the waiting loop on a single call.\<close>

lemma backoffLoop_runs:
  assumes "steps (backoffLoop n te (waitCondition (call q dec)) s) tr (Ret (r, s'))"
  shows "length tr \<le> n \<and> (r = None \<longrightarrow> (\<exists>a e. (q, a) \<in> set tr \<and> dec a = Some e \<and> IsNotFound e))"
  using assms
proof (induction n arbitrary: tr s)
  case (Suc n)
  from Suc.prems obtain a ts where tr: "tr = (q, a) # ts"
    and rest: "steps (bindP (case dec a of None \<Rightarrow> Ret (False, None, None)
       | Some e \<Rightarrow> if IsNotFound e then Ret (True, None, s)
           else if retriable e then Ret (False, None, Some e) else Ret (False, Some e, s))
       (\<lambda>(ok, e, s'). if ok \<or> e \<noteq> None then Ret (e, s') else backoffLoop n te (waitCondition (call q dec)) s'))
       ts (Ret (r, s'))"
    by (auto simp: waitCondition_def [of "call q dec" s] bindP_assoc dest!: steps_bindP_call)
  show ?case
  proof (cases "\<exists>e. dec a = Some e \<and> (IsNotFound e \<or> \<not> retriable e)")
    case True
    with rest tr show ?thesis by (auto split: if_splits)
  next
    case False
    with rest obtain s2 where "steps (backoffLoop n te (waitCondition (call q dec)) s2) ts (Ret (r, s'))"
      by (auto split: option.splits if_splits)
    from Suc.IH [OF this] tr show ?thesis by auto
  qed
qed auto

section \<open>Properties\<close>

text \<open>C31. \<open>apiretry.Do\<close> on a call that writes an object always returns, and retries time-outs and too many requests
  and nothing else: there is a number of attempts, at most the steps of the default backoff, such that at every
  moment of a run either all attempts so far have failed with such an error, fewer than that number of them, and the
  call is made again; or the result is the result of the last attempt, all earlier ones have failed with such an
  error, and the last one failed with such an error only if the attempts are used up.\<close>

theorem retryDo_runs:
  assumes "retry_laws L"
  shows "\<exists>n < bo_Steps (LibDefaultBackoff L). \<forall>tr p. steps (retryDo L (\<lambda>x. call (q x) (decUpd dec x)) x) tr p \<longrightarrow>
    (\<exists>k. p = Call (q x) k) \<and> length tr \<le> n \<and> allTransient (q x) dec tr \<or>
    (\<exists>ts a. p = Ret (decUpd dec x a) \<and> tr = ts @ [(q x, a)] \<and> length tr \<le> Suc n \<and> allTransient (q x) dec ts \<and>
       (\<forall>e. dec a = Inl e \<and> transientError e \<longrightarrow> length tr = Suc n))"
proof -
  let ?b = "(LibDefaultBackoff L)\<lparr>bo_CapMillis := 1000\<rparr>" and ?f = "\<lambda>x. call (q x) (decUpd dec x)"
  have "0 < bo_Steps ?b" using assms by (simp add: retry_laws_def)
  then obtain n where n: "n < bo_Steps ?b" "LibOnError L ?b (\<lambda>e. retriable e) ?f = retryLoop n (\<lambda>e. retriable e) ?f"
    using assms unfolding retry_laws_def by blast
  show ?thesis
    by (rule exI [of _ n]) (use n retryLoop_runs [of n q dec x] in \<open>simp add: retryDo_def\<close>)
qed

theorem retryDo_runs_witness:
  "\<exists>tr r. playRet [RErr (StatusErr ReasonTimeout [] []), RErr (StatusErr ReasonConflict [] [])]
       (retryDo refLib (\<lambda>x. call (StatusUpdate Hub x) (decUpd (decObj KServiceImport) x)) (OSI demoImport)) = Some (tr, r) \<and>
     allTransient (StatusUpdate Hub (OSI demoImport)) (decObj KServiceImport) (take 1 tr) \<and> fst r = Some (StatusErr ReasonConflict [] [])"
proof -
  let ?as = "[RErr (StatusErr ReasonTimeout [] []), RErr (StatusErr ReasonConflict [] [])]"
  let ?p = "retryDo refLib (\<lambda>x. call (StatusUpdate Hub x) (decUpd (decObj KServiceImport) x)) (OSI demoImport)"
  have "map_option (\<lambda>(tr, r). (length tr, fst r)) (playRet ?as ?p) = Some (2, Some (StatusErr ReasonConflict [] []))" by code_simp
  then obtain tr r where tr: "playRet ?as ?p = Some (tr, r)" "length tr = 2" "fst r = Some (StatusErr ReasonConflict [] [])" by auto
  from retryDo_runs [OF refLib_retry_laws, of "StatusUpdate Hub" "decObj KServiceImport" "OSI demoImport"] playRet_steps [OF tr(1)]
  obtain ts a where "tr = ts @ [(StatusUpdate Hub (OSI demoImport), a)]" "allTransient (StatusUpdate Hub (OSI demoImport)) (decObj KServiceImport) ts"
    by blast
  with tr show ?thesis by auto
qed

text \<open>C32. \<open>apiretry.WaitUntilObjectDeleted\<close> on a single read: it returns nil only after the API
  server has answered NotFound, and it reads the object at most five times.\<close>

theorem WaitUntilObjectDeleted_runs:
  assumes "backoff_laws L" and "steps (WaitUntilObjectDeleted L (call q dec)) tr (Ret r)"
  shows "length tr \<le> 5 \<and> (r = None \<longrightarrow> (\<exists>a e. (q, a) \<in> set tr \<and> dec a = Some e \<and> IsNotFound e))"
proof -
  let ?b = "\<lparr>bo_Steps = 5, bo_DurationMillis = 500, bo_FactorTenths = 16, bo_JitterTenths = 2, bo_CapMillis = 5000\<rparr>"
  obtain n te where n: "n \<le> bo_Steps ?b"
    "LibExponentialBackoff L ?b (waitCondition (call q dec)) None = backoffLoop n te (waitCondition (call q dec)) None"
    using assms(1) unfolding backoff_laws_def by blast
  from steps_bindP [OF assms(2) [unfolded WaitUntilObjectDeleted_def]]
  obtain e s ts us where tr: "tr = ts @ us"
    and loop: "steps (backoffLoop n te (waitCondition (call q dec)) None) ts (Ret (e, s))"
    and rest: "steps (case e of None \<Rightarrow> Ret None | Some e \<Rightarrow> if LibInterrupted L e
         then (case s of None \<Rightarrow> Ret (Some (LibErrorInterrupted L (PlainErr ''timed out or the context ended'')))
               | Some l \<Rightarrow> Ret (Some l)) else Ret (Some e)) us (Ret r)"
    using n(2) by auto
  have "us = [] \<and> (r = None \<longrightarrow> e = None)" using rest by (auto split: option.splits if_splits)
  with backoffLoop_runs [OF loop] n(1) tr show ?thesis by auto
qed

theorem WaitUntilObjectDeleted_runs_witness:
  "length [(Now, ROk), (Now, RErr (StatusErr ReasonNotFound [] []))] \<le> 5 \<and>
   (\<exists>a e. (Now, a) \<in> set [(Now, ROk), (Now, RErr (StatusErr ReasonNotFound [] []))] \<and> decOk a = Some e \<and> IsNotFound e)"
proof -
  have "steps (WaitUntilObjectDeleted refLib (call Now decOk))
      [(Now, ROk), (Now, RErr (StatusErr ReasonNotFound [] []))] (Ret None)"
    by (rule playRet_steps [of "[ROk, RErr (StatusErr ReasonNotFound [] [])]"]) code_simp
  from WaitUntilObjectDeleted_runs [OF refLib_backoff_laws this] show ?thesis by blast
qed

end
