(* ===== verification/Hub_ServiceImport.thy ===== *)
theory Hub_ServiceImport
  imports Hub_InternalServiceExport ApiRetry
begin

text \<open>
  The ServiceImport controller of the hub cluster (\<open>pkg/controllers/hub/serviceimport/controller.go\<close>):
  it resolves the ports of a service that several clusters export. The first eligible export wins;
  the exports with the same ports are listed in the status of the service import, the others are
  reported in conflict; without an eligible export the service import is deleted.
\<close>

definition exportedServiceFieldNamespacedName :: string where
  "exportedServiceFieldNamespacedName = ''.spec.serviceReference.namespacedName''"

definition ClusterSetIP :: string where
  "ClusterSetIP = ''ClusterSetIP''"

section \<open>The controller\<close>

text \<open>The local variables of the loop over the exports: \<open>resolvedPortsSpec\<close> and \<open>statusChange\<close>.\<close>

record statusChange =
  sc_resolved :: "ServicePort list option"
  sc_conflict :: "InternalServiceExport list"
  sc_noConflict :: "InternalServiceExport list"

definition SIM_classify :: "Lib \<Rightarrow> InternalServiceExport \<Rightarrow> statusChange \<Rightarrow> statusChange" where
  "SIM_classify L v st =
     (if om_DeletionTimestamp (ise_ObjectMeta v) \<noteq> None then st
      else if \<not> LibContainsFinalizer L (ise_ObjectMeta v) InternalServiceExportFinalizer then st
      else
        let resolved = (case sc_resolved st of None \<Rightarrow> ises_Ports (ise_Spec v) | Some p \<Rightarrow> p);
            st1 = st\<lparr>sc_resolved := Some resolved\<rparr>
        in if resolved \<noteq> ises_Ports (ise_Spec v) then st1\<lparr>sc_conflict := sc_conflict st1 @ [v]\<rparr>
           else st1\<lparr>sc_noConflict := sc_noConflict st1 @ [v]\<rparr>)"

definition SIM_resolve :: "Lib \<Rightarrow> InternalServiceExport list \<Rightarrow> statusChange" where
  "SIM_resolve L items = fold (SIM_classify L) items \<lparr>sc_resolved = None, sc_conflict = [], sc_noConflict = []\<rparr>"

text \<open>
  \<open>updateInternalServiceExportWithRetry\<close> also changes the export it is given: the conditions are set
  before the call, and a successful call stores the server's object in it.
\<close>

definition SIM_markedExport :: "Lib \<Rightarrow> InternalServiceExport \<Rightarrow> bool \<Rightarrow> InternalServiceExport" where
  "SIM_markedExport L e conflict =
     (let desiredCond = (if conflict then ConflictedServiceExportConflictCondition e
                         else UnconflictedServiceExportConflictCondition e)
      in e\<lparr>ise_Conditions := LibSetStatusCondition L (ise_Conditions e) desiredCond\<rparr>)"

definition SIM_updateInternalServiceExportWithRetry ::
    "Lib \<Rightarrow> InternalServiceExport \<Rightarrow> bool \<Rightarrow> (err option \<times> InternalServiceExport) op" where
  "SIM_updateInternalServiceExportWithRetry L e conflict =
     (let desiredCond = (if conflict then ConflictedServiceExportConflictCondition e
                         else UnconflictedServiceExportConflictCondition e);
          currentCond = LibFindStatusCondition L (ise_Conditions e) ServiceExportConflict
      in if EqualCondition currentCond (Some desiredCond) then Ret (None, e)
         else
           let e1 = SIM_markedExport L e conflict in
           bindP (retryDo L (\<lambda>x. call (StatusUpdate Hub x) (decUpd (decObj KInternalServiceExport) x)) (OISE e1))
             (\<lambda>(er, x). Ret (er, asISE e1 x)))"

definition SIM_deleteServiceImport :: "ServiceImport \<Rightarrow> outcome op" where
  "SIM_deleteServiceImport s =
     bindP (eventf KServiceImport (si_ObjectMeta s) ''Normal'' ''NoExportedService''
        (''No exported service and deleting serviceImport '' @ om_Name (si_ObjectMeta s))) (\<lambda>_.
     bindP (deleteObj Hub KServiceImport (metaKey (si_ObjectMeta s))) (\<lambda>r.
       case r of Some e \<Rightarrow> Ret (emptyResult, IgnoreNotFound e) | None \<Rightarrow> Ret (emptyResult, None)))"

text \<open>
  The loop over the exports without conflict: the clusters of those that could be marked, and the
  exports as they are after their updates.
\<close>

definition SIM_markNoConflict :: "Lib \<Rightarrow> InternalServiceExport list \<Rightarrow>
    (outcome + (ClusterStatus list \<times> InternalServiceExport list)) op" where
  "SIM_markNoConflict L vs =
     forP vs ([], []) (\<lambda>v (clusters, upd).
       bindP (SIM_updateInternalServiceExportWithRetry L v False) (\<lambda>(er, v1).
         case er of
           Some e \<Rightarrow> if IsNotFound e then Ret (Inr (clusters, upd @ [v1])) else Ret (Inl (emptyResult, Some e))
         | None \<Rightarrow> Ret (Inr (clusters @ [\<lparr>cs_Cluster = clusterOf v1\<rparr>], upd @ [v1]))))"

definition SIM_markConflict :: "Lib \<Rightarrow> InternalServiceExport list \<Rightarrow> (outcome + unit) op" where
  "SIM_markConflict L vs =
     forP vs () (\<lambda>v _.
       bindP (SIM_updateInternalServiceExportWithRetry L v True) (\<lambda>(er, _).
         case er of
           Some e \<Rightarrow> Ret (Inl (emptyResult, IgnoreNotFound e))
         | None \<Rightarrow> Ret (Inr ())))"

text \<open>
  The variable \<open>resolvedPortsSpec\<close> points into the first eligible export, which is the first element
  of the list without conflict, so the ports that are written are those of that export after its
  own update.
\<close>

definition SIM_writeStatus :: "Lib \<Rightarrow> ServiceImport \<Rightarrow> ServicePort list \<Rightarrow> ClusterStatus list \<Rightarrow> outcome op" where
  "SIM_writeStatus L s ports clusters =
     (let s1 = s\<lparr>si_Status := zeroSIStatus\<lparr>sis_Ports := ports, sis_Clusters := clusters, sis_Type := ClusterSetIP\<rparr>\<rparr> in
      bindP (retryDo L (\<lambda>x. call (StatusUpdate Hub x) (decUpd (decObj KServiceImport) x)) (OSI s1)) (\<lambda>(er, x).
        case er of
          Some e \<Rightarrow> Ret (emptyResult, Some e)
        | None \<Rightarrow>
            let s2 = asSI s1 x in
            bindP (eventf KServiceImport (si_ObjectMeta s2) ''Normal'' ''SuccessfulUpdateStatus''
              (''Resolved exported service properties and updated '' @ om_Name (si_ObjectMeta s2) @ '' status''))
              (\<lambda>_. Ret (emptyResult, None))))"

definition SIM_applyChange :: "Lib \<Rightarrow> ServiceImport \<Rightarrow> statusChange \<Rightarrow> outcome op" where
  "SIM_applyChange L s change =
     bindP (SIM_markNoConflict L (sc_noConflict change)) (\<lambda>r.
       case r of
         Inl out \<Rightarrow> Ret out
       | Inr (clusters, upd) \<Rightarrow>
           if clusters = [] then Ret (\<lparr>res_Requeue = True, res_RequeueAfter = 0\<rparr>, None)
           else bindP (SIM_markConflict L (sc_conflict change)) (\<lambda>r2.
             case r2 of
               Inl out \<Rightarrow> Ret out
             | Inr _ \<Rightarrow> SIM_writeStatus L s (ises_Ports (ise_Spec (hd upd))) clusters))"

definition SIM_Reconcile :: "Lib \<Rightarrow> NamespacedName \<Rightarrow> outcome op" where
  "SIM_Reconcile L name =
     bindP (getSI Hub name) (\<lambda>r.
       case r of
         Inl e \<Rightarrow> if IsNotFound e then Ret (emptyResult, None) else Ret (emptyResult, Some e)
       | Inr s \<Rightarrow>
           if sis_Clusters (si_Status s) \<noteq> [] then Ret (emptyResult, None)
           else bindP (doList Hub KInternalServiceExport decISE
               (selAll\<lparr>sel_Field := Some (exportedServiceFieldNamespacedName,
                  nnString (om_Namespace (si_ObjectMeta s)) (om_Name (si_ObjectMeta s)))\<rparr>)) (\<lambda>lr.
             case lr of
               Inl e \<Rightarrow> Ret (emptyResult, Some e)
             | Inr items \<Rightarrow>
                 if items = [] then SIM_deleteServiceImport s
                 else
                   let change = SIM_resolve L items in
                   case sc_resolved change of
                     None \<Rightarrow> SIM_deleteServiceImport s
                   | Some _ \<Rightarrow> SIM_applyChange L s change))"

section \<open>What is said of the controller\<close>

definition eligible :: "InternalServiceExport \<Rightarrow> bool" where
  "eligible e \<longleftrightarrow> om_DeletionTimestamp (ise_ObjectMeta e) = None \<and> hasExportFinalizer e"

definition portsOf :: "InternalServiceExport \<Rightarrow> ServicePort list" where
  "portsOf e = ises_Ports (ise_Spec e)"

text \<open>The API server has reported or accepted the export with the conflict condition.\<close>

definition marked :: "Lib \<Rightarrow> trace \<Rightarrow> InternalServiceExport \<Rightarrow> bool \<Rightarrow> bool" where
  "marked L h e conflict \<longleftrightarrow>
     EqualCondition (LibFindStatusCondition L (ise_Conditions e) ServiceExportConflict)
       (Some (if conflict then ConflictedServiceExportConflictCondition e
              else UnconflictedServiceExportConflictCondition e)) \<or>
     (\<exists>y. (StatusUpdate Hub (OISE (SIM_markedExport L e conflict)), RObj (OISE y)) \<in> set h)"

definition reportedGone :: "Lib \<Rightarrow> trace \<Rightarrow> InternalServiceExport \<Rightarrow> bool \<Rightarrow> bool" where
  "reportedGone L h e conflict \<longleftrightarrow>
     (\<exists>er. (StatusUpdate Hub (OISE (SIM_markedExport L e conflict)), RErr er) \<in> set h \<and> IsNotFound er)"

text \<open>
  The status that may be written for a list of exports: the ports of the first eligible export; the
  clusters, at least one, of exports with these ports that were marked free of conflict, without
  leaving one out unless it is gone; and every eligible export with other ports marked in conflict.
\<close>

definition resolvedStatus :: "Lib \<Rightarrow> trace \<Rightarrow> InternalServiceExport list \<Rightarrow> ServiceImportStatus \<Rightarrow> bool" where
  "resolvedStatus L h items st \<longleftrightarrow>
     (let el = filter eligible items; win = filter (\<lambda>e. portsOf e = portsOf (hd el)) el in
      el \<noteq> [] \<and> sis_Ports st = portsOf (hd el) \<and> sis_Type st = ClusterSetIP \<and> sis_Clusters st \<noteq> [] \<and>
      (\<forall>c \<in> set (sis_Clusters st). \<exists>e \<in> set win. cs_Cluster c = clusterOf e \<and> marked L h e False) \<and>
      (\<forall>e \<in> set win. clusterOf e \<in> cs_Cluster ` set (sis_Clusters st) \<or> reportedGone L h e False) \<and>
      (\<forall>e \<in> set el. portsOf e \<noteq> portsOf (hd el) \<longrightarrow> marked L h e True))"

definition listedExports :: "trace \<Rightarrow> InternalServiceExport list \<Rightarrow> bool" where
  "listedExports h items \<longleftrightarrow>
     (\<exists>sel a. (ListObjs Hub KInternalServiceExport sel, a) \<in> set h \<and> decList decISE a = Inr items)"

text \<open>What the controller may do after a history.\<close>

definition SIM_guard :: "Lib \<Rightarrow> trace \<Rightarrow> request \<Rightarrow> bool" where
  "SIM_guard L h q \<longleftrightarrow>
     (\<forall>s. q = StatusUpdate Hub (OSI s) \<longrightarrow> echoesISE h \<longrightarrow>
        (\<exists>items. listedExports h items \<and> resolvedStatus L h items (si_Status s))) \<and>
     (\<forall>n. q = Delete Hub KServiceImport n \<longrightarrow> (\<exists>items. listedExports h items \<and> filter eligible items = []))"

text \<open>Objects for the examples: an export of \<open>work/app\<close> by \<open>c2\<close> with another port.\<close>

definition demoExportF2 :: InternalServiceExport where
  "demoExportF2 = demoExportF\<lparr>ise_Spec := (ise_Spec demoExportF)\<lparr>ises_Ports := [demoPort\<lparr>sp_Port := 81\<rparr>],
     ises_ServiceReference := (ises_ServiceReference (ise_Spec demoExportF))\<lparr>eor_ClusterID := ''c2''\<rparr>\<rparr>\<rparr>"

definition demoGoneTrace :: trace where
  "demoGoneTrace =
     [(StatusUpdate Hub (OISE demoExportOk), RObj (OISE demoExportOk)),
      (StatusUpdate Hub (OISE (SIM_markedExport refLib demoExportF2 True)), notFound)]"

text \<open>A pass over two exports, one of them with other ports; the server stores what it is sent.\<close>

definition demoResolutionAnswers :: "response list" where
  "demoResolutionAnswers = [RObj (OSI demoImport), RObjs [OISE demoExportF, OISE demoExportF2], RObj (OISE (SIM_markedExport refLib demoExportF False)),
     RObj (OISE (SIM_markedExport refLib demoExportF2 True)), RObj (OSI demoImport)]"

definition demoResolution :: trace where
  "demoResolution = fst (play demoResolutionAnswers (SIM_Reconcile refLib demoImportKey))"

definition demoResolved :: ServiceImport where
  "demoResolved = demoImport\<lparr>si_Status := zeroSIStatus\<lparr>sis_Ports := [demoPort], sis_Clusters := [\<lparr>cs_Cluster = ''c1''\<rparr>], sis_Type := ClusterSetIP\<rparr>\<rparr>"

section \<open>Lemmas: the resolution\<close>

lemma SIM_fold_classify:
  assumes "finalizer_laws L"
  shows "fold (SIM_classify L) items st =
    (let el = filter eligible items;
         p = (case sc_resolved st of Some p \<Rightarrow> p | None \<Rightarrow> portsOf (hd el))
     in if el = [] then st
        else \<lparr>sc_resolved = Some p, sc_conflict = sc_conflict st @ filter (\<lambda>e. portsOf e \<noteq> p) el,
              sc_noConflict = sc_noConflict st @ filter (\<lambda>e. portsOf e = p) el\<rparr>)"
proof (induction items arbitrary: st)
  case (Cons v vs)
  show ?case
  proof (cases "eligible v")
    case True
    let ?p = "case sc_resolved st of None \<Rightarrow> portsOf v | Some p \<Rightarrow> p"
    let ?st = "\<lparr>sc_resolved = Some ?p, sc_conflict = sc_conflict st @ (if portsOf v \<noteq> ?p then [v] else []),
         sc_noConflict = sc_noConflict st @ (if portsOf v = ?p then [v] else [])\<rparr>"
    have "SIM_classify L v st = ?st"
      using True finalizer_lawsD(1) [OF assms]
      by (cases st) (auto simp: SIM_classify_def eligible_def hasExportFinalizer_def portsOf_def Let_def
          split: option.splits)
    then have "fold (SIM_classify L) (v # vs) st = fold (SIM_classify L) vs ?st" by simp
    also have "\<dots> = (if filter eligible vs = [] then ?st
       else \<lparr>sc_resolved = Some ?p, sc_conflict = sc_conflict ?st @ filter (\<lambda>e. portsOf e \<noteq> ?p) (filter eligible vs),
             sc_noConflict = sc_noConflict ?st @ filter (\<lambda>e. portsOf e = ?p) (filter eligible vs)\<rparr>)"
      by (subst Cons.IH) (simp add: Let_def)
    finally have step: "fold (SIM_classify L) (v # vs) st = \<dots>" .
    have hd: "hd (filter eligible (v # vs)) = v" using True by simp
    show ?thesis
      unfolding step Let_def hd using True by (cases "filter eligible vs") (simp_all del: filter_filter)
  next
    case False
    then have "SIM_classify L v st = st"
      using finalizer_lawsD(1) [OF assms] by (auto simp: SIM_classify_def eligible_def hasExportFinalizer_def)
    with False show ?thesis by (simp add: Cons.IH)
  qed
qed simp

lemma SIM_resolve_eq:
  assumes "finalizer_laws L"
  shows "SIM_resolve L items =
    (let el = filter eligible items in
     if el = [] then \<lparr>sc_resolved = None, sc_conflict = [], sc_noConflict = []\<rparr>
     else \<lparr>sc_resolved = Some (portsOf (hd el)), sc_conflict = filter (\<lambda>e. portsOf e \<noteq> portsOf (hd el)) el,
           sc_noConflict = filter (\<lambda>e. portsOf e = portsOf (hd el)) el\<rparr>)"
  unfolding SIM_resolve_def SIM_fold_classify [OF assms] by (simp add: Let_def)

section \<open>Lemmas: marking the exports\<close>

lemma marked_mono: "marked L h e c \<Longrightarrow> marked L (h @ k) e c"
  by (auto simp: marked_def)

lemma reportedGone_mono: "reportedGone L h e c \<Longrightarrow> reportedGone L (h @ k) e c"
  by (auto simp: reportedGone_def)

lemma listedExports_mono: "listedExports h items \<Longrightarrow> listedExports (h @ k) items"
  by (auto simp: listedExports_def)

lemma SIM_guard_simps [simp]:
  "SIM_guard L h (Get c kd n)" "SIM_guard L h (ListObjs c kd sel)" "SIM_guard L h (StatusUpdate c (OISE e))"
  "SIM_guard L h (Eventf kd n t r m)"
  by (simp_all add: SIM_guard_def)

lemma portsOf_marked [simp]:
  "portsOf (SIM_markedExport L v c) = portsOf v" "clusterOf (SIM_markedExport L v c) = clusterOf v"
  by (simp_all add: SIM_markedExport_def portsOf_def clusterOf_def Let_def)

lemma echoes_portsOf:
  assumes "echoesISE (h @ [(StatusUpdate Hub (OISE e), RObj (OISE e'))])"
  shows "portsOf e' = portsOf e" "clusterOf e' = clusterOf e"
  using echoesISE_snoc(2) [OF assms] by (auto simp: portsOf_def clusterOf_def)

text \<open>What one marking shows, in the terms of the history.\<close>

definition markPost :: "Lib \<Rightarrow> InternalServiceExport \<Rightarrow> bool \<Rightarrow> trace \<Rightarrow> err option \<times> InternalServiceExport \<Rightarrow> bool" where
  "markPost L v c h r \<longleftrightarrow>
     (fst r = None \<longrightarrow> marked L h v c) \<and>
     (\<forall>e. fst r = Some e \<and> IsNotFound e \<longrightarrow> reportedGone L h v c) \<and>
     (echoesISE h \<longrightarrow> portsOf (snd r) = portsOf v \<and> clusterOf (snd r) = clusterOf v)"

lemma markPost_answer:
  assumes "(er, x) = decUpd (decObj KInternalServiceExport) (OISE (SIM_markedExport L v c)) a"
    and "h' = h @ [(StatusUpdate Hub (OISE (SIM_markedExport L v c)), a)]"
  shows "markPost L v c h' (er, asISE (SIM_markedExport L v c) x)"
proof (cases "decObj KInternalServiceExport a")
  case (Inl e)
  then have "er = Some e" "x = OISE (SIM_markedExport L v c)" using assms(1) by (simp_all add: decUpd_def)
  moreover have "reportedGone L h' v c" if "IsNotFound e"
    using decObj_NotFound [OF Inl that] that assms(2) by (auto simp: reportedGone_def)
  ultimately show ?thesis by (auto simp: markPost_def asISE_def)
next
  case (Inr y)
  then obtain e' where e': "a = RObj (OISE e')" "y = OISE e'" using kindOf_ISE by fastforce
  with Inr assms(1) have "er = None" "x = OISE e'" by (auto simp: decUpd_def)
  with e' assms(2) show ?thesis
    using echoes_portsOf [of h "SIM_markedExport L v c" e'] by (auto simp: markPost_def asISE_def marked_def)
qed

lemma mark_wp:
  assumes "retry_laws L"
  shows "wp (SIM_guard L) (\<lambda>h' r. markPost L v c h' r \<and> (\<exists>k. h' = h @ k))
     (SIM_updateInternalServiceExportWithRetry L v c) h"
proof -
  let ?q = "\<lambda>x. StatusUpdate Hub x" and ?e1 = "SIM_markedExport L v c"
  have "SIM_guard L (h @ k) (?q (OISE ?e1))" for k by simp
  from wp_retry_call [of L "SIM_guard L" h ?q "OISE ?e1" "decObj KInternalServiceExport", OF assms this]
  have "wp (SIM_guard L) (\<lambda>h' r. \<exists>k a. h' = h @ k @ [(?q (OISE ?e1), a)] \<and>
        r = decUpd (decObj KInternalServiceExport) (OISE ?e1) a)
      (retryDo L (\<lambda>x. call (?q x) (decUpd (decObj KInternalServiceExport) x)) (OISE ?e1)) h" .
  then have "wp (SIM_guard L) (\<lambda>h' r. markPost L v c h' (fst r, asISE ?e1 (snd r)) \<and> (\<exists>k. h' = h @ k))
      (retryDo L (\<lambda>x. call (?q x) (decUpd (decObj KInternalServiceExport) x)) (OISE ?e1)) h"
    by (rule wp_conseq) (auto intro!: markPost_answer [OF _ append_assoc [symmetric]] simp del: append_assoc)
  then have retried: "wp (SIM_guard L) (\<lambda>h' r. wp (SIM_guard L) (\<lambda>h' r. markPost L v c h' r \<and> (\<exists>k. h' = h @ k))
        (case r of (er, x) \<Rightarrow> Ret (er, asISE ?e1 x)) h')
      (retryDo L (\<lambda>x. call (?q x) (decUpd (decObj KInternalServiceExport) x)) (OISE ?e1)) h"
    by (rule wp_conseq) auto
  have "markPost L v c h (None, v)" if "EqualCondition (LibFindStatusCondition L (ise_Conditions v) ServiceExportConflict)
      (Some (if c then ConflictedServiceExportConflictCondition v else UnconflictedServiceExportConflictCondition v))"
    using that by (simp add: markPost_def marked_def)
  then show ?thesis
    using retried unfolding SIM_updateInternalServiceExportWithRetry_def Let_def by (simp add: wp_bindP)
qed

section \<open>Lemmas: the loops\<close>

definition noConflictInv :: "Lib \<Rightarrow> InternalServiceExport list \<Rightarrow> trace \<Rightarrow> ClusterStatus list \<times> InternalServiceExport list \<Rightarrow> bool" where
  "noConflictInv L pre h st \<longleftrightarrow>
     (case st of (clusters, upd) \<Rightarrow> length upd = length pre \<and>
       (echoesISE h \<longrightarrow> map portsOf upd = map portsOf pre \<and>
         (\<forall>c \<in> set clusters. \<exists>e \<in> set pre. cs_Cluster c = clusterOf e \<and> marked L h e False) \<and>
         (\<forall>e \<in> set pre. clusterOf e \<in> cs_Cluster ` set clusters \<or> reportedGone L h e False)))"

lemma noConflictInv_step:
  assumes "noConflictInv L pre h (clusters, upd)" and "markPost L v False h' (er, v1)" and "h' = h @ k"
  shows "er = None \<Longrightarrow> noConflictInv L (pre @ [v]) h' (clusters @ [\<lparr>cs_Cluster = clusterOf v1\<rparr>], upd @ [v1])"
    and "er = Some e \<Longrightarrow> IsNotFound e \<Longrightarrow> noConflictInv L (pre @ [v]) h' (clusters, upd @ [v1])"
proof -
  have mono: "marked L h x False \<Longrightarrow> marked L h' x False" "reportedGone L h x False \<Longrightarrow> reportedGone L h' x False" for x
    using assms(3) marked_mono reportedGone_mono by auto
  have echo: "echoesISE h' \<Longrightarrow> echoesISE h" using assms(3) echoesISE_prefix by auto
  have old: "length upd = length pre" "echoesISE h' \<Longrightarrow> map portsOf upd = map portsOf pre"
    "echoesISE h' \<Longrightarrow> \<forall>c \<in> set clusters. \<exists>e \<in> set pre. cs_Cluster c = clusterOf e \<and> marked L h' e False"
    "echoesISE h' \<Longrightarrow> \<forall>x \<in> set pre. clusterOf x \<in> cs_Cluster ` set clusters \<or> reportedGone L h' x False"
    using assms(1) echo mono unfolding noConflictInv_def prod.case by blast+
  have new: "er = None \<Longrightarrow> marked L h' v False" "er = Some e \<Longrightarrow> IsNotFound e \<Longrightarrow> reportedGone L h' v False"
    "echoesISE h' \<Longrightarrow> portsOf v1 = portsOf v \<and> clusterOf v1 = clusterOf v"
    using assms(2) by (auto simp: markPost_def)
  show "er = None \<Longrightarrow> noConflictInv L (pre @ [v]) h' (clusters @ [\<lparr>cs_Cluster = clusterOf v1\<rparr>], upd @ [v1])"
    using old new unfolding noConflictInv_def by simp
  show "er = Some e \<Longrightarrow> IsNotFound e \<Longrightarrow> noConflictInv L (pre @ [v]) h' (clusters, upd @ [v1])"
    using old new unfolding noConflictInv_def by simp
qed

lemma markNoConflict_wp:
  assumes "retry_laws L"
  shows "wp (SIM_guard L) (\<lambda>h' r. (\<forall>st. r = Inr st \<longrightarrow> noConflictInv L vs h' st) \<and> (\<exists>k. h' = h @ k))
     (SIM_markNoConflict L vs) h"
proof -
  have step: "wp (SIM_guard L) (\<lambda>h' r. case r of Inl a \<Rightarrow> True | Inr st' \<Rightarrow> noConflictInv L (pre @ [v]) h' st')
      (case st of (clusters, upd) \<Rightarrow>
       bindP (SIM_updateInternalServiceExportWithRetry L v False) (\<lambda>(er, v1).
         case er of
           Some e \<Rightarrow> if IsNotFound e then Ret (Inr (clusters, upd @ [v1])) else Ret (Inl (emptyResult, Some e))
         | None \<Rightarrow> Ret (Inr (clusters @ [\<lparr>cs_Cluster = clusterOf v1\<rparr>], upd @ [v1])))) h'"
    if "noConflictInv L pre h' st" for pre v st h'
  proof -
    obtain clusters upd where st: "st = (clusters, upd)" by (cases st)
    show ?thesis
      unfolding st prod.case wp_bindP
      by (rule wp_conseq [OF mark_wp [OF assms]])
        (use that noConflictInv_step [of L pre h' clusters upd v] in \<open>auto simp: st split: option.splits\<close>)
  qed
  have "wp (SIM_guard L) (\<lambda>h' r. \<forall>st. r = Inr st \<longrightarrow> noConflictInv L vs h' st) (SIM_markNoConflict L vs) h"
    unfolding SIM_markNoConflict_def
  proof (rule wp_forP_prefix [where I = "noConflictInv L"])
    show "noConflictInv L [] h ([], [])" by (simp add: noConflictInv_def)
  next
    fix pre x post s h'
    assume "noConflictInv L pre h' s"
    from step [OF this, of x]
    show "wp (SIM_guard L) (\<lambda>h' r. case r of Inl a \<Rightarrow> \<forall>st. Inl a = Inr st \<longrightarrow> noConflictInv L vs h' st
         | Inr s' \<Rightarrow> noConflictInv L (pre @ [x]) h' s')
        (case s of (clusters, upd) \<Rightarrow>
         bindP (SIM_updateInternalServiceExportWithRetry L x False) (\<lambda>(er, v1).
           case er of
             Some e \<Rightarrow> if IsNotFound e then Ret (Inr (clusters, upd @ [v1])) else Ret (Inl (emptyResult, Some e))
           | None \<Rightarrow> Ret (Inr (clusters @ [\<lparr>cs_Cluster = clusterOf v1\<rparr>], upd @ [v1])))) h'"
      by (rule wp_conseq) (auto split: sum.splits)
  qed simp
  from wp_ext [OF this] show ?thesis .
qed

lemma markConflict_wp:
  assumes "retry_laws L"
  shows "wp (SIM_guard L) (\<lambda>h' r. (r = Inr () \<longrightarrow> (\<forall>v \<in> set vs. marked L h' v True)) \<and> (\<exists>k. h' = h @ k))
     (SIM_markConflict L vs) h"
proof -
  have "wp (SIM_guard L) (\<lambda>h' r. r = Inr () \<longrightarrow> (\<forall>v \<in> set vs. marked L h' v True)) (SIM_markConflict L vs) h"
    unfolding SIM_markConflict_def
  proof (rule wp_forP_prefix [where I = "\<lambda>pre h _. \<forall>v \<in> set pre. marked L h v True"])
    fix pre x post h' and s :: unit
    assume pre: "\<forall>v \<in> set pre. marked L h' v True"
    show "wp (SIM_guard L) (\<lambda>h' r. case r of Inl a \<Rightarrow> Inl a = Inr () \<longrightarrow> (\<forall>v \<in> set vs. marked L h' v True)
         | Inr s' \<Rightarrow> \<forall>v \<in> set (pre @ [x]). marked L h' v True)
        (bindP (SIM_updateInternalServiceExportWithRetry L x True) (\<lambda>(er, _).
           case er of Some e \<Rightarrow> Ret (Inl (emptyResult, IgnoreNotFound e)) | None \<Rightarrow> Ret (Inr ()))) h'"
      unfolding wp_bindP
      by (rule wp_conseq [OF mark_wp [OF assms]])
        (use pre in \<open>auto simp: markPost_def marked_mono split: option.splits\<close>)
  qed simp_all
  from wp_ext [OF this] show ?thesis .
qed

section \<open>Lemmas: the whole pass\<close>

lemma resolvedStatus_mono: "resolvedStatus L h items st \<Longrightarrow> resolvedStatus L (h @ k) items st"
  unfolding resolvedStatus_def Let_def using marked_mono reportedGone_mono by metis

lemma writeStatus_wp:
  assumes "retry_laws L" and "listedExports h items"
    and "echoesISE h \<longrightarrow> resolvedStatus L h items
      (zeroSIStatus\<lparr>sis_Ports := ports, sis_Clusters := clusters, sis_Type := ClusterSetIP\<rparr>)"
  shows "wp (SIM_guard L) (\<lambda>_ _. True) (SIM_writeStatus L s ports clusters) h"
proof -
  let ?s1 = "s\<lparr>si_Status := zeroSIStatus\<lparr>sis_Ports := ports, sis_Clusters := clusters, sis_Type := ClusterSetIP\<rparr>\<rparr>"
  have "SIM_guard L (h @ k) (StatusUpdate Hub (OSI ?s1))" for k
    using assms(2,3) listedExports_mono resolvedStatus_mono echoesISE_prefix by (fastforce simp: SIM_guard_def)
  from wp_retry_call [of L "SIM_guard L" h "\<lambda>x. StatusUpdate Hub x" "OSI ?s1" "decObj KServiceImport", OF assms(1) this]
  show ?thesis
    unfolding SIM_writeStatus_def Let_def wp_bindP
    by (rule wp_conseq) (auto simp: prog_simps split: option.splits)
qed

lemma resolvedStatus_intro:
  assumes "filter eligible items = el" and "el \<noteq> []"
    and inv: "noConflictInv L (filter (\<lambda>e. portsOf e = portsOf (hd el)) el) h (clusters, upd)"
    and "\<forall>v \<in> set (filter (\<lambda>e. portsOf e \<noteq> portsOf (hd el)) el). marked L h v True"
    and "clusters \<noteq> []" and "echoesISE h"
  shows "resolvedStatus L h items
    (zeroSIStatus\<lparr>sis_Ports := ises_Ports (ise_Spec (hd upd)), sis_Clusters := clusters, sis_Type := ClusterSetIP\<rparr>)"
proof -
  obtain e0 es where el: "el = e0 # es" using assms(2) by (cases el) auto
  let ?win = "filter (\<lambda>e. portsOf e = portsOf (hd el)) el"
  have win: "?win \<noteq> []" "hd ?win = e0" using el by simp_all
  from inv assms(6) have "map portsOf upd = map portsOf ?win" by (simp add: noConflictInv_def)
  then have "upd \<noteq> [] \<and> portsOf (hd upd) = portsOf (hd ?win)"
    using win by (cases upd; cases ?win) auto
  then have "ises_Ports (ise_Spec (hd upd)) = portsOf (hd el)" using win el by (simp add: portsOf_def)
  with inv assms show ?thesis
    unfolding resolvedStatus_def Let_def by (simp add: noConflictInv_def)
qed

lemma applyChange_wp:
  assumes "finalizer_laws L" and "retry_laws L" and "listedExports h items" and "filter eligible items \<noteq> []"
  shows "wp (SIM_guard L) (\<lambda>_ _. True) (SIM_applyChange L s (SIM_resolve L items)) h"
proof -
  let ?el = "filter eligible items"
  let ?win = "filter (\<lambda>e. portsOf e = portsOf (hd ?el)) ?el" and ?lose = "filter (\<lambda>e. portsOf e \<noteq> portsOf (hd ?el)) ?el"
  have res: "sc_noConflict (SIM_resolve L items) = ?win" "sc_conflict (SIM_resolve L items) = ?lose"
    using SIM_resolve_eq [OF assms(1)] assms(4) by (simp_all add: Let_def del: filter_filter)
  have wr: "wp (SIM_guard L) (\<lambda>_ _. True) (case r2 of Inl out \<Rightarrow> Ret out
      | Inr _ \<Rightarrow> SIM_writeStatus L s (ises_Ports (ise_Spec (hd upd))) clusters) (h @ k @ k2)"
    if "noConflictInv L ?win (h @ k) (clusters, upd)" "clusters \<noteq> []"
      and "r2 = Inr () \<longrightarrow> (\<forall>v \<in> set ?lose. marked L (h @ k @ k2) v True)" for k k2 r2 clusters upd
  proof (cases r2)
    case (Inr u)
    have "noConflictInv L ?win (h @ k @ k2) (clusters, upd)"
      using that(1) unfolding noConflictInv_def prod.case
      by (metis append.assoc echoesISE_prefix marked_mono reportedGone_mono)
    then have "echoesISE (h @ k @ k2) \<longrightarrow> resolvedStatus L (h @ k @ k2) items (zeroSIStatus\<lparr>sis_Ports :=
        ises_Ports (ise_Spec (hd upd)), sis_Clusters := clusters, sis_Type := ClusterSetIP\<rparr>)"
      using resolvedStatus_intro [OF refl assms(4)] that(2,3) Inr by simp
    with writeStatus_wp [OF assms(2) listedExports_mono [OF assms(3)]] Inr show ?thesis by simp
  qed simp
  have conflicts: "wp (SIM_guard L) (\<lambda>_ _. True) (bindP (SIM_markConflict L ?lose) (\<lambda>r2.
        case r2 of Inl out \<Rightarrow> Ret out
        | Inr _ \<Rightarrow> SIM_writeStatus L s (ises_Ports (ise_Spec (hd upd))) clusters)) (h @ k)"
    if "noConflictInv L ?win (h @ k) (clusters, upd)" "clusters \<noteq> []" for k clusters upd
    by (rule wp_bindI [OF markConflict_wp [OF assms(2)]]) (use wr [OF that] in \<open>auto simp del: filter_filter\<close>)
  show ?thesis
    unfolding SIM_applyChange_def res
  proof (rule wp_bindI [OF markNoConflict_wp [OF assms(2)]])
    fix h' and r :: "outcome + (ClusterStatus list \<times> InternalServiceExport list)"
    assume "(\<forall>st. r = Inr st \<longrightarrow> noConflictInv L ?win h' st) \<and> (\<exists>k. h' = h @ k)"
    then show "wp (SIM_guard L) (\<lambda>_ _. True) (case r of Inl out \<Rightarrow> Ret out
        | Inr (clusters, upd) \<Rightarrow> if clusters = [] then Ret (\<lparr>res_Requeue = True, res_RequeueAfter = 0\<rparr>, None)
           else bindP (SIM_markConflict L ?lose) (\<lambda>r2. case r2 of Inl out \<Rightarrow> Ret out
             | Inr _ \<Rightarrow> SIM_writeStatus L s (ises_Ports (ise_Spec (hd upd))) clusters)) h'"
      using conflicts by (cases r) (auto simp del: filter_filter)
  qed
qed

lemma deleteServiceImport_wp:
  assumes "listedExports h items" and "filter eligible items = []"
  shows "wp (SIM_guard L) (\<lambda>_ _. True) (SIM_deleteServiceImport s) h"
proof -
  have "SIM_guard L (h @ k) (Delete Hub KServiceImport n)" for k n
    using assms listedExports_mono by (fastforce simp: SIM_guard_def)
  then show ?thesis by (auto simp: SIM_deleteServiceImport_def prog_simps split: option.splits)
qed

lemma SIM_Reconcile_wp:
  assumes "finalizer_laws L" and "retry_laws L"
  shows "wp (SIM_guard L) (\<lambda>_ _. True) (SIM_Reconcile L n) h"
proof -
  have listed: "listedExports (h @ [(Get Hub KServiceImport n, RObj (OSI s)), (ListObjs Hub KInternalServiceExport sel, a)]) items"
    if "decList decISE a = Inr items" for s sel a items
    using that by (auto simp: listedExports_def)
  have none: "filter eligible items = []" if "sc_resolved (SIM_resolve L items) = None" for items
    using that SIM_resolve_eq [OF assms(1)] by (auto simp: Let_def split: if_splits)
  have some: "filter eligible items \<noteq> []" if "sc_resolved (SIM_resolve L items) = Some p" for items p
    using that SIM_resolve_eq [OF assms(1)] by (auto simp: Let_def split: if_splits)
  show ?thesis
    unfolding SIM_Reconcile_def
    by (auto simp: prog_simps Let_def split: sum.splits option.splits
        intro: deleteServiceImport_wp [OF listed] deleteServiceImport_wp [OF listed none]
          applyChange_wp [OF assms listed some])
qed

text \<open>Progress: where a pass that reports success can end.\<close>

definition statusWritten :: "trace \<Rightarrow> bool" where
  "statusWritten h \<longleftrightarrow> (\<exists>s y. (StatusUpdate Hub (OSI s), RObj (OSI y)) \<in> set h)"

definition SIM_done :: "Lib \<Rightarrow> InternalServiceExport list \<Rightarrow> trace \<Rightarrow> outcome \<Rightarrow> bool" where
  "SIM_done L items h out \<longleftrightarrow>
     (out = (emptyResult, None) \<longrightarrow> statusWritten h \<or>
       (\<exists>e \<in> set items. eligible e \<and> portsOf e \<noteq> portsOf (hd (filter eligible items)) \<and> reportedGone L h e True))"

lemma mark_true:
  assumes "retry_laws L"
  shows "wp (\<lambda>_ _. True) (markPost L v c) (SIM_updateInternalServiceExportWithRetry L v c) h"
  by (rule wp_conseq [OF mark_wp [OF assms]]) auto

lemma markNoConflict_done:
  assumes "retry_laws L"
  shows "wp (\<lambda>_ _. True) (\<lambda>h' r. \<forall>out. r = Inl out \<longrightarrow> SIM_done L items h' out) (SIM_markNoConflict L vs) h"
  unfolding SIM_markNoConflict_def
  by (rule wp_forP [where I = "\<lambda>_ _. True"])
    (auto split: prod.splits option.splits sum.splits simp: SIM_done_def intro!: wp_bindI [OF mark_true [OF assms]])

lemma markConflict_done:
  assumes "retry_laws L" and "set vs = {e \<in> set items. eligible e \<and> portsOf e \<noteq> portsOf (hd (filter eligible items))}"
  shows "wp (\<lambda>_ _. True) (\<lambda>h' r. \<forall>out. r = Inl out \<longrightarrow> SIM_done L items h' out) (SIM_markConflict L vs) h"
  unfolding SIM_markConflict_def
proof (rule wp_forP [where I = "\<lambda>_ _. True"])
  fix x h' and s :: unit
  assume "x \<in> set vs"
  then have x: "x \<in> set items \<and> eligible x \<and> portsOf x \<noteq> portsOf (hd (filter eligible items))" using assms(2) by blast
  show "wp (\<lambda>_ _. True) (\<lambda>h' r. case r of Inl a \<Rightarrow> \<forall>out. Inl a = Inl out \<longrightarrow> SIM_done L items h' out | Inr s' \<Rightarrow> True)
      (bindP (SIM_updateInternalServiceExportWithRetry L x True) (\<lambda>(er, _).
         case er of Some e \<Rightarrow> Ret (Inl (emptyResult, IgnoreNotFound e)) | None \<Rightarrow> Ret (Inr ()))) h'"
    by (rule wp_bindI [OF mark_true [OF assms(1)]])
      (use x in \<open>auto simp: markPost_def SIM_done_def IgnoreNotFound_def split: option.splits if_splits\<close>)
qed auto

lemma writeStatus_done:
  assumes "retry_laws L"
  shows "wp (\<lambda>_ _. True) (SIM_done L items) (SIM_writeStatus L s ports clusters) h"
proof -
  let ?s1 = "s\<lparr>si_Status := zeroSIStatus\<lparr>sis_Ports := ports, sis_Clusters := clusters, sis_Type := ClusterSetIP\<rparr>\<rparr>"
  have ok: "statusWritten (h @ k @ (StatusUpdate Hub (OSI ?s1), a) # k2)" if "decObj KServiceImport a = Inr x" for a x k k2
  proof -
    from that have "\<exists>y. x = OSI y" by (cases x) (simp_all add: kindOf_def)
    with that show ?thesis by (auto simp: statusWritten_def)
  qed
  show ?thesis
    unfolding SIM_writeStatus_def Let_def
    by (rule wp_bindI [OF wp_retry_call [OF assms]])
      (auto simp: prog_simps decUpd_iff SIM_done_def ok simp del: decObj_Inr)
qed

lemma SIM_Reconcile_done:
  assumes "finalizer_laws L" and "retry_laws L" and "filter eligible items \<noteq> []"
  shows "wp (\<lambda>_ _. True) (SIM_done L items) (SIM_applyChange L s (SIM_resolve L items)) h"
proof -
  have lose: "set (sc_conflict (SIM_resolve L items)) =
      {e \<in> set items. eligible e \<and> portsOf e \<noteq> portsOf (hd (filter eligible items))}"
    using SIM_resolve_eq [OF assms(1)] assms(3) by (auto simp: Let_def)
  have conflicts: "wp (\<lambda>_ _. True) (SIM_done L items) (bindP (SIM_markConflict L (sc_conflict (SIM_resolve L items)))
      (\<lambda>r2. case r2 of Inl out \<Rightarrow> Ret out | Inr _ \<Rightarrow> SIM_writeStatus L s ports clusters)) h'" for ports clusters h'
    by (rule wp_bindI [OF markConflict_done [OF assms(2) lose]])
      (auto split: sum.splits intro: writeStatus_done [OF assms(2)])
  have requeue: "SIM_done L items h' (\<lparr>res_Requeue = True, res_RequeueAfter = 0\<rparr>, None)" for h'
    by (simp add: SIM_done_def emptyResult_def)
  show ?thesis
    unfolding SIM_applyChange_def
    by (rule wp_bindI [OF markNoConflict_done [OF assms(2)]])
      (auto split: sum.splits simp: requeue intro: conflicts)
qed

section \<open>Lemmas: the example\<close>

lemma demoResolution_history:
  "take 4 demoResolution = [(Get Hub KServiceImport demoImportKey, RObj (OSI demoImport)),
      (ListObjs Hub KInternalServiceExport (selAll\<lparr>sel_Field := Some (exportedServiceFieldNamespacedName, ''work/app'')\<rparr>), RObjs [OISE demoExportF, OISE demoExportF2]),
      (StatusUpdate Hub (OISE (SIM_markedExport refLib demoExportF False)), RObj (OISE (SIM_markedExport refLib demoExportF False))),
      (StatusUpdate Hub (OISE (SIM_markedExport refLib demoExportF2 True)), RObj (OISE (SIM_markedExport refLib demoExportF2 True)))]"
  by code_simp

lemma demoResolution_writes: "demoResolution ! 4 = (StatusUpdate Hub (OSI demoResolved), RObj (OSI demoImport))"
  by code_simp

lemma demoResolution_sends: "fst (demoResolution ! 4) = StatusUpdate Hub (OSI demoResolved)"
  by (simp add: demoResolution_writes)

lemma demoResolution_length: "4 < length demoResolution"
  by code_simp

lemma demoResolution_steps: "steps (SIM_Reconcile refLib demoImportKey) demoResolution (snd (play demoResolutionAnswers (SIM_Reconcile refLib demoImportKey)))"
  unfolding demoResolution_def by (rule play_trace_steps) simp

lemma demoResolution_echoes: "echoesISE (take 4 demoResolution)"
proof -
  have "\<exists>v. e = e\<lparr>ise_ObjectMeta := (ise_ObjectMeta e)\<lparr>om_ResourceVersion := v\<rparr>\<rparr>" for e :: InternalServiceExport
    by (rule exI [of _ "om_ResourceVersion (ise_ObjectMeta e)"]) simp
  then show ?thesis by (simp add: demoResolution_history echoesISE_def)
qed

lemma demoResolution_lists: "listedExports (take 4 demoResolution) items \<Longrightarrow> items = [demoExportF, demoExportF2]"
  by (auto simp: demoResolution_history listedExports_def decList_def decISE_def)

section \<open>Properties\<close>

text \<open>C12. The loop that resolves a service is the intended partition: among the exports that are not
  being deleted and carry the finalizer, the ports of the first are the resolved ports, the exports
  with the same ports are free of conflict and the others are in conflict, each in list order;
  without such an export nothing is resolved.\<close>

theorem SIM_resolve_partition:
  assumes "finalizer_laws L"
  shows "SIM_resolve L items =
    (let el = filter eligible items in
     if el = [] then \<lparr>sc_resolved = None, sc_conflict = [], sc_noConflict = []\<rparr>
     else \<lparr>sc_resolved = Some (portsOf (hd el)), sc_conflict = filter (\<lambda>e. portsOf e \<noteq> portsOf (hd el)) el,
           sc_noConflict = filter (\<lambda>e. portsOf e = portsOf (hd el)) el\<rparr>)"
  by (rule SIM_resolve_eq [OF assms])

theorem SIM_resolve_partition_witness:
  "SIM_resolve refLib [demoExport, demoExportF, demoExportF2] =
     \<lparr>sc_resolved = Some [demoPort], sc_conflict = [demoExportF2], sc_noConflict = [demoExportF]\<rparr>"
  unfolding SIM_resolve_partition [OF refLib_finalizer_laws] by code_simp



text \<open>Whatever the API server answers, the controller deletes a service import only after a list
  of its exports in which none is eligible (each is being deleted or lacks the finalizer).\<close>

theorem SIM_deletes_only_unexported:
  assumes "finalizer_laws L" and "retry_laws L" and "steps (SIM_Reconcile L n) tr p"
  shows "guarded (\<lambda>h q. \<forall>m. q = Delete Hub KServiceImport m \<longrightarrow>
    (\<exists>items. listedExports h items \<and> filter eligible items = [])) [] tr"
  by (rule guarded_mono [OF wp_guarded [OF assms(3) SIM_Reconcile_wp [OF assms(1,2)]]]) (simp add: SIM_guard_def)

theorem SIM_deletes_only_unexported_witness:
  "guarded (\<lambda>h q. \<forall>m. q = Delete Hub KServiceImport m \<longrightarrow>
     (\<exists>items. listedExports h items \<and> filter eligible items = [])) []
   (fst (play [RObj (OSI demoImport), RObjs [OISE demoExport], ROk, ROk] (SIM_Reconcile refLib demoImportKey))) \<and>
   fst (last (fst (play [RObj (OSI demoImport), RObjs [OISE demoExport], ROk, ROk] (SIM_Reconcile refLib demoImportKey)))) =
     Delete Hub KServiceImport demoImportKey"
proof -
  let ?as = "[RObj (OSI demoImport), RObjs [OISE demoExport], ROk, ROk]"
  have "steps (SIM_Reconcile refLib demoImportKey) (fst (play ?as (SIM_Reconcile refLib demoImportKey)))
      (snd (play ?as (SIM_Reconcile refLib demoImportKey)))"
    by (rule play_trace_steps) simp
  from SIM_deletes_only_unexported [OF refLib_finalizer_laws refLib_retry_laws this]
  show ?thesis by (rule conjI) code_simp
qed

text \<open>C26. Progress: once the exports are resolved, a pass that reports success without asking for a
  retry has written the status of the service import, or has been told that an export in conflict
  is gone. In the second case nothing is written although the resolution is complete.\<close>

theorem SIM_success_means_written:
  assumes "finalizer_laws L" and "retry_laws L" and "filter eligible items \<noteq> []"
    and "steps (SIM_applyChange L s (SIM_resolve L items)) tr (Ret (emptyResult, None))"
  shows "statusWritten tr \<or>
    (\<exists>e \<in> set items. eligible e \<and> portsOf e \<noteq> portsOf (hd (filter eligible items)) \<and> reportedGone L tr e True)"
  using wp_result [OF assms(4) refl SIM_Reconcile_done [OF assms(1-3)], of "[]"] by (simp add: SIM_done_def)

theorem SIM_success_means_written_witness:
  "(statusWritten demoGoneTrace \<or>
     (\<exists>e \<in> set [demoExportF, demoExportF2]. eligible e \<and>
        portsOf e \<noteq> portsOf (hd (filter eligible [demoExportF, demoExportF2])) \<and> reportedGone refLib demoGoneTrace e True)) \<and>
   filter (\<lambda>q. reqKind (fst q) = Some KServiceImport) demoGoneTrace = []"
proof -
  have el: "filter eligible [demoExportF, demoExportF2] \<noteq> []" by code_simp
  have "steps (SIM_applyChange refLib demoImport (SIM_resolve refLib [demoExportF, demoExportF2]))
      demoGoneTrace (Ret (emptyResult, None))"
    by (rule playRet_steps [of "[RObj (OISE demoExportOk), notFound]"]) code_simp
  from SIM_success_means_written [OF refLib_finalizer_laws refLib_retry_laws el this]
  show ?thesis by (rule conjI) code_simp
qed

end
