(* ===== verification/Json.thy ===== *)
theory Json
  imports ApiTypes "HOL-Library.List_Lexorder" "HOL-Library.Char_ord"
begin

text \<open>
  What the InternalServiceImport and EndpointSliceExport controllers use of \<open>encoding/json\<close>: the
  text of a \<open>ServiceInUseBy\<close> value, which is kept in an annotation of the service import, and the
  value of a text, which a user may have edited. Texts and values are valid UTF-8.
\<close>

section \<open>JSON values and their syntax\<close>

datatype json =
    JNull | JBool bool | JNum string | JStr string | JArr "json list" | JObj "(string \<times> json) list"

definition isSpace :: "char \<Rightarrow> bool" where
  "isSpace c = (of_char c \<in> {9, 10, 13, 32 :: nat})"

definition skipws :: "string \<Rightarrow> string" where
  "skipws s = dropWhile isSpace s"

definition quoteChar :: char where "quoteChar = CHR 0x22"
definition backslash :: char where "backslash = CHR 0x5C"

definition hexVal :: "char \<Rightarrow> nat option" where
  "hexVal c = (let n = of_char c in
     if 48 \<le> n \<and> n \<le> 57 then Some (n - 48)
     else if 97 \<le> n \<and> n \<le> 102 then Some (n - 87)
     else if 65 \<le> n \<and> n \<le> 70 then Some (n - 55) else None)"

definition hex4 :: "char \<Rightarrow> char \<Rightarrow> char \<Rightarrow> char \<Rightarrow> nat option" where
  "hex4 a b c d = (case (hexVal a, hexVal b, hexVal c, hexVal d) of
     (Some w, Some x, Some y, Some z) \<Rightarrow> Some (((w * 16 + x) * 16 + y) * 16 + z) | _ \<Rightarrow> None)"

text \<open>The UTF-8 encoding of a code point.\<close>

definition utf8 :: "nat \<Rightarrow> string" where
  "utf8 n =
     (if n < 128 then [char_of n]
      else if n < 2048 then [char_of (192 + n div 64), char_of (128 + n mod 64)]
      else if n < 65536 then
        [char_of (224 + n div 4096), char_of (128 + n div 64 mod 64), char_of (128 + n mod 64)]
      else [char_of (240 + n div 262144), char_of (128 + n div 4096 mod 64),
            char_of (128 + n div 64 mod 64), char_of (128 + n mod 64)])"

definition replacementRune :: nat where
  "replacementRune = 65533"

definition consTo :: "string \<Rightarrow> (string \<times> string) option \<Rightarrow> (string \<times> string) option" where
  "consTo s r = map_option (\<lambda>(t, rest). (s @ t, rest)) r"

text \<open>The characters named by the two-character escapes.\<close>

definition simpleEscape :: "char \<Rightarrow> char option" where
  "simpleEscape e =
     (if e = quoteChar \<or> e = backslash \<or> e = CHR ''/'' then Some e
      else if e = CHR ''b'' then Some (CHR 0x08) else if e = CHR ''f'' then Some (CHR 0x0C)
      else if e = CHR ''n'' then Some (CHR 0x0A) else if e = CHR ''r'' then Some (CHR 0x0D)
      else if e = CHR ''t'' then Some (CHR 0x09) else None)"

text \<open>
  The rest of a string literal after its opening quote: the contents and what follows the closing
  quote. A pair of surrogates is one code point; a lone surrogate is the replacement character.
\<close>

fun pstring :: "string \<Rightarrow> (string \<times> string) option" where
  "pstring [] = None"
| "pstring (c # cs) =
     (if c = quoteChar then Some ([], cs)
      else if c = backslash then
        (case cs of
           [] \<Rightarrow> None
         | e # r \<Rightarrow>
             (case simpleEscape e of
                Some x \<Rightarrow> consTo [x] (pstring r)
              | None \<Rightarrow>
                  if e \<noteq> CHR ''u'' then None
                  else
                    (case r of
                       h1 # h2 # h3 # h4 # r2 \<Rightarrow>
                         (case hex4 h1 h2 h3 h4 of
                            None \<Rightarrow> None
                          | Some n \<Rightarrow>
                              if n < 55296 \<or> n \<ge> 57344 then consTo (utf8 n) (pstring r2)
                              else
                                (case r2 of
                                   b2 # u2 # g1 # g2 # g3 # g4 # r3 \<Rightarrow>
                                     (case hex4 g1 g2 g3 g4 of
                                        Some m \<Rightarrow>
                                          if b2 = backslash \<and> u2 = CHR ''u'' \<and> n < 56320 \<and> 56320 \<le> m \<and> m < 57344
                                          then consTo (utf8 ((n - 55296) * 1024 + (m - 56320) + 65536)) (pstring r3)
                                          else consTo (utf8 replacementRune) (pstring r2)
                                      | None \<Rightarrow> consTo (utf8 replacementRune) (pstring r2))
                                 | _ \<Rightarrow> consTo (utf8 replacementRune) (pstring r2)))
                     | _ \<Rightarrow> None)))
      else if of_char c < (32 :: nat) then None
      else consTo [c] (pstring cs))"

text \<open>A number: an optional sign, an integer part without leading zeros, fraction, exponent.\<close>

definition pdigits :: "string \<Rightarrow> string option" where
  "pdigits s = (if takeWhile is_digit s = [] then None else Some (dropWhile is_digit s))"

definition pexponent :: "string \<Rightarrow> string option" where
  "pexponent s =
     (case s of
        e # r \<Rightarrow>
          if e = CHR ''e'' \<or> e = CHR ''E'' then
            pdigits (case r of g # r2 \<Rightarrow> if g = CHR ''+'' \<or> g = CHR ''-'' then r2 else r | [] \<Rightarrow> [])
          else Some s
      | [] \<Rightarrow> Some [])"

definition pfraction :: "string \<Rightarrow> string option" where
  "pfraction s =
     (case s of
        d # r \<Rightarrow> if d = CHR ''.'' then Option.bind (pdigits r) pexponent else pexponent s
      | [] \<Rightarrow> Some [])"

definition pnumber :: "string \<Rightarrow> (json \<times> string) option" where
  "pnumber s =
     (let r = (case s of c # cs \<Rightarrow> if c = CHR ''-'' then cs else s | [] \<Rightarrow> []);
          rest = (case r of
                    c # cs \<Rightarrow> if c = CHR ''0'' then pfraction cs
                              else Option.bind (pdigits r) pfraction
                  | [] \<Rightarrow> None)
      in map_option (\<lambda>x. (JNum (take (length s - length x) s), x)) rest)"

definition pliteral :: "string \<Rightarrow> (json \<times> string) option" where
  "pliteral s =
     (if HasPrefix s ''true'' then Some (JBool True, drop 4 s)
      else if HasPrefix s ''false'' then Some (JBool False, drop 5 s)
      else if HasPrefix s ''null'' then Some (JNull, drop 4 s)
      else pnumber s)"

text \<open>
  Values, the members of an object after its opening brace, and the elements of an array after its
  opening bracket. A recursive call is made on a shorter text only; the tests on the lengths are
  what the termination proof uses.
\<close>

function (sequential) pvalue :: "string \<Rightarrow> (json \<times> string) option"
  and pmembers :: "string \<Rightarrow> ((string \<times> json) list \<times> string) option"
  and pelems :: "string \<Rightarrow> (json list \<times> string) option" where
  "pvalue s =
     (case skipws s of
        [] \<Rightarrow> None
      | c # r \<Rightarrow>
          if c = CHR ''{'' then
            (case skipws r of
               [] \<Rightarrow> None
             | d # r2 \<Rightarrow>
                 if d = CHR ''}'' then Some (JObj [], r2)
                 else if length (d # r2) < length s then map_option (\<lambda>(m, x). (JObj m, x)) (pmembers (d # r2))
                 else None)
          else if c = CHR ''['' then
            (case skipws r of
               [] \<Rightarrow> None
             | d # r2 \<Rightarrow>
                 if d = CHR '']'' then Some (JArr [], r2)
                 else if length (d # r2) < length s then map_option (\<lambda>(m, x). (JArr m, x)) (pelems (d # r2))
                 else None)
          else if c = quoteChar then map_option (\<lambda>(t, x). (JStr t, x)) (pstring r)
          else pliteral (c # r))"
| "pmembers s =
     (case s of
        [] \<Rightarrow> None
      | c # r \<Rightarrow>
          if c \<noteq> quoteChar then None
          else
            (case pstring r of
               None \<Rightarrow> None
             | Some (k, r1) \<Rightarrow>
                 (case skipws r1 of
                    [] \<Rightarrow> None
                  | d # r2 \<Rightarrow>
                      if d \<noteq> CHR '':'' \<or> \<not> length r2 < length s then None
                      else
                        (case pvalue r2 of
                           None \<Rightarrow> None
                         | Some (v, r3) \<Rightarrow>
                             (case skipws r3 of
                                [] \<Rightarrow> None
                              | f # r4 \<Rightarrow>
                                  if f = CHR ''}'' then Some ([(k, v)], r4)
                                  else if f = CHR '','' \<and> length (skipws r4) < length s then
                                    map_option (\<lambda>(m, x). ((k, v) # m, x)) (pmembers (skipws r4))
                                  else None)))))"
| "pelems s =
     (case pvalue s of
        None \<Rightarrow> None
      | Some (v, r3) \<Rightarrow>
          (case skipws r3 of
             [] \<Rightarrow> None
           | f # r4 \<Rightarrow>
               if f = CHR '']'' then Some ([v], r4)
               else if f = CHR '','' \<and> length r4 < length s then map_option (\<lambda>(m, x). (v # m, x)) (pelems r4)
               else None))"
  by pat_completeness auto

termination
  by (relation "measure (\<lambda>x. case x of Inl s \<Rightarrow> 2 * length s
      | Inr (Inl s) \<Rightarrow> 2 * length s | Inr (Inr s) \<Rightarrow> 2 * length s + 1)") auto

declare pvalue.simps [simp del] pmembers.simps [simp del] pelems.simps [simp del]

definition parseJson :: "string \<Rightarrow> json option" where
  "parseJson s = (case pvalue s of Some (v, r) \<Rightarrow> if skipws r = [] then Some v else None | None \<Rightarrow> None)"

section \<open>Marshalling and unmarshalling\<close>

text \<open>\<open>json.Marshal\<close> of a string: also the characters that matter in HTML are escaped.\<close>

definition hexDigit :: "nat \<Rightarrow> char" where
  "hexDigit n = (if n < 10 then char_of (48 + n) else char_of (87 + n))"

definition escapeChar :: "char \<Rightarrow> string" where
  "escapeChar c =
     (let n = of_char c in
      if c = quoteChar \<or> c = backslash then [backslash, c]
      else if n = 8 then [backslash, CHR ''b''] else if n = 12 then [backslash, CHR ''f'']
      else if n = 10 then [backslash, CHR ''n''] else if n = 13 then [backslash, CHR ''r'']
      else if n = 9 then [backslash, CHR ''t'']
      else if n < 32 \<or> n = 60 \<or> n = 62 \<or> n = 38
        then [backslash, CHR ''u'', CHR ''0'', CHR ''0'', hexDigit (n div 16), hexDigit (n mod 16)]
      else [c])"

definition printString :: "string \<Rightarrow> string" where
  "printString s = quoteChar # concat (map escapeChar s) @ [quoteChar]"

fun printMembers :: "(string \<times> string) list \<Rightarrow> string" where
  "printMembers [] = []"
| "printMembers [(k, v)] = printString k @ '':'' @ printString v"
| "printMembers ((k, v) # kvs) = printString k @ '':'' @ printString v @ '','' @ printMembers kvs"

text \<open>The keys of a map are printed in ascending order.\<close>

definition printMap :: "string gomap \<Rightarrow> string" where
  "printMap m =
     (case m of
        None \<Rightarrow> ''null''
      | Some al \<Rightarrow> ''{'' @ printMembers (map (\<lambda>k. (k, mgets m k)) (sort (mkeys m))) @ ''}'')"

definition marshalInUseBy :: "ServiceInUseBy \<Rightarrow> string" where
  "marshalInUseBy x = ''{'' @ printString ''MemberClusters'' @ '':'' @ printMap (siu_MemberClusters x) @ ''}''"

text \<open>
  \<open>json.Unmarshal\<close> into a zero \<open>ServiceInUseBy\<close>: field names match up to case, other fields are
  skipped, null leaves a field as it is (a map becomes nil), a value of another type is an error.
\<close>

fun storeMembers :: "(string \<times> json) list \<Rightarrow> (string \<times> string) list \<Rightarrow> (string \<times> string) list option" where
  "storeMembers [] al = Some al"
| "storeMembers ((k, v) # kvs) al =
     (case v of
        JStr s \<Rightarrow> storeMembers kvs (AList.update k s al)
      | JNull \<Rightarrow> storeMembers kvs (AList.update k [] al)
      | _ \<Rightarrow> None)"

fun storeFields :: "(string \<times> json) list \<Rightarrow> ServiceInUseBy \<Rightarrow> ServiceInUseBy option" where
  "storeFields [] x = Some x"
| "storeFields ((k, v) # kvs) x =
     (if \<not> EqualFold k ''MemberClusters'' then storeFields kvs x
      else
        case v of
          JNull \<Rightarrow> storeFields kvs (x\<lparr>siu_MemberClusters := None\<rparr>)
        | JObj m \<Rightarrow>
            (case storeMembers m (case siu_MemberClusters x of None \<Rightarrow> [] | Some al \<Rightarrow> al) of
               None \<Rightarrow> None
             | Some al \<Rightarrow> storeFields kvs (x\<lparr>siu_MemberClusters := Some al\<rparr>))
        | _ \<Rightarrow> None)"

definition zeroInUseBy :: ServiceInUseBy where
  "zeroInUseBy = \<lparr>siu_MemberClusters = None\<rparr>"

definition unmarshalInUseBy :: "string \<Rightarrow> ServiceInUseBy option" where
  "unmarshalInUseBy s =
     (case parseJson s of
        None \<Rightarrow> None
      | Some JNull \<Rightarrow> Some zeroInUseBy
      | Some (JObj fs) \<Rightarrow> storeFields fs zeroInUseBy
      | Some _ \<Rightarrow> None)"

section \<open>Lemmas\<close>

lemma pstring_plain:
  "c \<noteq> quoteChar \<Longrightarrow> c \<noteq> backslash \<Longrightarrow> \<not> of_char c < (32 :: nat) \<Longrightarrow> pstring (c # cs) = consTo [c] (pstring cs)"
  by simp

lemma pstring_simple:
  "simpleEscape e = Some x \<Longrightarrow> pstring (backslash # e # cs) = consTo [x] (pstring cs)"
  by (simp add: backslash_def quoteChar_def)

lemma hexVal_hexDigit: "n < 16 \<Longrightarrow> hexVal (hexDigit n) = Some n"
  by (auto simp: hexVal_def hexDigit_def Let_def)

lemma pstring_hex:
  assumes "n < 128"
  shows "pstring (backslash # CHR ''u'' # CHR ''0'' # CHR ''0'' # hexDigit (n div 16) # hexDigit (n mod 16) # cs) =
    consTo [char_of n] (pstring cs)"
proof -
  have "hexVal (hexDigit (n div 16)) = Some (n div 16)" "hexVal (hexDigit (n mod 16)) = Some (n mod 16)"
    using assms by (simp_all add: hexVal_hexDigit)
  moreover have "hexVal (CHR ''0'') = Some 0" by (simp add: hexVal_def)
  ultimately have "hex4 (CHR ''0'') (CHR ''0'') (hexDigit (n div 16)) (hexDigit (n mod 16)) = Some n"
    by (simp add: hex4_def)
  moreover have "utf8 n = [char_of n]" using assms by (simp add: utf8_def)
  ultimately show ?thesis
    using assms by (simp add: simpleEscape_def quoteChar_def backslash_def)
qed

lemma control_chars:
  "char_of (8 :: nat) = CHR 0x08" "char_of (12 :: nat) = CHR 0x0C" "char_of (10 :: nat) = CHR 0x0A"
  "char_of (13 :: nat) = CHR 0x0D" "char_of (9 :: nat) = CHR 0x09"
  by code_simp+

lemma escaped:
  "pstring (escapeChar (CHR 0x08) @ cs) = consTo [CHR 0x08] (pstring cs)"
  "pstring (escapeChar (CHR 0x0C) @ cs) = consTo [CHR 0x0C] (pstring cs)"
  "pstring (escapeChar (CHR 0x0A) @ cs) = consTo [CHR 0x0A] (pstring cs)"
  "pstring (escapeChar (CHR 0x0D) @ cs) = consTo [CHR 0x0D] (pstring cs)"
  "pstring (escapeChar (CHR 0x09) @ cs) = consTo [CHR 0x09] (pstring cs)"
  by (simp_all add: escapeChar_def Let_def quoteChar_def backslash_def simpleEscape_def)

lemma pstring_escapeChar: "pstring (escapeChar c @ cs) = consTo [c] (pstring cs)"
proof -
  consider "c = quoteChar \<or> c = backslash" | "of_char c \<in> {8, 12, 10, 13, 9 :: nat}"
    | "c \<noteq> quoteChar" "c \<noteq> backslash" "of_char c \<notin> {8, 12, 10, 13, 9 :: nat}" by blast
  then show ?thesis
  proof cases
    case 1
    then have "simpleEscape c = Some c" "escapeChar c = [backslash, c]"
      by (auto simp: simpleEscape_def escapeChar_def Let_def)
    then show ?thesis by (simp add: pstring_simple del: pstring.simps)
  next
    case 2
    then have "c = char_of (8 :: nat) \<or> c = char_of (12 :: nat) \<or> c = char_of (10 :: nat) \<or>
        c = char_of (13 :: nat) \<or> c = char_of (9 :: nat)"
      by (metis char_of_char insertE singletonD)
    then have "c \<in> {CHR 0x08, CHR 0x0C, CHR 0x0A, CHR 0x0D, CHR 0x09}"
      unfolding control_chars by blast
    then show ?thesis by (elim insertE; simp add: escaped del: pstring.simps)
  next
    case 3
    then show ?thesis
      using pstring_hex [of "of_char c" cs]
      by (auto simp: escapeChar_def Let_def pstring_plain simp del: pstring.simps)
  qed
qed

lemma consTo_simps [simp]: "consTo s None = None" "consTo s (Some (t, r)) = Some (s @ t, r)"
  by (simp_all add: consTo_def)

lemma pstring_quote: "pstring (quoteChar # cs) = Some ([], cs)"
  by simp

lemma pstring_print:
  "pstring (concat (map escapeChar s) @ quoteChar # rest) = Some (s, rest)"
  by (induction s) (simp_all add: pstring_escapeChar pstring_quote del: pstring.simps)

lemma skipws_noop: "\<not> isSpace c \<Longrightarrow> skipws (c # cs) = c # cs"
  by (simp add: skipws_def)

lemma not_space [simp]:
  "\<not> isSpace quoteChar" "\<not> isSpace (CHR '':'')" "\<not> isSpace (CHR '','')" "\<not> isSpace (CHR ''{'')"
  "\<not> isSpace (CHR ''}'')" "\<not> isSpace (CHR ''n'')"
  by code_simp+

lemma token_neq [simp]:
  "quoteChar \<noteq> CHR ''{''" "quoteChar \<noteq> CHR ''}''" "quoteChar \<noteq> CHR ''[''"
  by code_simp+

lemma pvalue_string:
  "pvalue (printString s @ rest) = Some (JStr s, rest)"
  unfolding printString_def
  by (subst pvalue.simps) (simp add: skipws_noop pstring_print del: pstring.simps)

lemma length_printMembers: "kvs \<noteq> [] \<Longrightarrow> \<exists>r. printMembers kvs = quoteChar # r"
  by (cases kvs rule: printMembers.cases) (auto simp: printString_def)

lemma pmembers_member:
  shows "pmembers (printString k @ CHR '':'' # printString v @ CHR ''}'' # rest) = Some ([(k, JStr v)], rest)"
    and "pmembers (printString k @ CHR '':'' # printString v @ CHR '','' # quoteChar # rest) =
      map_option (\<lambda>(m, x). ((k, JStr v) # m, x)) (pmembers (quoteChar # rest))"
proof -
  have eq: "printString k @ cs = quoteChar # concat (map escapeChar k) @ quoteChar # cs" for cs
    by (simp add: printString_def)
  have "pmembers (quoteChar # concat (map escapeChar k) @ quoteChar # CHR '':'' # printString v @ CHR ''}'' # rest) =
      Some ([(k, JStr v)], rest)"
    by (subst pmembers.simps) (simp add: pstring_print pvalue_string skipws_noop del: pstring.simps)
  then show "pmembers (printString k @ CHR '':'' # printString v @ CHR ''}'' # rest) = Some ([(k, JStr v)], rest)"
    by (simp only: eq)
  have "pmembers (quoteChar # concat (map escapeChar k) @ quoteChar # CHR '':'' # printString v @ CHR '','' # quoteChar # rest) =
      map_option (\<lambda>(m, x). ((k, JStr v) # m, x)) (pmembers (quoteChar # rest))"
    by (subst pmembers.simps) (simp add: pstring_print pvalue_string skipws_noop del: pstring.simps)
  then show "pmembers (printString k @ CHR '':'' # printString v @ CHR '','' # quoteChar # rest) =
      map_option (\<lambda>(m, x). ((k, JStr v) # m, x)) (pmembers (quoteChar # rest))"
    by (simp only: eq)
qed

lemma pmembers_print:
  assumes "kvs \<noteq> []"
  shows "pmembers (printMembers kvs @ CHR ''}'' # rest) = Some (map (\<lambda>(k, v). (k, JStr v)) kvs, rest)"
  using assms
proof (induction kvs rule: printMembers.induct)
  case 1
  then show ?case by simp
next
  case (2 k v)
  then show ?case by (simp add: pmembers_member(1))
next
  case (3 k v kv kvs)
  obtain r where r: "printMembers (kv # kvs) @ CHR ''}'' # rest = quoteChar # r"
    using length_printMembers [of "kv # kvs"] by auto
  have "pmembers (quoteChar # r) = Some (map (\<lambda>(k, v). (k, JStr v)) (kv # kvs), rest)"
    using 3 r by simp
  then show ?case
    using "3.prems" pmembers_member(2) [of k v r] r by simp
qed

lemma storeMembers_strings:
  "storeMembers (map (\<lambda>(k, v). (k, JStr v)) kvs) al = Some (fold (\<lambda>(k, v). AList.update k v) kvs al)"
  by (induction kvs arbitrary: al) auto

lemma map_of_fold_update:
  "map_of (fold (\<lambda>(k, v). AList.update k v) (map (\<lambda>k. (k, f k)) ks) al) k =
     (if k \<in> set ks then Some (f k) else map_of al k)"
  by (induction ks arbitrary: al) (auto simp: update_conv)

lemma EqualFold_field [simp]: "EqualFold ''MemberClusters'' ''MemberClusters''"
  by (rule EqualFold_refl)

text \<open>A map prints to a text that parses to an object with the entries of the map.\<close>

definition mapJson :: "string gomap \<Rightarrow> json" where
  "mapJson m = (case m of None \<Rightarrow> JNull | Some al \<Rightarrow> JObj (map (\<lambda>k. (k, JStr (mgets m k))) (sort (mkeys m))))"

lemma pvalue_printMap:
  "pvalue (printMap m @ CHR ''}'' # rest) = Some (mapJson m, CHR ''}'' # rest)"
proof (cases m)
  case None
  have "pvalue (CHR ''n'' # CHR ''u'' # CHR ''l'' # CHR ''l'' # CHR ''}'' # rest) = Some (JNull, CHR ''}'' # rest)"
    by (subst pvalue.simps) (simp add: skipws_noop pliteral_def HasPrefix_def quoteChar_def)
  with None show ?thesis by (simp add: printMap_def mapJson_def)
next
  case (Some al)
  let ?ks = "sort (mkeys m)" and ?f = "\<lambda>k. (k, mgets m k)"
  show ?thesis
  proof (cases "?ks = []")
    case True
    then have "mkeys m = []" by (metis set_empty set_sort)
    moreover have "pvalue (CHR ''{'' # CHR ''}'' # CHR ''}'' # rest) = Some (JObj [], CHR ''}'' # rest)"
      by (subst pvalue.simps) (simp add: skipws_noop)
    ultimately show ?thesis using Some by (simp add: printMap_def mapJson_def)
  next
    case False
    from pmembers_print [of "map ?f ?ks" "CHR ''}'' # rest"] False
    have mem: "pmembers (printMembers (map ?f ?ks) @ CHR ''}'' # CHR ''}'' # rest) =
        Some (map (\<lambda>k. (k, JStr (mgets m k))) ?ks, CHR ''}'' # rest)" by (simp add: comp_def)
    obtain r where r: "printMembers (map ?f ?ks) @ CHR ''}'' # CHR ''}'' # rest = quoteChar # r"
      using length_printMembers [of "map ?f ?ks"] False by auto
    have "pvalue (CHR ''{'' # quoteChar # r) = map_option (\<lambda>(m, x). (JObj m, x)) (pmembers (quoteChar # r))"
      by (subst pvalue.simps) (simp add: skipws_noop)
    with mem r show ?thesis using Some by (simp add: printMap_def mapJson_def)
  qed
qed

lemma pvalue_field:
  "pvalue (CHR ''{'' # printString f @ CHR '':'' # printMap m @ [CHR ''}'']) = Some (JObj [(f, mapJson m)], [])"
proof -
  let ?rest = "CHR '':'' # printMap m @ [CHR ''}'']"
  have eq: "printString f @ ?rest = quoteChar # concat (map escapeChar f) @ quoteChar # ?rest"
    by (simp add: printString_def)
  have "pmembers (quoteChar # concat (map escapeChar f) @ quoteChar # ?rest) = Some ([(f, mapJson m)], [])"
    using pvalue_printMap [of m "[]"] pstring_print [of f ?rest]
    by (subst pmembers.simps) (simp add: skipws_noop del: pstring.simps)
  then show ?thesis
    unfolding eq by (subst pvalue.simps) (simp add: skipws_noop del: pstring.simps)
qed

lemma parse_marshal:
  "parseJson (marshalInUseBy x) = Some (JObj [(''MemberClusters'', mapJson (siu_MemberClusters x))])"
proof -
  have "marshalInUseBy x = CHR ''{'' # printString ''MemberClusters'' @ CHR '':'' # printMap (siu_MemberClusters x) @ [CHR ''}'']"
    unfolding marshalInUseBy_def by (simp only: append.simps)
  then show ?thesis
    unfolding parseJson_def using pvalue_field by (simp only: option.case prod.case skipws_def) simp
qed

lemma inUseBy_roundtrip:
  "\<exists>y. unmarshalInUseBy (marshalInUseBy x) = Some y \<and>
    (\<forall>k. mget (siu_MemberClusters y) k = mget (siu_MemberClusters x) k) \<and>
    (siu_MemberClusters y = None \<longleftrightarrow> siu_MemberClusters x = None)"
proof (cases "siu_MemberClusters x")
  case None
  then show ?thesis
    unfolding unmarshalInUseBy_def parse_marshal by (simp add: mapJson_def zeroInUseBy_def)
next
  case (Some al)
  let ?m = "siu_MemberClusters x"
  let ?ks = "sort (mkeys ?m)"
  let ?al = "fold (\<lambda>(k, v). AList.update k v) (map (\<lambda>k. (k, mgets ?m k)) ?ks) []"
  have store: "storeMembers (map (\<lambda>k. (k, JStr (mgets ?m k))) ?ks) [] = Some ?al"
    using storeMembers_strings [of "map (\<lambda>k. (k, mgets ?m k)) ?ks" "[]"] by (simp only: list.map_comp comp_def prod.case)
  have "mapJson ?m = JObj (map (\<lambda>k. (k, JStr (mgets ?m k))) ?ks)"
    using Some by (simp only: mapJson_def option.case)
  with store have "unmarshalInUseBy (marshalInUseBy x) = Some \<lparr>siu_MemberClusters = Some ?al\<rparr>"
    unfolding unmarshalInUseBy_def parse_marshal zeroInUseBy_def
    by (simp only: option.case json.case storeFields.simps EqualFold_field not_True_eq_False if_False
        ServiceInUseBy.select_convs ServiceInUseBy.update_convs)
  moreover have "map_of ?al k = mget ?m k" for k
    by (auto simp: map_of_fold_update set_mkeys mgets_def)
  ultimately show ?thesis using Some by simp
qed

end
