(* ===== verification/Hub_InternalServiceImport.thy ===== *)
theory Hub_InternalServiceImport
  imports Hub_InternalServiceExport Json
begin

text \<open>
  The InternalServiceImport controller of the hub cluster
  (\<open>pkg/controllers/hub/internalserviceimport/controller.go\<close>): it lets one member cluster of the fleet
  import a service. The cluster claims the service in an annotation of the service import, and the
  ports of the service are copied to the status of its InternalServiceImport.
\<close>

definition internalSvcImportCleanupFinalizer :: string where
  "internalSvcImportCleanupFinalizer = ''networking.fleet.azure.com/internalsvcimport-cleanup''"

definition svcImportCleanupFinalizer :: string where
  "svcImportCleanupFinalizer = ''networking.fleet.azure.com/serviceimport-cleanup''"

definition internalSvcImportSvcRefNamespacedNameFieldKey :: string where
  "internalSvcImportSvcRefNamespacedNameFieldKey = ''.spec.serviceImportReference.namespacedName''"

definition internalSvcImportRetryInterval :: int where
  "internalSvcImportRetryInterval = seconds 2"

section \<open>The controller\<close>

definition ISI_extractServiceInUseByInfo :: "ServiceImport \<Rightarrow> ServiceInUseBy" where
  "ISI_extractServiceInUseByInfo s =
     (case mget (om_Annotations (si_ObjectMeta s)) ServiceImportAnnotationServiceInUseBy of
        None \<Rightarrow> \<lparr>siu_MemberClusters = Some []\<rparr>
      | Some data \<Rightarrow>
          (case unmarshalInUseBy data of
             None \<Rightarrow> \<lparr>siu_MemberClusters = Some []\<rparr>
           | Some svcInUseBy \<Rightarrow> svcInUseBy))"

definition ISI_removeCleanupFinalizer :: "Lib \<Rightarrow> InternalServiceImport \<Rightarrow> (err option \<times> InternalServiceImport) op" where
  "ISI_removeCleanupFinalizer L i =
     (if LibContainsFinalizer L (isi_ObjectMeta i) internalSvcImportCleanupFinalizer
      then doUpdate Hub OISI decISI
        (i\<lparr>isi_ObjectMeta := LibRemoveFinalizer L (isi_ObjectMeta i) internalSvcImportCleanupFinalizer\<rparr>)
      else Ret (None, i))"

definition ISI_addCleanupFinalizer :: "Lib \<Rightarrow> InternalServiceImport \<Rightarrow> (err option \<times> InternalServiceImport) op" where
  "ISI_addCleanupFinalizer L i =
     (if \<not> LibContainsFinalizer L (isi_ObjectMeta i) internalSvcImportCleanupFinalizer
      then doUpdate Hub OISI decISI
        (i\<lparr>isi_ObjectMeta := LibAddFinalizer L (isi_ObjectMeta i) internalSvcImportCleanupFinalizer\<rparr>)
      else Ret (None, i))"

text \<open>The service import with the annotation, as it is sent.\<close>

definition ISI_annotated :: "Lib \<Rightarrow> ServiceImport \<Rightarrow> ServiceInUseBy \<Rightarrow> ServiceImport" where
  "ISI_annotated L s x =
     (let m = si_ObjectMeta s;
          ann = Some (AList.update ServiceImportAnnotationServiceInUseBy (marshalInUseBy x)
                  (case om_Annotations m of None \<Rightarrow> [] | Some al \<Rightarrow> al))
      in s\<lparr>si_ObjectMeta := LibAddFinalizer L (m\<lparr>om_Annotations := ann\<rparr>) svcImportCleanupFinalizer\<rparr>)"

definition ISI_annotateServiceImport :: "Lib \<Rightarrow> ServiceImport \<Rightarrow> ServiceInUseBy \<Rightarrow> (err option \<times> ServiceImport) op" where
  "ISI_annotateServiceImport L s x = doUpdate Hub OSI decSI (ISI_annotated L s x)"

definition ISI_cleared :: "Lib \<Rightarrow> ServiceImport \<Rightarrow> ServiceImport" where
  "ISI_cleared L s =
     (let m = si_ObjectMeta s in
      s\<lparr>si_ObjectMeta := LibRemoveFinalizer L
          (m\<lparr>om_Annotations := mdel ServiceImportAnnotationServiceInUseBy (om_Annotations m)\<rparr>)
          svcImportCleanupFinalizer\<rparr>)"

definition ISI_clearServiceInUseByInfo :: "Lib \<Rightarrow> ServiceImport \<Rightarrow> (err option \<times> ServiceImport) op" where
  "ISI_clearServiceInUseByInfo L s = doUpdate Hub OSI decSI (ISI_cleared L s)"

text \<open>
  \<open>reflect.DeepEqual\<close> of a struct and a pointer to a struct: the types differ, so the answer is false
  whatever the values are.
\<close>

definition deepEqualStructPointer :: "'a \<Rightarrow> 'a \<Rightarrow> bool" where
  "deepEqualStructPointer x p = False"

definition ISI_fulfill :: "ServiceImport \<Rightarrow> InternalServiceImport \<Rightarrow> (err option \<times> InternalServiceImport) op" where
  "ISI_fulfill s i =
     (if deepEqualStructPointer (isi_Status i) (si_Status s) then Ret (None, i)
      else doStatusUpdate Hub OISI decISI (i\<lparr>isi_Status := si_Status s\<rparr>))"

definition ISI_clearStatus :: "Lib \<Rightarrow> InternalServiceImport \<Rightarrow> outcome op" where
  "ISI_clearStatus L i =
     bindP (ISI_removeCleanupFinalizer L i) (\<lambda>(er, i1).
       case er of
         Some e \<Rightarrow> Ret (emptyResult, Some e)
       | None \<Rightarrow>
           if isi_Status i1 = zeroSIStatus then Ret (emptyResult, None)
           else bindP (doStatusUpdate Hub OISI decISI (i1\<lparr>isi_Status := zeroSIStatus\<rparr>)) (\<lambda>(er2, _).
             case er2 of Some e \<Rightarrow> Ret (emptyResult, Some e) | None \<Rightarrow> Ret (emptyResult, None)))"

definition ISI_releaseFinalizer :: "Lib \<Rightarrow> InternalServiceImport \<Rightarrow> outcome op" where
  "ISI_releaseFinalizer L i =
     bindP (ISI_removeCleanupFinalizer L i) (\<lambda>(er, _).
       case er of Some e \<Rightarrow> Ret (emptyResult, Some e) | None \<Rightarrow> Ret (emptyResult, None))"

definition ISI_withdraw :: "Lib \<Rightarrow> ServiceImport \<Rightarrow> InternalServiceImport \<Rightarrow> outcome op" where
  "ISI_withdraw L s i =
     (let clusterNamespace = om_Namespace (isi_ObjectMeta i);
          svcInUseBy = ISI_extractServiceInUseByInfo s
      in if mget (siu_MemberClusters svcInUseBy) clusterNamespace \<noteq> None then
           (let rest = mdel clusterNamespace (siu_MemberClusters svcInUseBy) in
            bindP (if mlen rest > 0 then ISI_annotateServiceImport L s (svcInUseBy\<lparr>siu_MemberClusters := rest\<rparr>)
                   else ISI_clearServiceInUseByInfo L s) (\<lambda>(er, _).
              case er of Some e \<Rightarrow> Ret (emptyResult, Some e) | None \<Rightarrow> ISI_releaseFinalizer L i))
         else ISI_releaseFinalizer L i)"

definition ISI_finishFulfill :: "ServiceImport \<Rightarrow> InternalServiceImport \<Rightarrow> outcome op" where
  "ISI_finishFulfill s i =
     bindP (ISI_fulfill s i) (\<lambda>(er, _).
       case er of Some e \<Rightarrow> Ret (emptyResult, Some e) | None \<Rightarrow> Ret (emptyResult, None))"

text \<open>
  The claim: the finalizer on the InternalServiceImport, the annotation, the copy of the status. A
  write to the nil map panics, as in Go.
\<close>

definition ISI_claim :: "Lib \<Rightarrow> ServiceImport \<Rightarrow> InternalServiceImport \<Rightarrow> ServiceInUseBy \<Rightarrow> outcome op" where
  "ISI_claim L s i svcInUseBy =
     (let clusterNamespace = om_Namespace (isi_ObjectMeta i);
          clusterID = eor_ClusterID (isi_ServiceImportReference i)
      in bindP (ISI_addCleanupFinalizer L i) (\<lambda>(er, i1).
           case er of
             Some e \<Rightarrow> Ret (emptyResult, Some e)
           | None \<Rightarrow>
               (case mput clusterNamespace clusterID (siu_MemberClusters svcInUseBy) of
                  None \<Rightarrow> Panic ''assignment to entry in nil map''
                | Some m \<Rightarrow>
                    bindP (ISI_annotateServiceImport L s (svcInUseBy\<lparr>siu_MemberClusters := m\<rparr>)) (\<lambda>(er2, s1).
                      case er2 of Some e \<Rightarrow> Ret (emptyResult, Some e) | None \<Rightarrow> ISI_finishFulfill s1 i1))))"

definition ISI_Reconcile :: "Lib \<Rightarrow> NamespacedName \<Rightarrow> outcome op" where
  "ISI_Reconcile L name =
     bindP (getISI Hub name) (\<lambda>r.
       case r of
         Inl e \<Rightarrow> if IsNotFound e then Ret (emptyResult, None) else Ret (emptyResult, Some e)
       | Inr i \<Rightarrow>
           let ref = isi_ServiceImportReference i;
               svcImportKey = \<lparr>nn_Namespace = eor_Namespace ref, nn_Name = eor_Name ref\<rparr>
           in bindP (getSI Hub svcImportKey) (\<lambda>r2.
             case r2 of
               Inl e \<Rightarrow> if IsNotFound e then ISI_clearStatus L i else Ret (emptyResult, Some e)
             | Inr s \<Rightarrow>
                 if om_DeletionTimestamp (si_ObjectMeta s) = None \<and> sis_Clusters (si_Status s) = []
                 then Ret (requeueAfter internalSvcImportRetryInterval, None)
                 else if om_DeletionTimestamp (isi_ObjectMeta i) \<noteq> None \<or> om_DeletionTimestamp (si_ObjectMeta s) \<noteq> None
                 then (if LibContainsFinalizer L (isi_ObjectMeta i) internalSvcImportCleanupFinalizer
                       then ISI_withdraw L s i else Ret (emptyResult, None))
                 else
                   let clusterNamespace = om_Namespace (isi_ObjectMeta i);
                       svcInUseBy = ISI_extractServiceInUseByInfo s
                   in if mlen (siu_MemberClusters svcInUseBy) > 0 then
                        (if mget (siu_MemberClusters svcInUseBy) clusterNamespace \<noteq> None
                         then ISI_finishFulfill s i
                         else ISI_clearStatus L i)
                      else ISI_claim L s i svcInUseBy))"

text \<open>The event handler: which InternalServiceImports to look at when a service import changes.\<close>

definition ISI_requestsForServiceImport :: "ServiceImport \<Rightarrow> NamespacedName list op" where
  "ISI_requestsForServiceImport s =
     bindP (doList Hub KInternalServiceImport decISI
        (selAll\<lparr>sel_Field := Some (internalSvcImportSvcRefNamespacedNameFieldKey,
           om_Namespace (si_ObjectMeta s) @ ''/'' @ om_Name (si_ObjectMeta s))\<rparr>)) (\<lambda>r.
       case r of
         Inl e \<Rightarrow> Ret []
       | Inr items \<Rightarrow> Ret (map (\<lambda>i. \<lparr>nn_Namespace = om_Namespace (isi_ObjectMeta i),
                                       nn_Name = om_Name (isi_ObjectMeta i)\<rparr>) items))"

section \<open>What is said of the controller\<close>

text \<open>The member clusters (their namespaces) that have claimed a service.\<close>

definition claimants :: "ServiceImport \<Rightarrow> string set" where
  "claimants s = {k. mget (siu_MemberClusters (ISI_extractServiceInUseByInfo s)) k \<noteq> None}"

definition hasImportFinalizer :: "InternalServiceImport \<Rightarrow> bool" where
  "hasImportFinalizer i = (internalSvcImportCleanupFinalizer \<in> set (om_Finalizers (isi_ObjectMeta i)))"

text \<open>The service imports that the API server has shown.\<close>

definition seenSI :: "trace \<Rightarrow> ServiceImport set" where
  "seenSI h = {s. \<exists>q. (q, RObj (OSI s)) \<in> set h}"

text \<open>
  A write of a service import that respects the claims: it is based on a version that the server
  has shown (same key and resource version), and it adds one claim to a service without claims, or
  only removes claims.
\<close>

definition fairWrite :: "ServiceImport set \<Rightarrow> ServiceImport \<Rightarrow> bool" where
  "fairWrite seen s' \<longleftrightarrow>
     (\<exists>s \<in> seen. metaKey (si_ObjectMeta s') = metaKey (si_ObjectMeta s) \<and>
        om_ResourceVersion (si_ObjectMeta s') = om_ResourceVersion (si_ObjectMeta s) \<and>
        ((claimants s = {} \<and> (\<exists>c. claimants s' = {c})) \<or> claimants s' \<subseteq> claimants s))"

definition ISI_guard :: "trace \<Rightarrow> request \<Rightarrow> bool" where
  "ISI_guard h q \<longleftrightarrow>
     (case q of
        Get c kd n \<Rightarrow> True
      | Update c x \<Rightarrow> (case x of OSI s' \<Rightarrow> c = Hub \<and> fairWrite (seenSI h) s' | OISI i \<Rightarrow> c = Hub | _ \<Rightarrow> False)
      | StatusUpdate c x \<Rightarrow> (case x of OISI i \<Rightarrow> c = Hub | _ \<Rightarrow> False)
      | _ \<Rightarrow> False)"

text \<open>
  The fleet around one service import: any number of passes of the controller run at the same time
  (in several processes, or before and after crashes), each on its own InternalServiceImport. A read
  may be answered with any version that ever existed, since the controllers read from a cache. An
  update is accepted just if it carries the resource version of the stored object; the stored object
  then gets a resource version that was not used before, and the process gets the stored object, or an
  error when the answer is lost. Other writers of the service import leave
  the claims alone.
\<close>

record fleet =
  fl_cur :: ServiceImport
  fl_versions :: "ServiceImport set"
  fl_procs :: "(outcome op \<times> trace) list"

definition withVersion :: "ServiceImport \<Rightarrow> string \<Rightarrow> ServiceImport" where
  "withVersion s v = s\<lparr>si_ObjectMeta := (si_ObjectMeta s)\<lparr>om_ResourceVersion := v\<rparr>\<rparr>"

definition rvOf :: "ServiceImport \<Rightarrow> string" where
  "rvOf s = om_ResourceVersion (si_ObjectMeta s)"

definition keyOf :: "ServiceImport \<Rightarrow> NamespacedName" where
  "keyOf s = metaKey (si_ObjectMeta s)"

inductive fleetStep :: "Lib \<Rightarrow> NamespacedName \<Rightarrow> fleet \<Rightarrow> fleet \<Rightarrow> bool" for L key where
  spawn: "fleetStep L key w (w\<lparr>fl_procs := fl_procs w @ [(ISI_Reconcile L n, [])]\<rparr>)"
| crash: "fleetStep L key w (w\<lparr>fl_procs := take i (fl_procs w) @ drop (Suc i) (fl_procs w)\<rparr>)"
| read: "i < length (fl_procs w) \<Longrightarrow> fl_procs w ! i = (Call (Get Hub KServiceImport key) k, h) \<Longrightarrow>
    v \<in> fl_versions w \<Longrightarrow>
    fleetStep L key w (w\<lparr>fl_procs := (fl_procs w)[i :=
      (k (RObj (OSI v)), h @ [(Get Hub KServiceImport key, RObj (OSI v))])]\<rparr>)"
| accept: "i < length (fl_procs w) \<Longrightarrow> fl_procs w ! i = (Call (Update Hub (OSI s')) k, h) \<Longrightarrow>
    keyOf s' = key \<Longrightarrow> rvOf s' = rvOf (fl_cur w) \<Longrightarrow> v \<notin> rvOf ` fl_versions w \<Longrightarrow>
    a = RObj (OSI (withVersion s' v)) \<or> (\<exists>e. a = RErr e) \<Longrightarrow>
    fleetStep L key w \<lparr>fl_cur = withVersion s' v, fl_versions = insert (withVersion s' v) (fl_versions w),
      fl_procs = (fl_procs w)[i := (k a, h @ [(Update Hub (OSI s'), a)])]\<rparr>"
| fail: "i < length (fl_procs w) \<Longrightarrow> fl_procs w ! i = (Call q k, h) \<Longrightarrow>
    fleetStep L key w (w\<lparr>fl_procs := (fl_procs w)[i := (k (RErr e), h @ [(q, RErr e)])]\<rparr>)"
| other: "i < length (fl_procs w) \<Longrightarrow> fl_procs w ! i = (Call q k, h) \<Longrightarrow>
    (\<And>s. a = RObj (OSI s) \<Longrightarrow> keyOf s \<noteq> key) \<Longrightarrow>
    fleetStep L key w (w\<lparr>fl_procs := (fl_procs w)[i := (k a, h @ [(q, a)])]\<rparr>)"
| foreign: "keyOf s' = key \<Longrightarrow> claimants s' = claimants (fl_cur w) \<Longrightarrow> rvOf s' \<notin> rvOf ` fl_versions w \<Longrightarrow>
    fleetStep L key w (w\<lparr>fl_cur := s', fl_versions := insert s' (fl_versions w)\<rparr>)"

inductive fleetReach :: "Lib \<Rightarrow> NamespacedName \<Rightarrow> fleet \<Rightarrow> fleet \<Rightarrow> bool" for L key w0 where
  reach_refl: "fleetReach L key w0 w0"
| reach_step: "fleetReach L key w0 w \<Longrightarrow> fleetStep L key w w' \<Longrightarrow> fleetReach L key w0 w'"

text \<open>A process may only go on fairly, and has seen existing versions only.\<close>

definition procOk :: "NamespacedName \<Rightarrow> ServiceImport set \<Rightarrow> outcome op \<times> trace \<Rightarrow> bool" where
  "procOk key vs x \<longleftrightarrow> wp ISI_guard (\<lambda>_ _. True) (fst x) (snd x) \<and>
     (\<forall>s \<in> seenSI (snd x). keyOf s = key \<longrightarrow> s \<in> vs)"

definition fleetInv :: "NamespacedName \<Rightarrow> fleet \<Rightarrow> bool" where
  "fleetInv key w \<longleftrightarrow>
     fl_cur w \<in> fl_versions w \<and> inj_on rvOf (fl_versions w) \<and> (\<exists>c. claimants (fl_cur w) \<subseteq> {c}) \<and>
     (\<forall>x \<in> set (fl_procs w). procOk key (fl_versions w) x)"

text \<open>The API server has reported or accepted the InternalServiceImport with the finalizer.\<close>

definition importFinalizerRecorded :: "trace \<Rightarrow> bool" where
  "importFinalizerRecorded h \<longleftrightarrow> (\<exists>i. hasImportFinalizer i \<and>
     ((\<exists>n. (Get Hub KInternalServiceImport n, RObj (OISI i)) \<in> set h) \<or>
      (\<exists>y. (Update Hub (OISI i), RObj (OISI y)) \<in> set h)))"

text \<open>
  The cluster of the InternalServiceImport holds the claim in a version that the server has shown
  with this status, or in a write that the server has accepted and answered with this status.
\<close>

definition claimHeld :: "trace \<Rightarrow> ServiceImportStatus \<Rightarrow> bool" where
  "claimHeld h st \<longleftrightarrow> (\<exists>n i. (Get Hub KInternalServiceImport n, RObj (OISI i)) \<in> set h \<and>
     ((\<exists>m s. (Get Hub KServiceImport m, RObj (OSI s)) \<in> set h \<and> om_Namespace (isi_ObjectMeta i) \<in> claimants s \<and>
         st = si_Status s) \<or>
      (\<exists>s' s. (Update Hub (OSI s'), RObj (OSI s)) \<in> set h \<and> om_Namespace (isi_ObjectMeta i) \<in> claimants s' \<and>
         st = si_Status s)))"

definition ISI_order :: "trace \<Rightarrow> request \<Rightarrow> bool" where
  "ISI_order h q \<longleftrightarrow>
     (\<forall>s'. q = Update Hub (OSI s') \<and> \<not> (\<exists>s \<in> seenSI h. claimants s' \<subseteq> claimants s) \<longrightarrow> importFinalizerRecorded h) \<and>
     (\<forall>i. q = StatusUpdate Hub (OISI i) \<and> isi_Status i \<noteq> zeroSIStatus \<longrightarrow> claimHeld h (isi_Status i))"

text \<open>The annotation of a service import decodes to a nil map.\<close>

definition nilClaims :: "ServiceImport \<Rightarrow> bool" where
  "nilClaims s \<longleftrightarrow>
     (case mget (om_Annotations (si_ObjectMeta s)) ''networking.fleet.azure.com/service-in-use-by'' of
        None \<Rightarrow> False
      | Some data \<Rightarrow>
          (case parseJson data of
             Some JNull \<Rightarrow> True
           | Some (JObj fs) \<Rightarrow>
               (case find (\<lambda>(k, v). EqualFold k ''MemberClusters'') (rev fs) of None \<Rightarrow> True | Some (k, v) \<Rightarrow> (case v of JNull \<Rightarrow> True | _ \<Rightarrow> False))
           | _ \<Rightarrow> False))"

text \<open>The text of a claim is ASCII, as the names of namespaces and clusters are.\<close>

definition asciiClaims :: "ServiceInUseBy \<Rightarrow> bool" where
  "asciiClaims x \<longleftrightarrow> list_all (\<lambda>k. list_all (\<lambda>c. of_char c < (128 :: nat)) (k @ mgets (siu_MemberClusters x) k)) (mkeys (siu_MemberClusters x))"

text \<open>Objects for the examples: the cluster \<open>c3\<close> imports \<open>work/app\<close>.\<close>

definition demoIsi :: InternalServiceImport where
  "demoIsi = \<lparr>isi_ObjectMeta = metaOf ''fleet-member-c3'' ''work-app'',
     isi_ServiceImportReference = zeroRef\<lparr>eor_ClusterID := ''c3'', eor_Namespace := ''work'', eor_Name := ''app''\<rparr>,
     isi_Status = zeroSIStatus\<rparr>"

definition demoIsiF :: InternalServiceImport where
  "demoIsiF = demoIsi\<lparr>isi_ObjectMeta := (isi_ObjectMeta demoIsi)\<lparr>om_Finalizers := [internalSvcImportCleanupFinalizer]\<rparr>\<rparr>"

definition demoIsiKey :: NamespacedName where
  "demoIsiKey = \<lparr>nn_Namespace = ''fleet-member-c3'', nn_Name = ''work-app''\<rparr>"

definition demoAnnotated :: "string \<Rightarrow> ServiceImport" where
  "demoAnnotated d = (demoImportWith [''c1''])\<lparr>si_ObjectMeta := (metaOf ''work'' ''app'')\<lparr>om_Annotations :=
     Some [(ServiceImportAnnotationServiceInUseBy, d)]\<rparr>\<rparr>"

definition demoFleet :: fleet where
  "demoFleet = \<lparr>fl_cur = demoImportWith [''c1''], fl_versions = {demoImportWith [''c1'']}, fl_procs = []\<rparr>"

definition demoClaim :: ServiceImport where
  "demoClaim = ISI_annotated refLib (demoImportWith [''c1'']) \<lparr>siu_MemberClusters = Some [(''fleet-member-c3'', ''c3'')]\<rparr>"

section \<open>Lemmas on claims\<close>

lemma claimants_mkeys: "claimants s = set (mkeys (siu_MemberClusters (ISI_extractServiceInUseByInfo s)))"
  by (simp add: claimants_def set_mkeys)


lemma extract_annotated:
  assumes "finalizer_laws L"
  shows "mget (siu_MemberClusters (ISI_extractServiceInUseByInfo (ISI_annotated L s x))) k = mget (siu_MemberClusters x) k"
proof -
  obtain y where "unmarshalInUseBy (marshalInUseBy x) = Some y"
    "mget (siu_MemberClusters y) k = mget (siu_MemberClusters x) k"
    using inUseBy_roundtrip by blast
  then show ?thesis
    by (simp add: ISI_extractServiceInUseByInfo_def ISI_annotated_def Let_def finalizer_laws_fields [OF assms] update_conv)
qed

lemma claimants_annotated:
  assumes "finalizer_laws L"
  shows "claimants (ISI_annotated L s x) = {k. mget (siu_MemberClusters x) k \<noteq> None}"
  by (simp add: claimants_def extract_annotated [OF assms])

lemma storeFields_nil:
  assumes "storeFields fs x = Some y" and "siu_MemberClusters y = None"
  shows "case find (\<lambda>(k, v). EqualFold k ''MemberClusters'') (rev fs) of None \<Rightarrow> siu_MemberClusters x = None
    | Some (k, v) \<Rightarrow> v = JNull"
  using assms
proof (induction fs arbitrary: x)
  case (Cons kv fs)
  have find_snoc: "find P (xs @ [z]) = (case find P xs of None \<Rightarrow> if P z then Some z else None | Some w \<Rightarrow> Some w)" for P xs and z :: "string \<times> json"
    by (induction xs) auto
  obtain k v where kv: "kv = (k, v)" by fastforce
  show ?case
  proof (cases "EqualFold k ''MemberClusters''")
    case True
    with Cons.prems(1) obtain x' where "storeFields fs x' = Some y" "siu_MemberClusters x' = None \<longrightarrow> v = JNull"
      by (auto simp: kv split: json.splits option.splits)
    with Cons.IH [OF this(1) Cons.prems(2)] True show ?thesis by (auto simp: kv find_snoc split: option.splits)
  next
    case False
    with Cons.IH [of x] Cons.prems show ?thesis by (auto simp: kv find_snoc split: option.splits)
  qed
qed simp

lemma extract_nil:
  assumes "siu_MemberClusters (ISI_extractServiceInUseByInfo s) = None"
  shows "nilClaims s"
proof -
  have key: "ServiceImportAnnotationServiceInUseBy = ''networking.fleet.azure.com/service-in-use-by''"
    by (simp add: ServiceImportAnnotationServiceInUseBy_def fleetNetworkingPrefix_def)
  from assms obtain data y where d: "mget (om_Annotations (si_ObjectMeta s)) ServiceImportAnnotationServiceInUseBy = Some data"
    "unmarshalInUseBy data = Some y" "siu_MemberClusters y = None"
    by (auto simp: ISI_extractServiceInUseByInfo_def split: option.splits)
  then show ?thesis
    using storeFields_nil [of _ zeroInUseBy y]
    by (auto simp: nilClaims_def key [symmetric] unmarshalInUseBy_def zeroInUseBy_def split: option.splits json.splits prod.splits) fastforce+
qed

lemma claimants_cleared:
  assumes "finalizer_laws L"
  shows "claimants (ISI_cleared L s) = {}"
  by (simp add: claimants_def ISI_extractServiceInUseByInfo_def ISI_cleared_def Let_def
      finalizer_laws_fields [OF assms])

lemma version_annotated:
  assumes "finalizer_laws L"
  shows "metaKey (si_ObjectMeta (ISI_annotated L s x)) = metaKey (si_ObjectMeta s)"
    "om_ResourceVersion (si_ObjectMeta (ISI_annotated L s x)) = om_ResourceVersion (si_ObjectMeta s)"
    "metaKey (si_ObjectMeta (ISI_cleared L s)) = metaKey (si_ObjectMeta s)"
    "om_ResourceVersion (si_ObjectMeta (ISI_cleared L s)) = om_ResourceVersion (si_ObjectMeta s)"
  by (simp_all add: ISI_annotated_def ISI_cleared_def Let_def metaKey_def finalizer_laws_fields [OF assms])

lemma claimants_empty: "claimants s = {} \<longleftrightarrow> mlen (siu_MemberClusters (ISI_extractServiceInUseByInfo s)) = 0"
  by (auto simp: claimants_def mlen_0)

lemma fair_claim:
  assumes "finalizer_laws L" and "s \<in> seen" and "claimants s = {}"
    and "mput c d (siu_MemberClusters (ISI_extractServiceInUseByInfo s)) = Some m"
  shows "fairWrite seen (ISI_annotated L s (ISI_extractServiceInUseByInfo s\<lparr>siu_MemberClusters := m\<rparr>))"
proof -
  have "{k. mget m k \<noteq> None} = {c}"
    using assms(3) mput_mget [OF assms(4)] by (auto simp: claimants_def)
  then show ?thesis
    unfolding fairWrite_def using assms(2,3) version_annotated [OF assms(1)] claimants_annotated [OF assms(1)]
    by (intro bexI [of _ s]) auto
qed

lemma fair_withdraw:
  assumes "finalizer_laws L" and "s \<in> seen"
  shows "fairWrite seen (ISI_annotated L s (ISI_extractServiceInUseByInfo s\<lparr>siu_MemberClusters :=
      mdel c (siu_MemberClusters (ISI_extractServiceInUseByInfo s))\<rparr>))"
    and "fairWrite seen (ISI_cleared L s)"
proof -
  have "{k. mget (mdel c (siu_MemberClusters (ISI_extractServiceInUseByInfo s))) k \<noteq> None} \<subseteq> claimants s"
    by (auto simp: claimants_def)
  then show "fairWrite seen (ISI_annotated L s (ISI_extractServiceInUseByInfo s\<lparr>siu_MemberClusters :=
      mdel c (siu_MemberClusters (ISI_extractServiceInUseByInfo s))\<rparr>))"
    unfolding fairWrite_def using assms(2) version_annotated [OF assms(1)] claimants_annotated [OF assms(1)]
    by (intro bexI [of _ s]) auto
  show "fairWrite seen (ISI_cleared L s)"
    unfolding fairWrite_def using assms(2) version_annotated [OF assms(1)] claimants_cleared [OF assms(1)]
    by (intro bexI [of _ s]) auto
qed

section \<open>Lemmas on the controller\<close>

lemma seenSI_snoc [simp]: "seenSI (h @ [(q, a)]) = seenSI h \<union> {s. a = RObj (OSI s)}"
  by (auto simp: seenSI_def)

lemma ISI_guard_simps [simp]:
  "ISI_guard h (Get c kd n)" "ISI_guard h (Update Hub (OISI i))" "ISI_guard h (StatusUpdate Hub (OISI i))"
  "ISI_guard h (Update Hub (OSI s)) = fairWrite (seenSI h) s"
  by (simp_all add: ISI_guard_def)

lemma ISI_local_guarded:
  "wp ISI_guard (\<lambda>_ _. True) (ISI_clearStatus L i) h" "wp ISI_guard (\<lambda>_ _. True) (ISI_releaseFinalizer L i) h"
  "wp ISI_guard (\<lambda>_ _. True) (ISI_finishFulfill s i) h"
  "wp ISI_guard (\<lambda>_ _. True) (ISI_addCleanupFinalizer L i) h"
  by (auto simp: ISI_clearStatus_def ISI_releaseFinalizer_def ISI_removeCleanupFinalizer_def ISI_finishFulfill_def
      ISI_fulfill_def ISI_addCleanupFinalizer_def prog_simps wp_simps decUpd_def split: sum.splits option.splits)

lemma ISI_withdraw_guarded:
  assumes "finalizer_laws L" and "s \<in> seenSI h"
  shows "wp ISI_guard (\<lambda>_ _. True) (ISI_withdraw L s i) h"
  using fair_withdraw [OF assms] ISI_local_guarded(2)
  by (auto simp: ISI_withdraw_def Let_def ISI_annotateServiceImport_def ISI_clearServiceInUseByInfo_def prog_simps
      decUpd_def split: sum.splits)

lemma ISI_claim_guarded:
  assumes "finalizer_laws L" and "s \<in> seenSI h"
    and "mlen (siu_MemberClusters (ISI_extractServiceInUseByInfo s)) = 0"
  shows "wp ISI_guard (\<lambda>_ _. True) (ISI_claim L s i (ISI_extractServiceInUseByInfo s)) h"
proof -
  have "fairWrite (seenSI h') (ISI_annotated L s (ISI_extractServiceInUseByInfo s\<lparr>siu_MemberClusters := m\<rparr>))"
    if "h' = h @ k" "mput c d (siu_MemberClusters (ISI_extractServiceInUseByInfo s)) = Some m" for h' k c d m
    using that assms(2) by (intro fair_claim [OF assms(1) _ iffD2 [OF claimants_empty assms(3)]]) (auto simp: seenSI_def)
  then show ?thesis
    unfolding ISI_claim_def Let_def
    by (intro wp_bindI [OF wp_ext [OF ISI_local_guarded(4)]])
      (auto simp: ISI_annotateServiceImport_def prog_simps decUpd_def ISI_local_guarded split: sum.splits option.splits)
qed

lemma ISI_Reconcile_guarded:
  assumes "finalizer_laws L"
  shows "wp ISI_guard (\<lambda>_ _. True) (ISI_Reconcile L n) h"
  unfolding ISI_Reconcile_def Let_def
  by (auto simp: prog_simps ISI_local_guarded simp del: append_assoc split: sum.splits
      intro!: ISI_withdraw_guarded [OF assms] ISI_claim_guarded [OF assms])

lemma ISI_order_simps [simp]:
  "ISI_order h (Get c kd n)" "ISI_order h (Update Hub (OISI i))"
  by (simp_all add: ISI_order_def)

lemma ISI_order_local:
  "wp ISI_order (\<lambda>_ _. True) (ISI_clearStatus L i) h" "wp ISI_order (\<lambda>_ _. True) (ISI_releaseFinalizer L i) h"
  by (auto simp: ISI_clearStatus_def ISI_releaseFinalizer_def ISI_removeCleanupFinalizer_def ISI_order_def
      prog_simps wp_simps decUpd_def split: sum.splits option.splits)

lemma ISI_order_fulfill:
  "claimHeld h (si_Status s) \<Longrightarrow> wp ISI_order (\<lambda>_ _. True) (ISI_finishFulfill s i) h"
  by (auto simp: ISI_finishFulfill_def ISI_fulfill_def deepEqualStructPointer_def ISI_order_def prog_simps
      decUpd_def split: sum.splits option.splits)

lemma ISI_order_withdraw:
  assumes "finalizer_laws L" and "s \<in> seenSI h"
  shows "wp ISI_order (\<lambda>_ _. True) (ISI_withdraw L s i) h"
proof -
  let ?x = "ISI_extractServiceInUseByInfo s"
  have "claimants (ISI_annotated L s (?x\<lparr>siu_MemberClusters := mdel c (siu_MemberClusters ?x)\<rparr>)) \<subseteq> claimants s" for c
    unfolding claimants_annotated [OF assms(1)] by (auto simp: claimants_def)
  then have "ISI_order h (Update Hub (OSI (ISI_annotated L s (?x\<lparr>siu_MemberClusters := mdel c (siu_MemberClusters ?x)\<rparr>))))" for c
    using assms(2) unfolding ISI_order_def by blast
  moreover have "claimants (ISI_cleared L s) \<subseteq> claimants s" by (simp add: claimants_cleared [OF assms(1)])
  then have "ISI_order h (Update Hub (OSI (ISI_cleared L s)))"
    using assms(2) unfolding ISI_order_def by blast
  ultimately show ?thesis
    using ISI_order_local(2)
    by (auto simp: ISI_withdraw_def Let_def ISI_annotateServiceImport_def ISI_clearServiceInUseByInfo_def prog_simps
        decUpd_def split: sum.splits)
qed

lemma addFinalizer_recorded:
  assumes "finalizer_laws L" and "(Get Hub KInternalServiceImport n, RObj (OISI i)) \<in> set h"
  shows "wp ISI_order (\<lambda>h' r. (fst r = None \<longrightarrow> importFinalizerRecorded h') \<and> (\<exists>k. h' = h @ k))
     (ISI_addCleanupFinalizer L i) h"
proof -
  have "hasImportFinalizer (i\<lparr>isi_ObjectMeta := LibAddFinalizer L (isi_ObjectMeta i) internalSvcImportCleanupFinalizer\<rparr>)"
    using finalizer_lawsD(2) [OF assms(1)] by (simp add: hasImportFinalizer_def)
  then have written: "importFinalizerRecorded (h @ [(Update Hub (OISI (i\<lparr>isi_ObjectMeta :=
      LibAddFinalizer L (isi_ObjectMeta i) internalSvcImportCleanupFinalizer\<rparr>)), RObj (OISI y))])" for y
    unfolding importFinalizerRecorded_def by (metis in_set_conv_decomp)
  have present: "importFinalizerRecorded h" if "LibContainsFinalizer L (isi_ObjectMeta i) internalSvcImportCleanupFinalizer"
    using that assms(2) finalizer_lawsD(1) [OF assms(1)] unfolding importFinalizerRecorded_def hasImportFinalizer_def by blast
  show ?thesis
    by (auto simp: ISI_addCleanupFinalizer_def prog_simps decUpd_def written present split: sum.splits)
qed

lemma ISI_order_claim:
  assumes "finalizer_laws L" and "(Get Hub KInternalServiceImport n, RObj (OISI i)) \<in> set h"
  shows "wp ISI_order (\<lambda>_ _. True) (ISI_claim L s i x) h"
proof -
  have annotate: "wp ISI_order (\<lambda>_ _. True) (bindP (ISI_annotateServiceImport L s (x\<lparr>siu_MemberClusters := m\<rparr>)) (\<lambda>(er2, s1).
        case er2 of None \<Rightarrow> ISI_finishFulfill s1 i1 | Some e \<Rightarrow> Ret (emptyResult, Some e))) (h @ k)"
    if "importFinalizerRecorded (h @ k)" "mput (om_Namespace (isi_ObjectMeta i)) d (siu_MemberClusters x) = Some m"
    for k m i1 d
  proof -
    let ?s = "ISI_annotated L s (x\<lparr>siu_MemberClusters := m\<rparr>)"
    have "om_Namespace (isi_ObjectMeta i) \<in> claimants ?s"
      using mput_mget [OF that(2)] by (simp add: claimants_annotated [OF assms(1)])
    then have "claimHeld ((h @ k) @ [(Update Hub (OSI ?s), RObj (OSI s1))]) (si_Status s1)" for s1
      unfolding claimHeld_def using assms(2) by fastforce
    then show ?thesis
      using that(1)
      by (auto simp: ISI_annotateServiceImport_def prog_simps decUpd_def simp del: append_assoc split: sum.splits
          intro!: ISI_order_fulfill) (simp add: ISI_order_def)
  qed
  show ?thesis
    unfolding ISI_claim_def Let_def
    by (rule wp_bindI [OF addFinalizer_recorded [OF assms]]) (auto split: option.splits intro: annotate)
qed

lemma ISI_Reconcile_order:
  assumes "finalizer_laws L"
  shows "wp ISI_order (\<lambda>_ _. True) (ISI_Reconcile L n) h"
proof -
  have held: "claimHeld (h @ [(Get Hub KInternalServiceImport n, RObj (OISI i)), (Get Hub KServiceImport m, RObj (OSI s))])
      (si_Status s)"
    if "mget (siu_MemberClusters (ISI_extractServiceInUseByInfo s)) (om_Namespace (isi_ObjectMeta i)) = Some y" for i m s y
    using that unfolding claimHeld_def claimants_def by fastforce
  show ?thesis
    unfolding ISI_Reconcile_def Let_def
    by (auto simp: prog_simps ISI_order_local seenSI_def split: sum.splits
        intro!: ISI_order_withdraw [OF assms] ISI_order_claim [OF assms] ISI_order_fulfill held)
qed

lemma ISI_nopanic_parts:
  "nopanic (ISI_clearStatus L i)" "nopanic (ISI_releaseFinalizer L i)" "nopanic (ISI_finishFulfill s i)"
  "nopanic (ISI_addCleanupFinalizer L i)" "nopanic (ISI_withdraw L s i)" "nopanic (ISI_annotateServiceImport L s x)"
  by (auto simp: ISI_clearStatus_def ISI_releaseFinalizer_def ISI_removeCleanupFinalizer_def ISI_finishFulfill_def
      ISI_fulfill_def ISI_addCleanupFinalizer_def ISI_withdraw_def ISI_annotateServiceImport_def
      ISI_clearServiceInUseByInfo_def Let_def prog_simps decUpd_def split: sum.splits option.splits)

lemma ISI_claim_nopanic:
  assumes "siu_MemberClusters x \<noteq> None"
  shows "nopanic (ISI_claim L s i x)"
  unfolding ISI_claim_def Let_def using assms
  by (intro nopanic_bindP ISI_nopanic_parts)
    (auto simp: mput_def split: prod.splits option.splits intro!: nopanic_bindP ISI_nopanic_parts)

lemma ISI_Reconcile_panic:
  "wpan (\<lambda>h. \<exists>s \<in> seenSI h. nilClaims s) (\<lambda>_ _. True) (ISI_Reconcile L n) h"
proof -
  have claim: "wpan (\<lambda>h. \<exists>s \<in> seenSI h. nilClaims s) (\<lambda>_ _. True) (ISI_claim L s i (ISI_extractServiceInUseByInfo s)) h'"
    if "s \<in> seenSI h'" for s i h'
  proof (cases "nilClaims s")
    case True
    have "wpan (\<lambda>h. \<exists>s \<in> seenSI h. nilClaims s) (\<lambda>_ _. True) p h'" if "s \<in> seenSI h'" for p :: "outcome op" and h'
      using that True by (induction p arbitrary: h') auto
    with that show ?thesis by blast
  next
    case False
    then show ?thesis by (intro wpan_nopanic ISI_claim_nopanic) (use extract_nil in blast)
  qed
  show ?thesis
    unfolding ISI_Reconcile_def Let_def
    by (auto simp: prog_simps ISI_nopanic_parts simp del: append_assoc split: sum.splits
        intro!: wpan_nopanic claim)
qed

section \<open>Lemmas on the fleet\<close>

lemma claimants_withVersion [simp]: "claimants (withVersion s v) = claimants s" "rvOf (withVersion s v) = v"
  by (simp_all add: claimants_def ISI_extractServiceInUseByInfo_def withVersion_def rvOf_def)

lemma procOk_mono: "procOk key vs x \<Longrightarrow> vs \<subseteq> vs' \<Longrightarrow> procOk key vs' x"
  by (auto simp: procOk_def)

lemma fleetInv_current:
  assumes "fleetInv key w" and "i < length (fl_procs w)" and "fl_procs w ! i = (Call q k, h)"
  shows "procOk key (fl_versions w) (Call q k, h)"
proof -
  have "(Call q k, h) \<in> set (fl_procs w)" using assms(2,3) by (metis nth_mem)
  with assms(1) show ?thesis by (simp add: fleetInv_def)
qed

text \<open>One process takes a step; the versions may have grown.\<close>

lemma fleetInv_proc:
  assumes inv: "fleetInv key w" and i: "i < length (fl_procs w)" "fl_procs w ! i = (Call q k, h)"
    and a: "\<And>s. a = RObj (OSI s) \<Longrightarrow> keyOf s = key \<Longrightarrow> s \<in> vs" and vs: "fl_versions w \<subseteq> vs"
  shows "\<forall>x \<in> set ((fl_procs w)[i := (k a, h @ [(q, a)])]). procOk key vs x"
proof
  fix x
  assume "x \<in> set ((fl_procs w)[i := (k a, h @ [(q, a)])])"
  then consider "x = (k a, h @ [(q, a)])" | "x \<in> set (fl_procs w)" using set_update_subset_insert by fastforce
  then show "procOk key vs x"
  proof cases
    case 1
    with fleetInv_current [OF inv i] a vs show ?thesis by (auto simp: procOk_def)
  next
    case 2
    with inv have "procOk key (fl_versions w) x" by (simp add: fleetInv_def)
    then show ?thesis using vs by (rule procOk_mono)
  qed
qed

lemma fleetInv_guard:
  assumes "fleetInv key w" and "i < length (fl_procs w)" and "fl_procs w ! i = (Call q k, h)"
  shows "ISI_guard h q" and "\<forall>s \<in> seenSI h. keyOf s = key \<longrightarrow> s \<in> fl_versions w"
  using fleetInv_current [OF assms] by (simp_all add: procOk_def)

text \<open>An accepted write was based on the stored version, so it keeps at most one claim.\<close>

lemma accept_claims:
  assumes "fleetInv key w" and "i < length (fl_procs w)" and "fl_procs w ! i = (Call (Update Hub (OSI s')) k, h)"
    and "keyOf s' = key" and "rvOf s' = rvOf (fl_cur w)"
  shows "\<exists>c. claimants s' \<subseteq> {c}"
proof -
  from fleetInv_guard(1) [OF assms(1-3)] have "fairWrite (seenSI h) s'" by simp
  then obtain s where s: "s \<in> seenSI h" "keyOf s = key" "rvOf s = rvOf s'"
    "(claimants s = {} \<and> (\<exists>c. claimants s' = {c})) \<or> claimants s' \<subseteq> claimants s"
    using assms(4) by (auto simp: fairWrite_def keyOf_def rvOf_def)
  with fleetInv_guard(2) [OF assms(1-3)] have "s \<in> fl_versions w" by blast
  with s(3) assms(1,5) have "s = fl_cur w" by (auto simp: fleetInv_def dest: inj_onD)
  moreover obtain c where "claimants (fl_cur w) \<subseteq> {c}" using assms(1) by (auto simp: fleetInv_def)
  ultimately show ?thesis using s(4) by blast
qed

lemma inj_on_fresh: "inj_on f A \<Longrightarrow> f a \<notin> f ` A \<Longrightarrow> inj_on f (insert a A)"
  by (auto simp: inj_on_insert)

lemma fleetInv_step:
  assumes "finalizer_laws L" and "fleetStep L key w w'" and inv: "fleetInv key w"
  shows "fleetInv key w'"
  using assms(2)
proof cases
  case (spawn n)
  have "procOk key (fl_versions w) (ISI_Reconcile L n, [])"
    using ISI_Reconcile_guarded [OF assms(1)] by (simp add: procOk_def seenSI_def)
  with spawn inv show ?thesis by (simp add: fleetInv_def)
next
  case (crash i)
  have "set (take i (fl_procs w) @ drop (Suc i) (fl_procs w)) \<subseteq> set (fl_procs w)"
    by (auto dest: in_set_takeD in_set_dropD)
  with inv have "\<forall>x \<in> set (take i (fl_procs w) @ drop (Suc i) (fl_procs w)). procOk key (fl_versions w) x"
    unfolding fleetInv_def by blast
  with crash inv show ?thesis by (simp add: fleetInv_def)
next
  case (read i k h v)
  with fleetInv_proc [OF inv read(2,3), of "RObj (OSI v)" "fl_versions w"] inv show ?thesis
    by (simp add: fleetInv_def)
next
  case (accept i s' k h v a)
  let ?n = "withVersion s' v"
  have "\<exists>c. claimants ?n \<subseteq> {c}" using accept_claims [OF inv accept(2,3,4,5)] by simp
  moreover have "inj_on rvOf (insert ?n (fl_versions w))"
    using inv accept(6) by (intro inj_on_fresh) (simp_all add: fleetInv_def)
  moreover have "\<forall>x \<in> set ((fl_procs w)[i := (k a, h @ [(Update Hub (OSI s'), a)])]).
      procOk key (insert ?n (fl_versions w)) x"
    by (rule fleetInv_proc [OF inv accept(2,3)]) (use accept(7) in auto)
  ultimately show ?thesis unfolding accept(1) fleetInv_def by simp
next
  case (fail i q k h e)
  with fleetInv_proc [OF inv fail(2,3), of "RErr e" "fl_versions w"] inv show ?thesis
    by (simp add: fleetInv_def)
next
  case (other i q k h a)
  have "\<forall>x \<in> set ((fl_procs w)[i := (k a, h @ [(q, a)])]). procOk key (fl_versions w) x"
    by (rule fleetInv_proc [OF inv other(2,3)]) (use other(4) in auto)
  with other inv show ?thesis by (simp add: fleetInv_def)
next
  case (foreign s')
  have "inj_on rvOf (insert s' (fl_versions w))"
    using inv foreign(4) by (intro inj_on_fresh) (simp_all add: fleetInv_def)
  moreover have "\<forall>x \<in> set (fl_procs w). procOk key (insert s' (fl_versions w)) x"
    using inv unfolding fleetInv_def by (meson procOk_mono subset_insertI)
  ultimately show ?thesis using inv foreign unfolding fleetInv_def by simp
qed

lemma fleetInv_reach:
  assumes "finalizer_laws L" and "fleetReach L key w0 w" and "fleetInv key w0"
  shows "fleetInv key w"
  using assms(2) by (induction) (auto intro: assms(3) fleetInv_step [OF assms(1)])

text \<open>A process that is answered by reads of existing versions and by answers about other objects.\<close>

lemma fleetReach_play:
  assumes "fleetReach L key w0 w" and "fl_procs w = [(p, h)]"
    and "\<forall>(q, a) \<in> set (fst (play as p)). \<forall>s. a = RObj (OSI s) \<longrightarrow> q = Get Hub KServiceImport key \<and> s \<in> fl_versions w"
  shows "fleetReach L key w0 (w\<lparr>fl_procs := [(snd (play as p), h @ fst (play as p))]\<rparr>)"
  using assms
proof (induction as arbitrary: p h w)
  case Nil
  have "w\<lparr>fl_procs := [(p, h)]\<rparr> = w" using Nil(2) by simp
  with Nil(1) show ?case by simp
next
  case (Cons a as)
  have same: "w\<lparr>fl_procs := [(p, h)]\<rparr> = w" using Cons.prems(2) by simp
  show ?case
  proof (cases p)
    case (Call q k)
    let ?w = "w\<lparr>fl_procs := [(k a, h @ [(q, a)])]\<rparr>"
    have "fleetStep L key w (w\<lparr>fl_procs := (fl_procs w)[0 := (k a, h @ [(q, a)])]\<rparr>)"
    proof (cases "\<exists>s. a = RObj (OSI s)")
      case True
      with Cons.prems(3) Call show ?thesis
        using fleetStep.read [of 0 w key k h] Cons.prems(2) by (auto split: prod.splits)
    next
      case False
      with fleetStep.other [of 0 w q k h a] Cons.prems(2) Call show ?thesis by auto
    qed
    then have "fleetReach L key w0 ?w" using Cons.prems(1,2) reach_step by fastforce
    from Cons.IH [OF this] Cons.prems(3) Call show ?thesis by (auto split: prod.splits)
  qed (use Cons.prems(1) same in auto)
qed

lemma accept_alone:
  assumes "fl_procs w = [(Call (Update Hub (OSI s')) k, h)]"
    and "keyOf s' = key" and "rvOf s' = rvOf (fl_cur w)" and "v \<notin> rvOf ` fl_versions w"
  shows "\<exists>w'. fleetStep L key w w' \<and> fl_cur w' = withVersion s' v"
proof -
  have "0 < length (fl_procs w)" "fl_procs w ! 0 = (Call (Update Hub (OSI s')) k, h)" using assms(1) by simp_all
  from accept [OF this assms(2-4), of "RErr decodeErr" L]
  have "fleetStep L key w \<lparr>fl_cur = withVersion s' v, fl_versions = insert (withVersion s' v) (fl_versions w),
      fl_procs = (fl_procs w)[0 := (k (RErr decodeErr), h @ [(Update Hub (OSI s'), RErr decodeErr)])]\<rparr>"
    by blast
  then show ?thesis by (rule exI [where x = "\<lparr>fl_cur = withVersion s' v, fl_versions = _, fl_procs = _\<rparr>", OF conjI]) simp
qed

text \<open>The cluster \<open>c3\<close> reads, writes its claim, and the server accepts it.\<close>

lemma demo_claimed:
  "\<exists>w. fleetReach refLib demoImportKey demoFleet w \<and> fl_cur w = withVersion demoClaim ''2''"
proof -
  let ?p = "ISI_Reconcile refLib demoIsiKey" and ?as = "[RObj (OISI demoIsiF), RObj (OSI (demoImportWith [''c1'']))]"
  let ?w1 = "demoFleet\<lparr>fl_procs := [(?p, [])]\<rparr>"
  let ?w2 = "?w1\<lparr>fl_procs := [(snd (play ?as ?p), [] @ fst (play ?as ?p))]\<rparr>"
  have "fleetStep refLib demoImportKey demoFleet ?w1"
    using spawn [of refLib demoImportKey demoFleet demoIsiKey] by (simp add: demoFleet_def)
  then have 1: "fleetReach refLib demoImportKey demoFleet ?w1" by (blast intro: fleetReach.intros)
  have tr: "fst (play ?as ?p) = [(Get Hub KInternalServiceImport demoIsiKey, RObj (OISI demoIsiF)),
      (Get Hub KServiceImport demoImportKey, RObj (OSI (demoImportWith [''c1''])))]"
    by code_simp
  have 2: "fleetReach refLib demoImportKey demoFleet ?w2"
    by (rule fleetReach_play [OF 1]) (simp, simp only: tr, simp add: demoFleet_def)
  have "nextCall (snd (play ?as ?p)) = Some (Update Hub (OSI demoClaim))" by code_simp
  then obtain k where k: "snd (play ?as ?p) = Call (Update Hub (OSI demoClaim)) k" by (auto simp: nextCall_Some)
  have key: "keyOf demoClaim = demoImportKey" "rvOf demoClaim = rvOf (demoImportWith [''c1''])"
    "''2'' \<noteq> rvOf (demoImportWith [''c1''])" by code_simp+
  have "\<exists>w. fleetStep refLib demoImportKey ?w2 w \<and> fl_cur w = withVersion demoClaim ''2''"
    by (rule accept_alone [of _ demoClaim k]) (simp_all only: k key fleet.simps append_Nil, simp_all add: demoFleet_def key)
  with 2 show ?thesis using fleetReach.reach_step by blast
qed

lemma claimants_demoClaim: "claimants demoClaim = {''fleet-member-c3''}"
proof -
  have "mkeys (siu_MemberClusters (ISI_extractServiceInUseByInfo demoClaim)) = [''fleet-member-c3'']" by code_simp
  then show ?thesis by (simp only: claimants_mkeys list.set)
qed

lemma claimants_demoImport: "claimants (demoImportWith [''c1'']) = {}"
proof -
  have "mkeys (siu_MemberClusters (ISI_extractServiceInUseByInfo (demoImportWith [''c1'']))) = []" by code_simp
  then show ?thesis by (simp only: claimants_mkeys list.set)
qed

section \<open>Properties\<close>

text \<open>C1. One importer in the whole fleet: however many passes of the controller run at the same time,
  are interrupted, and read stale copies of the service import, at most one member cluster ever
  holds the claim on the service, as long as the API server accepts an update just on the resource
  version it is based on and nobody else edits the claims.\<close>

theorem ISI_single_importer:
  assumes "finalizer_laws L" and "fleetReach L key w0 w"
    and "fl_procs w0 = []" and "fl_versions w0 = {fl_cur w0}" and "claimants (fl_cur w0) = {}"
  shows "\<exists>c. claimants (fl_cur w) \<subseteq> {c}"
  using fleetInv_reach [OF assms(1,2)] assms(3-5) by (simp add: fleetInv_def)

theorem ISI_single_importer_witness:
  "\<exists>w. fleetReach refLib demoImportKey demoFleet w \<and> claimants (fl_cur w) = {''fleet-member-c3''} \<and>
     (\<exists>c. claimants (fl_cur w) \<subseteq> {c})"
proof -
  obtain w where w: "fleetReach refLib demoImportKey demoFleet w" "fl_cur w = withVersion demoClaim ''2''"
    using demo_claimed by blast
  have "fl_procs demoFleet = []" "fl_versions demoFleet = {fl_cur demoFleet}" by (simp_all add: demoFleet_def)
  moreover have "claimants (fl_cur demoFleet) = {}" by (simp add: demoFleet_def claimants_demoImport)
  ultimately have "\<exists>c. claimants (fl_cur w) \<subseteq> {c}"
    by (rule ISI_single_importer [OF refLib_finalizer_laws w(1)])
  moreover have "claimants demoClaim = {''fleet-member-c3''}" by (rule claimants_demoClaim)
  then have "claimants (fl_cur w) = {''fleet-member-c3''}" by (simp only: w(2) claimants_withVersion)
  ultimately show ?thesis using w(1) by blast
qed

text \<open>Fair writes: whatever the API server answers and wherever the process is stopped, every
  update of a service import that the controller sends is based on a version that the server has
  shown, carries its resource version, and adds one claim to a service without claims or only
  removes claims; nothing else is written but InternalServiceImports.\<close>

theorem ISI_fair_writes:
  assumes "finalizer_laws L" and "steps (ISI_Reconcile L n) tr p"
  shows "guarded ISI_guard [] tr"
  by (rule wp_guarded [OF assms(2) ISI_Reconcile_guarded [OF assms(1)]])

theorem ISI_fair_writes_witness:
  "guarded ISI_guard [] (fst (play [RObj (OISI demoIsi), RObj (OSI (demoImportWith [''c1''])), RObj (OISI demoIsiF),
     RObj (OSI demoClaim), ROk] (ISI_Reconcile refLib demoIsiKey))) \<and>
   map fst (drop 2 (fst (play [RObj (OISI demoIsi), RObj (OSI (demoImportWith [''c1''])), RObj (OISI demoIsiF),
     RObj (OSI demoClaim), ROk] (ISI_Reconcile refLib demoIsiKey)))) =
     [Update Hub (OISI demoIsiF), Update Hub (OSI demoClaim),
      StatusUpdate Hub (OISI (demoIsiF\<lparr>isi_Status := si_Status (demoImportWith [''c1''])\<rparr>))]"
proof -
  let ?as = "[RObj (OISI demoIsi), RObj (OSI (demoImportWith [''c1''])), RObj (OISI demoIsiF), RObj (OSI demoClaim), ROk]"
  have "steps (ISI_Reconcile refLib demoIsiKey) (fst (play ?as (ISI_Reconcile refLib demoIsiKey)))
      (snd (play ?as (ISI_Reconcile refLib demoIsiKey)))"
    by (rule play_trace_steps) simp
  from ISI_fair_writes [OF refLib_finalizer_laws this]
  show ?thesis by (rule conjI) code_simp
qed

text \<open>C19. Order of an import: a new claim is sent only after the API server has reported or accepted
  the InternalServiceImport with the clean-up finalizer; ports are copied to the status of the
  InternalServiceImport only while the cluster holds the claim, and they are the ports the server
  has shown with the claim.\<close>

theorem ISI_order_of_import:
  assumes "finalizer_laws L" and "steps (ISI_Reconcile L n) tr p"
  shows "guarded ISI_order [] tr"
  by (rule wp_guarded [OF assms(2) ISI_Reconcile_order [OF assms(1)]])

theorem ISI_order_of_import_witness:
  "guarded ISI_order [] (fst (play [RObj (OISI demoIsi), RObj (OSI (demoImportWith [''c1''])), RObj (OISI demoIsiF),
     RObj (OSI demoClaim), ROk] (ISI_Reconcile refLib demoIsiKey))) \<and>
   map fst (drop 2 (fst (play [RObj (OISI demoIsi), RObj (OSI (demoImportWith [''c1''])), RObj (OISI demoIsiF),
     RObj (OSI demoClaim), ROk] (ISI_Reconcile refLib demoIsiKey)))) =
     [Update Hub (OISI demoIsiF), Update Hub (OSI demoClaim),
      StatusUpdate Hub (OISI (demoIsiF\<lparr>isi_Status := si_Status (demoImportWith [''c1''])\<rparr>))]"
proof -
  let ?as = "[RObj (OISI demoIsi), RObj (OSI (demoImportWith [''c1''])), RObj (OISI demoIsiF), RObj (OSI demoClaim), ROk]"
  have "steps (ISI_Reconcile refLib demoIsiKey) (fst (play ?as (ISI_Reconcile refLib demoIsiKey)))
      (snd (play ?as (ISI_Reconcile refLib demoIsiKey)))"
    by (rule play_trace_steps) simp
  from ISI_order_of_import [OF refLib_finalizer_laws this]
  show ?thesis by (rule conjI) code_simp
qed

text \<open>C25. The claims survive the annotation: when the controller annotates a service import with claims, it reads the
  same claims back from it later, a nil map as a nil map; the annotation comes with the clean-up finalizer and
  leaves the other annotations and the status as they are. When the controller clears the service import, no claim is read
  back from it, the map that is read can be written to, and the finalizer is off. The claims are ASCII.\<close>

theorem ISI_claims_roundtrip:
  assumes "finalizer_laws L" and "asciiClaims x"
  shows "(\<forall>k. mget (siu_MemberClusters (ISI_extractServiceInUseByInfo (ISI_annotated L s x))) k = mget (siu_MemberClusters x) k) \<and>
    (siu_MemberClusters (ISI_extractServiceInUseByInfo (ISI_annotated L s x)) = None \<longleftrightarrow> siu_MemberClusters x = None) \<and>
    svcImportCleanupFinalizer \<in> set (om_Finalizers (si_ObjectMeta (ISI_annotated L s x))) \<and> si_Status (ISI_annotated L s x) = si_Status s \<and>
    siu_MemberClusters (ISI_extractServiceInUseByInfo (ISI_cleared L s)) = Some [] \<and>
    svcImportCleanupFinalizer \<notin> set (om_Finalizers (si_ObjectMeta (ISI_cleared L s))) \<and> si_Status (ISI_cleared L s) = si_Status s \<and>
    (\<forall>t \<in> {ISI_annotated L s x, ISI_cleared L s}. \<forall>a. a \<noteq> ServiceImportAnnotationServiceInUseBy \<longrightarrow>
       mget (om_Annotations (si_ObjectMeta t)) a = mget (om_Annotations (si_ObjectMeta s)) a)"
proof (intro conjI ballI allI impI)
  fix k
  show "mget (siu_MemberClusters (ISI_extractServiceInUseByInfo (ISI_annotated L s x))) k = mget (siu_MemberClusters x) k"
    by (rule extract_annotated [OF assms(1)])
next
  show "siu_MemberClusters (ISI_extractServiceInUseByInfo (ISI_annotated L s x)) = None \<longleftrightarrow> siu_MemberClusters x = None"
    using inUseBy_roundtrip [of x]
    by (auto simp: ISI_extractServiceInUseByInfo_def ISI_annotated_def Let_def finalizer_laws_fields [OF assms(1)] update_conv)
next
  fix t a
  assume "t \<in> {ISI_annotated L s x, ISI_cleared L s}" "a \<noteq> ServiceImportAnnotationServiceInUseBy"
  then show "mget (om_Annotations (si_ObjectMeta t)) a = mget (om_Annotations (si_ObjectMeta s)) a"
    by (cases "om_Annotations (si_ObjectMeta s)")
      (auto simp: ISI_annotated_def ISI_cleared_def Let_def finalizer_laws_fields [OF assms(1)] update_conv)
qed (simp_all add: ISI_extractServiceInUseByInfo_def ISI_annotated_def ISI_cleared_def Let_def finalizer_laws_fields [OF assms(1)] finalizer_lawsD [OF assms(1)])

theorem ISI_claims_roundtrip_witness:
  "\<exists>y. mget (siu_MemberClusters (ISI_extractServiceInUseByInfo demoClaim)) ''fleet-member-c3'' = Some y \<and> y = ''c3'' \<and>
     siu_MemberClusters (ISI_extractServiceInUseByInfo (ISI_cleared refLib (demoImportWith [''c1'']))) = Some []"
proof -
  have "asciiClaims \<lparr>siu_MemberClusters = Some [(''fleet-member-c3'', ''c3'')]\<rparr>" by code_simp
  from ISI_claims_roundtrip [OF refLib_finalizer_laws this, of "demoImportWith [''c1'']"] show ?thesis by (simp add: demoClaim_def)
qed

text \<open>C34. The only panic: a pass panics only if the service import that was read carries the annotation of the claims
  and its text is the JSON null, or an object without the field \<open>MemberClusters\<close> (as \<open>\{\}\<close> is) or with null
  as its last value. In particular a service import without the annotation, or with a text that is not JSON,
  never makes a pass panic.\<close>

theorem ISI_panics_only_on_nil_map:
  assumes "steps (ISI_Reconcile L n) tr (Panic m)"
  shows "\<exists>s \<in> seenSI tr. nilClaims s"
  using wpan_panic [OF assms refl ISI_Reconcile_panic, of "[]"] by simp

theorem ISI_panics_only_on_nil_map_witness:
  "(\<exists>s \<in> seenSI (fst (play [RObj (OISI demoIsiF), RObj (OSI (demoAnnotated ''{}''))] (ISI_Reconcile refLib demoIsiKey))).
     nilClaims s) \<and> nilClaims (demoAnnotated ''{}'')"
proof -
  let ?p = "ISI_Reconcile refLib demoIsiKey"
  let ?as = "[RObj (OISI demoIsiF), RObj (OSI (demoAnnotated ''{}''))]"
  have "isPanic (snd (play ?as ?p))" by code_simp
  then obtain m where "snd (play ?as ?p) = Panic m" by (auto simp: isPanic_iff)
  then have "steps ?p (fst (play ?as ?p)) (Panic m)" using play_trace_steps [of ?as ?p, OF refl] by simp
  from ISI_panics_only_on_nil_map [OF this] show ?thesis by (rule conjI) code_simp
qed

text \<open>The comparison before the copy never stops it: when the cluster holds the claim and the
  status of the InternalServiceImport already equals the status of the service import, the pass
  still sends that same status again.\<close>

theorem ISI_rewrites_synced_status:
  assumes "om_DeletionTimestamp (isi_ObjectMeta i) = None" and "om_DeletionTimestamp (si_ObjectMeta s) = None"
    and "sis_Clusters (si_Status s) \<noteq> []" and "om_Namespace (isi_ObjectMeta i) \<in> claimants s"
    and "isi_Status i = si_Status s"
  shows "\<exists>k. snd (play [RObj (OISI i), RObj (OSI s)] (ISI_Reconcile L n)) = Call (StatusUpdate Hub (OISI i)) k"
proof -
  have "\<exists>y. mget (siu_MemberClusters (ISI_extractServiceInUseByInfo s)) (om_Namespace (isi_ObjectMeta i)) = Some y"
    using assms(4) by (simp add: claimants_def)
  moreover then have "mlen (siu_MemberClusters (ISI_extractServiceInUseByInfo s)) \<noteq> 0" by (auto simp: mlen_0)
  moreover have "i\<lparr>isi_Status := si_Status s\<rparr> = i" using assms(5) by simp
  ultimately show ?thesis
    using assms(1-3)
    by (auto simp: ISI_Reconcile_def ISI_finishFulfill_def ISI_fulfill_def deepEqualStructPointer_def Let_def prog_simps)
qed

theorem ISI_rewrites_synced_status_witness:
  "\<exists>k. snd (play [RObj (OISI (demoIsiF\<lparr>isi_Status := si_Status demoClaim\<rparr>)), RObj (OSI demoClaim)]
     (ISI_Reconcile refLib demoIsiKey)) = Call (StatusUpdate Hub (OISI (demoIsiF\<lparr>isi_Status := si_Status demoClaim\<rparr>))) k"
proof -
  let ?i = "demoIsiF\<lparr>isi_Status := si_Status demoClaim\<rparr>"
  have "om_DeletionTimestamp (isi_ObjectMeta ?i) = None" "om_DeletionTimestamp (si_ObjectMeta demoClaim) = None"
    "sis_Clusters (si_Status demoClaim) \<noteq> []" by code_simp+
  moreover have "om_Namespace (isi_ObjectMeta ?i) = ''fleet-member-c3''" by code_simp
  then have "om_Namespace (isi_ObjectMeta ?i) \<in> claimants demoClaim" by (simp only: claimants_demoClaim singletonI)
  moreover have "isi_Status ?i = si_Status demoClaim" by simp
  ultimately show ?thesis by (rule ISI_rewrites_synced_status)
qed

end
