(* ===== verification/Observations.thy ===== *)
theory Observations
  imports ApiRetry
begin

text \<open>
  What a history of calls says about the outside world: the objects that an API server has reported
  or accepted, the objects that are gone, and the documented behaviour of a server that answers a
  read or a write of an object with that object. The component theories state their properties with
  these observations.
\<close>

text \<open>The server has reported an object with the property \<open>P\<close>, or has accepted an update to it.\<close>

definition shown :: "cluster \<Rightarrow> (kobj \<Rightarrow> bool) \<Rightarrow> trace \<Rightarrow> bool" where
  "shown c P h \<longleftrightarrow> (\<exists>x. P x \<and>
     ((\<exists>n. (Get c (kindOf x) n, RObj x) \<in> set h) \<or>
      (\<exists>y. (Update c x, RObj y) \<in> set h \<and> kindOf y = kindOf x)))"

text \<open>The server has answered some call with this object.\<close>

definition answered :: "kobj \<Rightarrow> trace \<Rightarrow> bool" where
  "answered x h \<longleftrightarrow> (\<exists>q. (q, RObj x) \<in> set h)"

text \<open>A delete has succeeded, or there was nothing to delete.\<close>

definition deletedBy :: "response \<Rightarrow> bool" where
  "deletedBy a = (case decOk a of None \<Rightarrow> True | Some e \<Rightarrow> IsNotFound e)"

definition gone :: "cluster \<Rightarrow> kind \<Rightarrow> NamespacedName \<Rightarrow> trace \<Rightarrow> bool" where
  "gone c kd n h \<longleftrightarrow>
     (\<exists>e. (Get c kd n, RErr e) \<in> set h \<and> IsNotFound e) \<or> (\<exists>a. (Delete c kd n, a) \<in> set h \<and> deletedBy a)"

text \<open>The API server was asked for the object and does not have it.\<close>

definition absent :: "cluster \<Rightarrow> kind \<Rightarrow> NamespacedName \<Rightarrow> trace \<Rightarrow> bool" where
  "absent c kd n h \<longleftrightarrow> (\<exists>e. (Get c kd n, RErr e) \<in> set h \<and> IsNotFound e)"

text \<open>A list call was answered with these objects.\<close>

definition listed :: "cluster \<Rightarrow> kind \<Rightarrow> selector \<Rightarrow> kobj list \<Rightarrow> trace \<Rightarrow> bool" where
  "listed c kd sel os h \<longleftrightarrow> (ListObjs c kd sel, RObjs os) \<in> set h"

text \<open>
  A server answers a read with the object of that name, and an accepted update or create with the
  object of the same name.
\<close>

definition keyed :: "request \<times> response \<Rightarrow> bool" where
  "keyed qa = (case qa of (q, RObj y) \<Rightarrow>
      (case q of Get c kd n \<Rightarrow> metaKey (metaOfObj y) = n
       | Update c x \<Rightarrow> metaKey (metaOfObj y) = metaKey (metaOfObj x)
       | Create c x \<Rightarrow> metaKey (metaOfObj y) = metaKey (metaOfObj x)
       | _ \<Rightarrow> True)
    | _ \<Rightarrow> True)"

definition honest :: "trace \<Rightarrow> bool" where
  "honest h = list_all keyed h"

text \<open>The requests that change something in a cluster.\<close>

definition writes :: "request \<Rightarrow> bool" where
  "writes q = (case q of Create c x \<Rightarrow> True | Update c x \<Rightarrow> True | StatusUpdate c x \<Rightarrow> True
     | Delete c kd n \<Rightarrow> True | _ \<Rightarrow> False)"

text \<open>The hub has reported an object with the property in answer to any call, or has accepted an update to it.\<close>

definition recorded :: "(kobj \<Rightarrow> bool) \<Rightarrow> trace \<Rightarrow> bool" where
  "recorded P h \<longleftrightarrow> shown Hub P h \<or> (\<exists>x. P x \<and> answered x h)"

section \<open>Lemmas\<close>

lemma shown_mono [simp]: "shown c P h \<Longrightarrow> shown c P (h @ k)"
  by (fastforce simp: shown_def)

lemma shown_get: "P x \<Longrightarrow> (Get c (kindOf x) n, RObj x) \<in> set h \<Longrightarrow> shown c P h"
  by (auto simp: shown_def)

lemma shown_update: "P x \<Longrightarrow> (Update c x, RObj y) \<in> set h \<Longrightarrow> kindOf y = kindOf x \<Longrightarrow> shown c P h"
  by (auto simp: shown_def)

lemma answered_mono [simp]: "answered x h \<Longrightarrow> answered x (h @ k)"
  by (auto simp: answered_def)

lemma answered_last [simp]: "answered x (h @ [(q, RObj x)])"
  by (auto simp: answered_def)

lemma answered_in: "(q, RObj x) \<in> set h \<Longrightarrow> answered x h"
  by (auto simp: answered_def)

lemma answered_set: "answered x h \<longleftrightarrow> RObj x \<in> snd ` set h"
  by (force simp: answered_def)

lemma recorded_mono [simp]: "recorded P h \<Longrightarrow> recorded P (h @ k)"
  by (auto simp: recorded_def intro: shown_mono answered_mono)

lemma recorded_shown: "shown Hub P h \<Longrightarrow> recorded P h"
  by (simp add: recorded_def)

lemma recorded_answered: "P x \<Longrightarrow> (q, RObj x) \<in> set h \<Longrightarrow> recorded P h"
  by (auto simp: recorded_def answered_def)

lemma absent_mono [simp]: "absent c kd n h \<Longrightarrow> absent c kd n (h @ k)"
  by (auto simp: absent_def)

lemma gone_mono [simp]: "gone c kd n h \<Longrightarrow> gone c kd n (h @ k)"
  by (fastforce simp: gone_def)

lemma gone_get: "IsNotFound e \<Longrightarrow> (Get c kd n, RErr e) \<in> set h \<Longrightarrow> gone c kd n h"
  by (auto simp: gone_def)

lemma gone_delete: "deletedBy a \<Longrightarrow> (Delete c kd n, a) \<in> set h \<Longrightarrow> gone c kd n h"
  by (auto simp: gone_def)

lemma gone_deleted: "deletedBy a \<Longrightarrow> gone c kd n (h @ k @ [(Delete c kd n, a)])"
  by (erule gone_delete) simp

lemma listed_mono [simp]: "listed c kd sel os h \<Longrightarrow> listed c kd sel os (h @ k)"
  by (auto simp: listed_def)

lemma honest_append [simp]: "honest (h @ k) \<longleftrightarrow> honest h \<and> honest k"
  by (simp add: honest_def)

lemma honest_Nil [simp]: "honest []"
  by (simp add: honest_def)

lemma honest_Cons [simp]: "honest (x # h) \<longleftrightarrow> keyed x \<and> honest h"
  by (simp add: honest_def)

text \<open>A guard that holds as long as the server is honest.\<close>

lemma guarded_honest:
  assumes "guarded (\<lambda>h q. honest h \<longrightarrow> G h q) [] tr" and "honest tr"
  shows "guarded G [] tr"
proof -
  have "honest (take i tr)" for i
    using assms(2) append_take_drop_id [of i tr] honest_append [of "take i tr" "drop i tr"] by simp
  with assms(1) show ?thesis by (simp add: guarded_def)
qed

lemma keyed_simps [simp]:
  "keyed (Get c kd n, RObj y) \<longleftrightarrow> metaKey (metaOfObj y) = n"
  "keyed (Update c x, RObj y) \<longleftrightarrow> metaKey (metaOfObj y) = metaKey (metaOfObj x)"
  "keyed (Create c x, RObj y) \<longleftrightarrow> metaKey (metaOfObj y) = metaKey (metaOfObj x)"
  "keyed (q, RErr e)"
  by (simp_all add: keyed_def)

lemma metaOfObj_simps [simp]:
  "metaOfObj (OISE x1) = ise_ObjectMeta x1" "metaOfObj (OSI x2) = si_ObjectMeta x2"
  "metaOfObj (OISI x3) = isi_ObjectMeta x3" "metaOfObj (OSE x4) = se_ObjectMeta x4"
  "metaOfObj (OESE x5) = ese_ObjectMeta x5" "metaOfObj (OESI x6) = esi_ObjectMeta x6"
  "metaOfObj (OES x7) = es_ObjectMeta x7" "metaOfObj (OSVC x8) = svc_ObjectMeta x8"
  "metaOfObj (OMCS x9) = mcs_ObjectMeta x9" "metaOfObj (OTMP x10) = tmp_ObjectMeta x10"
  "metaOfObj (OTMB x11) = tmb_ObjectMeta x11" "metaOfObj (OMC x12) = mc_ObjectMeta x12"
  "metaOfObj (OIMC x13) = imc_ObjectMeta x13"
  by (simp_all add: metaOfObj_def)

lemma writes_simps [simp]:
  "\<not> writes (Get c kd n)" "\<not> writes (ListObjs c kd sel)" "\<not> writes (Eventf kd n t r m)" "\<not> writes Now"
  "writes (Create c x)" "writes (Update c x)" "writes (StatusUpdate c x)" "writes (Delete c kd n)"
  by (simp_all add: writes_def)

lemma metaKey_sel [simp]: "nn_Namespace (metaKey m) = om_Namespace m" "nn_Name (metaKey m) = om_Name m"
  by (simp_all add: metaKey_def)

text \<open>A decoded list is the list of objects in the answer.\<close>

lemma those_map_eq:
  "those (map (\<lambda>o1. case dec (RObj o1) of Inl e \<Rightarrow> None | Inr x \<Rightarrow> Some x) os) = Some xs \<longleftrightarrow>
     list_all2 (\<lambda>o1 x. dec (RObj o1) = Inr x) os xs"
proof (induction os arbitrary: xs)
  case (Cons o1 os)
  show ?case
  proof (cases "dec (RObj o1)")
    case (Inr y)
    then show ?thesis by (cases xs) (auto simp: Cons.IH [symmetric] map_option_case split: option.splits)
  qed (auto simp: list_all2_Cons1)
qed auto

lemma decList_Inr: "decList dec a = Inr xs \<longleftrightarrow> (\<exists>os. a = RObjs os \<and> list_all2 (\<lambda>o1 x. dec (RObj o1) = Inr x) os xs)"
  by (auto simp: decList_def those_map_eq [symmetric] split: response.splits option.splits)

lemma list_all2_inject: "list_all2 (\<lambda>o1 x. RObj o1 = RObj (f x)) os xs \<longleftrightarrow> os = map f xs"
  by (auto simp: list_all2_map2 [symmetric] list.rel_eq)

lemma decList_iff [simp]:
  "decList decESI a = Inr x1 \<longleftrightarrow> a = RObjs (map OESI x1)"
  "decList decESE a = Inr x2 \<longleftrightarrow> a = RObjs (map OESE x2)"
  "decList decES a = Inr x3 \<longleftrightarrow> a = RObjs (map OES x3)"
  "decList decISI a = Inr x4 \<longleftrightarrow> a = RObjs (map OISI x4)"
  "decList decTMB a = Inr x5 \<longleftrightarrow> a = RObjs (map OTMB x5)"
  "decList decMCS a = Inr x6 \<longleftrightarrow> a = RObjs (map OMCS x6)"
  "decList decISE a = Inr x7 \<longleftrightarrow> a = RObjs (map OISE x7)"
  "decList decSE a = Inr x8 \<longleftrightarrow> a = RObjs (map OSE x8)"
  by (simp_all only: decList_Inr dec_Inr_iff list_all2_inject) blast+

text \<open>A retried delete.\<close>

lemma wp_retry_delete:
  assumes "retry_laws L" and "\<And>k. G (h @ k) (Delete c kd n)"
  shows "wp G (\<lambda>h' r. \<exists>k a. h' = h @ k @ [(Delete c kd n, a)] \<and> fst r = decOk a)
     (retryDo L (\<lambda>x. call (Delete c kd n) (\<lambda>a. (decOk a, x))) x) h"
  by (rule wp_conseq [OF wp_retry_single [where q = "\<lambda>x. Delete c kd n" and d = "\<lambda>x a. (decOk a, x)", OF assms(1)]])
    (use assms(2) in auto)

text \<open>The functions of an error group: each runs once, in some order.\<close>

lemma wp_runAll:
  assumes "\<And>p h. p \<in> set ps \<Longrightarrow> I h \<Longrightarrow> wp G (\<lambda>h' r. I h' \<and> R p h' r) p h"
    and mono: "\<And>p h k r. R p h r \<Longrightarrow> R p (h @ k) r" and "I h"
  shows "wp G (\<lambda>h' rs. I h' \<and> list_all2 (\<lambda>p r. R p h' r) ps rs) (runAll ps) h"
  using assms(1,3)
proof (induction ps arbitrary: h)
  case (Cons p ps)
  have first: "wp G (\<lambda>h' r. I h' \<and> R p h' r) p h" using Cons.prems by simp
  have rest: "wp G (\<lambda>h'' rs. (I h'' \<and> list_all2 (\<lambda>p r. R p h'' r) ps rs) \<and> (\<exists>k. h'' = h' @ k)) (runAll ps) h'"
    if "I h'" for h'
    by (rule wp_ext [OF Cons.IH]) (use Cons.prems(1) that in auto)
  show ?case
    unfolding runAll.simps
    by (rule wp_bindI [OF first], erule conjE, rule wp_bindI [OF rest]) (auto intro: mono)
qed simp

lemma wp_errgroup:
  assumes "errgroup_laws L" and "\<And>p h. p \<in> set ps \<Longrightarrow> I h \<Longrightarrow> wp G (\<lambda>h' r. I h' \<and> R p h' r) p h"
    and "\<And>p h k r. R p h r \<Longrightarrow> R p (h @ k) r" and "I h"
  shows "wp G (\<lambda>h' r. I h' \<and> (r = None \<longrightarrow> (\<forall>p \<in> set ps. R p h' None))) (LibErrGroup L ps) h"
proof -
  obtain qs pick where qs: "mset qs = mset ps" "LibErrGroup L ps = bindP (runAll qs) (\<lambda>rs. Ret (pick rs))"
    "\<forall>rs. pick rs = None \<longleftrightarrow> list_all (\<lambda>r. r = None) rs"
    using assms(1) unfolding errgroup_laws_def by blast
  have set: "set qs = set ps" using qs(1) by (metis set_mset_mset)
  have "wp G (\<lambda>h' rs. I h' \<and> list_all2 (\<lambda>p r. R p h' r) qs rs) (runAll qs) h"
    by (rule wp_runAll) (use assms set in auto)
  then show ?thesis
    unfolding qs(2)
  proof (rule wp_bindI)
    fix h' rs
    assume *: "I h' \<and> list_all2 (\<lambda>p r. R p h' r) qs rs"
    have "R p h' None" if "list_all (\<lambda>r. r = None) rs" "p \<in> set ps" for p
    proof -
      from that(2) set obtain i where i: "i < length qs" "qs ! i = p" by (metis in_set_conv_nth)
      from * have l: "list_all2 (\<lambda>p r. R p h' r) qs rs" by blast
      have "rs ! i = None" using that(1) i(1) list_all2_lengthD [OF l] by (simp add: list_all_length)
      with list_all2_nthD [OF l i(1)] i(2) show ?thesis by simp
    qed
    with * qs(3) show "wp G (\<lambda>h' r. I h' \<and> (r = None \<longrightarrow> (\<forall>p \<in> set ps. R p h' None))) (Ret (pick rs)) h'" by simp
  qed
qed

lemma wp_errgroup_map:
  assumes "errgroup_laws L" and one: "\<And>x h. x \<in> set xs \<Longrightarrow> I h \<Longrightarrow> wp G (\<lambda>h' r. I h' \<and> R x h' r) (f x) h"
    and "\<And>x h k r. R x h r \<Longrightarrow> R x (h @ k) r" and "I h"
  shows "wp G (\<lambda>h' r. I h' \<and> (r = None \<longrightarrow> (\<forall>x \<in> set xs. R x h' None))) (LibErrGroup L (map f xs)) h"
proof -
  let ?R = "\<lambda>p h r. \<forall>x \<in> {x \<in> set xs. f x = p}. R x h r"
  have each: "wp G (\<lambda>h' r. I h' \<and> ?R p h' r) p h" if p: "p \<in> set (map f xs)" and I: "I h" for p h
  proof (rule wp_conj)
    from p obtain x where x: "x \<in> set xs" "p = f x" by auto
    from one [OF x(1) I] show inv: "wp G (\<lambda>h' r. I h') p h"
      unfolding x(2) by (rule wp_conseq [where Q = "\<lambda>h' r. I h' \<and> R x h' r" and G = G]) auto
    have "wp G (R y) p h" if "y \<in> {x \<in> set xs. f x = p}" for y
    proof -
      from that have y: "y \<in> set xs" "p = f y" by auto
      from one [OF y(1) I] show ?thesis
        unfolding y(2) by (rule wp_conseq [where Q = "\<lambda>h' r. I h' \<and> R y h' r" and G = G]) auto
    qed
    moreover have "wp G (\<lambda>_ _. True) p h"
      by (rule wp_conseq [where Q = "\<lambda>h' r. I h'" and G = G, OF inv]) auto
    ultimately show "wp G (?R p) p h" by (intro wp_Ball)
  qed
  have mono: "\<And>p h k r. ?R p h r \<Longrightarrow> ?R p (h @ k) r" using assms(3) by blast
  show ?thesis
    by (rule wp_conseq [OF wp_errgroup [where R = ?R and ps = "map f xs" and I = I, OF assms(1) each mono assms(4)]]) auto
qed

end
