(* ===== verification/Hub_EndpointSliceExport.thy ===== *)
theory Hub_EndpointSliceExport
  imports Hub_InternalServiceImport Observations
begin

text \<open>
  The EndpointSliceExport controller of the hub cluster
  (\<open>pkg/controllers/hub/endpointsliceexport/controller.go\<close>): it distributes an exported endpoint slice
  as an EndpointSliceImport in the namespace of each member cluster that has claimed the service, and
  withdraws the EndpointSliceImports that are no longer wanted.
\<close>

definition endpointSliceExportCleanupFinalizer :: string where
  "endpointSliceExportCleanupFinalizer = ''networking.fleet.azure.com/endpointsliceexport-cleanup''"

definition endpointSliceImportNameFieldKey :: string where
  "endpointSliceImportNameFieldKey = ''.metadata.name''"

definition endpointSliceExportOwnerSvcNamespacedNameFieldKey :: string where
  "endpointSliceExportOwnerSvcNamespacedNameFieldKey = ''.spec.ownerServiceReference.namespacedName''"

definition hubEndpointSliceExportRetryInterval :: int where
  "hubEndpointSliceExportRetryInterval = seconds 5"

text \<open>The indexes by which the lists below are served.\<close>

definition endpointSliceImportIndexerFunc :: "kobj \<Rightarrow> string list" where
  "endpointSliceImportIndexerFunc x = (case x of OESI i \<Rightarrow> [om_Name (esi_ObjectMeta i)] | _ \<Rightarrow> [])"

definition endpointSliceExportIndexerFunc :: "kobj \<Rightarrow> string list" where
  "endpointSliceExportIndexerFunc x =
     (case x of OESE e \<Rightarrow> [osr_NamespacedName (eses_OwnerServiceReference (ese_Spec e))] | _ \<Rightarrow> [])"

section \<open>The controller\<close>

definition ESX_removeCleanupFinalizer :: "Lib \<Rightarrow> EndpointSliceExport \<Rightarrow> (err option \<times> EndpointSliceExport) op" where
  "ESX_removeCleanupFinalizer L e = doUpdate Hub OESE decESE
     (e\<lparr>ese_ObjectMeta := LibRemoveFinalizer L (ese_ObjectMeta e) endpointSliceExportCleanupFinalizer\<rparr>)"

definition ESX_addCleanupFinalizer :: "Lib \<Rightarrow> EndpointSliceExport \<Rightarrow> (err option \<times> EndpointSliceExport) op" where
  "ESX_addCleanupFinalizer L e = doUpdate Hub OESE decESE
     (e\<lparr>ese_ObjectMeta := LibAddFinalizer L (ese_ObjectMeta e) endpointSliceExportCleanupFinalizer\<rparr>)"

definition importsNamed :: "string \<Rightarrow> selector" where
  "importsNamed nm = selAll\<lparr>sel_Field := Some (endpointSliceImportNameFieldKey, nm)\<rparr>"

text \<open>The retried delete of an EndpointSliceImport; nil when it is gone.\<close>

definition ESX_withdraw :: "Lib \<Rightarrow> EndpointSliceImport \<Rightarrow> err option op" where
  "ESX_withdraw L i =
     bindP (retryDo L (\<lambda>x. call (Delete Hub KEndpointSliceImport (metaKey (esi_ObjectMeta i))) (\<lambda>a. (decOk a, x))) (OESI i))
       (\<lambda>(er, _). case er of None \<Rightarrow> Ret None | Some e \<Rightarrow> if \<not> IsNotFound e then Ret (Some e) else Ret None)"

definition ESX_withdrawAll :: "Lib \<Rightarrow> EndpointSliceExport \<Rightarrow> err option op" where
  "ESX_withdrawAll L e =
     bindP (doList Hub KEndpointSliceImport decESI (importsNamed (om_Name (ese_ObjectMeta e)))) (\<lambda>r.
       case r of
         Inl er \<Rightarrow> Ret (Some er)
       | Inr items \<Rightarrow>
           bindP (forP items () (\<lambda>i _. bindP (ESX_withdraw L i) (\<lambda>er.
             case er of Some x \<Rightarrow> Ret (Inl x) | None \<Rightarrow> Ret (Inr ())))) (\<lambda>r2.
           case r2 of
             Inl er \<Rightarrow> Ret (Some er)
           | Inr _ \<Rightarrow> bindP (ESX_removeCleanupFinalizer L e) (\<lambda>(er, _). Ret er)))"

text \<open>
  The scan, after the list call: the imports found are matched with the clusters that have claimed the
  service, each match is removed from the claims, and the claims left over get a new import, in the
  order in which the \<open>range\<close> loop visits them.
\<close>

fun ESX_match :: "EndpointSliceImport list \<Rightarrow> string gomap \<Rightarrow>
    EndpointSliceImport list \<times> EndpointSliceImport list \<times> string gomap" where
  "ESX_match [] claims = ([], [], claims)"
| "ESX_match (i # is) claims =
     (let nsKey = om_Namespace (esi_ObjectMeta i) in
      if mget claims nsKey \<noteq> None
      then (case ESX_match is (mdel nsKey claims) of (w, u, c) \<Rightarrow> (w, i # u, c))
      else (case ESX_match is claims of (w, u, c) \<Rightarrow> (i # w, u, c)))"

definition newESI :: "string \<Rightarrow> string \<Rightarrow> EndpointSliceImport" where
  "newESI ns nm = \<lparr>esi_ObjectMeta = metaOf ns nm, esi_Spec = zeroESESpec\<rparr>"

definition ESX_scan :: "Lib \<Rightarrow> EndpointSliceExport \<Rightarrow> ServiceInUseBy \<Rightarrow> EndpointSliceImport list \<Rightarrow>
    EndpointSliceImport list \<times> EndpointSliceImport list" where
  "ESX_scan L e svcInUseBy items =
     (case ESX_match items (siu_MemberClusters svcInUseBy) of (w, u, c) \<Rightarrow>
       (w, u @ map (\<lambda>ns. newESI ns (om_Name (ese_ObjectMeta e))) (LibMapOrder L (mkeys c))))"

definition ESX_scanForEndpointSliceImports :: "Lib \<Rightarrow> EndpointSliceExport \<Rightarrow> ServiceInUseBy \<Rightarrow>
    (err + EndpointSliceImport list \<times> EndpointSliceImport list) op" where
  "ESX_scanForEndpointSliceImports L e svcInUseBy =
     bindP (doList Hub KEndpointSliceImport decESI (importsNamed (om_Name (ese_ObjectMeta e)))) (\<lambda>r.
       case r of
         Inl er \<Rightarrow> Ret (Inl er)
       | Inr items \<Rightarrow> Ret (Inr (ESX_scan L e svcInUseBy items)))"

text \<open>The mutate function of \<open>CreateOrUpdate\<close>.\<close>

definition ESX_setSpec :: "EndpointSliceExport \<Rightarrow> kobj \<Rightarrow> (err option \<times> kobj) op" where
  "ESX_setSpec e x = Ret (None, case x of OESI i \<Rightarrow> OESI (i\<lparr>esi_Spec := ese_Spec e\<rparr>) | _ \<Rightarrow> x)"

definition ESX_upsert :: "Lib \<Rightarrow> EndpointSliceExport \<Rightarrow> EndpointSliceImport \<Rightarrow> err option op" where
  "ESX_upsert L e i = bindP (retryDo L (\<lambda>x. LibCreateOrUpdate L Hub x (ESX_setSpec e)) (OESI i)) (\<lambda>(er, _). Ret er)"

text \<open>The two loops of \<open>Reconcile\<close> over the result of the scan.\<close>

definition ESX_distribute :: "Lib \<Rightarrow> EndpointSliceExport \<Rightarrow> EndpointSliceImport list \<Rightarrow> EndpointSliceImport list
    \<Rightarrow> outcome op" where
  "ESX_distribute L e toWithdraw toUpsert =
     bindP (forP toWithdraw () (\<lambda>i _.
        if om_DeletionTimestamp (esi_ObjectMeta i) \<noteq> None then Ret (Inr ())
        else bindP (ESX_withdraw L i) (\<lambda>er.
          case er of Some x \<Rightarrow> Ret (Inl (emptyResult, Some x)) | None \<Rightarrow> Ret (Inr ())))) (\<lambda>r.
       case r of
         Inl out \<Rightarrow> Ret out
       | Inr _ \<Rightarrow>
           bindP (forP toUpsert () (\<lambda>i _. bindP (ESX_upsert L e i) (\<lambda>er.
             case er of Some x \<Rightarrow> Ret (Inl (emptyResult, Some x)) | None \<Rightarrow> Ret (Inr ())))) (\<lambda>r2.
           case r2 of Inl out \<Rightarrow> Ret out | Inr _ \<Rightarrow> Ret (emptyResult, None)))"

definition ESX_scanAndDistribute :: "Lib \<Rightarrow> ServiceInUseBy \<Rightarrow> EndpointSliceExport \<Rightarrow> outcome op" where
  "ESX_scanAndDistribute L svcInUseBy e =
     bindP (ESX_scanForEndpointSliceImports L e svcInUseBy) (\<lambda>r.
       case r of
         Inl er \<Rightarrow> Ret (emptyResult, Some er)
       | Inr (w, u) \<Rightarrow> ESX_distribute L e w u)"

text \<open>The pass over a live export, once its service import has been read.\<close>

definition ESX_syncWithImport :: "Lib \<Rightarrow> EndpointSliceExport \<Rightarrow> ServiceImport \<Rightarrow> outcome op" where
  "ESX_syncWithImport L e s =
     (if sis_Clusters (si_Status s) = [] then Ret (requeueAfter hubEndpointSliceExportRetryInterval, None)
      else
        (case mget (om_Annotations (si_ObjectMeta s)) ServiceImportAnnotationServiceInUseBy of
           None \<Rightarrow> bindP (ESX_withdrawAll L e) (\<lambda>er.
             case er of Some x \<Rightarrow> Ret (emptyResult, Some x) | None \<Rightarrow> Ret (emptyResult, None))
         | Some data \<Rightarrow>
             (case unmarshalInUseBy data of
                None \<Rightarrow> Ret (emptyResult, None)
              | Some svcInUseBy \<Rightarrow>
                  if \<not> LibContainsFinalizer L (ese_ObjectMeta e) endpointSliceExportCleanupFinalizer
                  then bindP (ESX_addCleanupFinalizer L e) (\<lambda>(er, e1).
                    case er of Some x \<Rightarrow> Ret (emptyResult, Some x)
                    | None \<Rightarrow> ESX_scanAndDistribute L svcInUseBy e1)
                  else ESX_scanAndDistribute L svcInUseBy e)))"

definition ESX_Reconcile :: "Lib \<Rightarrow> NamespacedName \<Rightarrow> outcome op" where
  "ESX_Reconcile L name =
     bindP (getESE Hub name) (\<lambda>r.
       case r of
         Inl er \<Rightarrow> if IsNotFound er then Ret (emptyResult, None) else Ret (emptyResult, Some er)
       | Inr e \<Rightarrow>
           if om_DeletionTimestamp (ese_ObjectMeta e) \<noteq> None then
             (if LibContainsFinalizer L (ese_ObjectMeta e) endpointSliceExportCleanupFinalizer
              then bindP (ESX_withdrawAll L e) (\<lambda>er.
                case er of Some x \<Rightarrow> Ret (emptyResult, Some x) | None \<Rightarrow> Ret (emptyResult, None))
              else Ret (emptyResult, None))
           else
             let ref = eses_OwnerServiceReference (ese_Spec e);
                 svcImportKey = \<lparr>nn_Namespace = osr_Namespace ref, nn_Name = osr_Name ref\<rparr>
             in bindP (getSI Hub svcImportKey) (\<lambda>r2.
               case r2 of
                 Inl er \<Rightarrow> if IsNotFound er then Ret (requeueAfter hubEndpointSliceExportRetryInterval, None)
                            else Ret (emptyResult, Some er)
               | Inr s \<Rightarrow> ESX_syncWithImport L e s))"

text \<open>The event handler: which EndpointSliceExports to look at when a service import changes.\<close>

definition ESX_requestsForServiceImport :: "ServiceImport \<Rightarrow> NamespacedName list op" where
  "ESX_requestsForServiceImport s =
     bindP (doList Hub KEndpointSliceExport decESE
        (selAll\<lparr>sel_Field := Some (endpointSliceExportOwnerSvcNamespacedNameFieldKey,
           om_Namespace (si_ObjectMeta s) @ ''/'' @ om_Name (si_ObjectMeta s))\<rparr>)) (\<lambda>r.
       case r of
         Inl er \<Rightarrow> Ret []
       | Inr items \<Rightarrow> Ret (map (\<lambda>e. \<lparr>nn_Namespace = om_Namespace (ese_ObjectMeta e),
                                       nn_Name = om_Name (ese_ObjectMeta e)\<rparr>) items))"

section \<open>What is said of the controller\<close>

definition hasESXFinalizer :: "kobj \<Rightarrow> bool" where
  "hasESXFinalizer x = (case x of OESE e \<Rightarrow> endpointSliceExportCleanupFinalizer \<in> set (om_Finalizers (ese_ObjectMeta e)) | _ \<Rightarrow> False)"

text \<open>The import may be written: the export with the finalizer is on record, the import carries its
  spec and name, and the cluster of its namespace has claimed the service.\<close>

definition entitled :: "trace \<Rightarrow> EndpointSliceImport \<Rightarrow> bool" where
  "entitled h i \<longleftrightarrow> shown Hub hasESXFinalizer h \<and>
     (\<exists>s. answered (OSI s) h \<and> om_Namespace (esi_ObjectMeta i) \<in> claimants s) \<and>
     (\<exists>e. answered (OESE e) h \<and> esi_Spec i = ese_Spec e \<and>
        (om_Name (esi_ObjectMeta i) = om_Name (ese_ObjectMeta e) \<or>
         (\<exists>os j. listed Hub KEndpointSliceImport (importsNamed (om_Name (ese_ObjectMeta e))) os h \<and> OESI j \<in> set os \<and>
            metaKey (esi_ObjectMeta j) = metaKey (esi_ObjectMeta i))))"

text \<open>All imports of the export that the server has listed are gone.\<close>

definition withdrawn :: "trace \<Rightarrow> string \<Rightarrow> bool" where
  "withdrawn h nm \<longleftrightarrow> (\<exists>items. listed Hub KEndpointSliceImport (importsNamed nm) (map OESI items) h \<and>
     (\<forall>i \<in> set items. gone Hub KEndpointSliceImport (metaKey (esi_ObjectMeta i)) h))"

definition ESX_guard :: "trace \<Rightarrow> request \<Rightarrow> bool" where
  "ESX_guard h q \<longleftrightarrow>
     (case q of
        Get c kd n \<Rightarrow> True
      | ListObjs c kd sel \<Rightarrow> True
      | Create c x \<Rightarrow> (case x of OESI i \<Rightarrow> c = Hub \<and> entitled h i | _ \<Rightarrow> False)
      | Update c x \<Rightarrow>
          (case x of OESI i \<Rightarrow> c = Hub \<and> entitled h i
           | OESE e \<Rightarrow> c = Hub \<and> (hasESXFinalizer x \<or> withdrawn h (om_Name (ese_ObjectMeta e)))
           | _ \<Rightarrow> False)
      | Delete c kd n \<Rightarrow> c = Hub \<and> kd = KEndpointSliceImport
      | _ \<Rightarrow> False)"

text \<open>The cluster has the endpoints: an import in its namespace with the spec of the export was accepted
  or found.\<close>

definition provided :: "trace \<Rightarrow> EndpointSliceExportSpec \<Rightarrow> string \<Rightarrow> bool" where
  "provided h sp ns \<longleftrightarrow> (\<exists>i y n. esi_Spec i = sp \<and> om_Namespace (esi_ObjectMeta i) = ns \<and>
     ((Create Hub (OESI i), RObj (OESI y)) \<in> set h \<or> (Update Hub (OESI i), RObj (OESI y)) \<in> set h \<or>
      (Get Hub KEndpointSliceImport n, RObj (OESI i)) \<in> set h))"

definition distributed :: "trace \<Rightarrow> string set \<Rightarrow> EndpointSliceExport \<Rightarrow> bool" where
  "distributed h clusters e \<longleftrightarrow>
     (\<forall>ns \<in> clusters. provided h (ese_Spec e) ns) \<and>
     (\<exists>items. listed Hub KEndpointSliceImport (importsNamed (om_Name (ese_ObjectMeta e))) (map OESI items) h \<and>
        (\<forall>i \<in> set items. om_Namespace (esi_ObjectMeta i) \<notin> clusters \<longrightarrow>
           om_DeletionTimestamp (esi_ObjectMeta i) \<noteq> None \<or> gone Hub KEndpointSliceImport (metaKey (esi_ObjectMeta i)) h))"

definition claimsDecodable :: "ServiceImport \<Rightarrow> bool" where
  "claimsDecodable s = (case mget (om_Annotations (si_ObjectMeta s)) ServiceImportAnnotationServiceInUseBy of
     None \<Rightarrow> False | Some data \<Rightarrow> unmarshalInUseBy data \<noteq> None)"

text \<open>The service import that a pass over a live export has read, if its claims can be decoded.\<close>

definition claimsRead :: "trace \<Rightarrow> ServiceImport option" where
  "claimsRead h = (case h of (_, RObj (OESE e)) # (_, RObj (OSI s)) # _ \<Rightarrow>
       if om_DeletionTimestamp (ese_ObjectMeta e) = None \<and> claimsDecodable s then Some s else None
     | _ \<Rightarrow> None)"

text \<open>Objects for the examples: an endpoint slice of the service \<open>work/app\<close>, claimed by the cluster \<open>c3\<close> and
  still present in the namespace of the cluster \<open>c4\<close>.\<close>

definition demoEse :: EndpointSliceExport where
  "demoEse = \<lparr>ese_ObjectMeta = (metaOf ''fleet-member-c1'' ''work-app-1'')\<lparr>om_Finalizers := [endpointSliceExportCleanupFinalizer]\<rparr>,
     ese_Spec = zeroESESpec\<lparr>eses_AddressType := ''IPv4'', eses_Endpoints := [\<lparr>e_Addresses = [''1.2.3.4'']\<rparr>],
       eses_OwnerServiceReference := \<lparr>osr_Namespace = ''work'', osr_Name = ''app'', osr_NamespacedName = ''work/app''\<rparr>\<rparr>\<rparr>"

definition demoEseKey :: NamespacedName where
  "demoEseKey = metaKey (ese_ObjectMeta demoEse)"

definition demoEsi :: "string \<Rightarrow> EndpointSliceImport" where
  "demoEsi ns = newESI ns ''work-app-1''"

definition demoDistribution :: trace where
  "demoDistribution =
     [(Get Hub KEndpointSliceExport demoEseKey, RObj (OESE demoEse)), (Get Hub KServiceImport demoImportKey, RObj (OSI demoClaim)),
      (ListObjs Hub KEndpointSliceImport (importsNamed ''work-app-1''), RObjs [OESI (demoEsi ''fleet-member-c4'')]),
      (Delete Hub KEndpointSliceImport (metaKey (esi_ObjectMeta (demoEsi ''fleet-member-c4''))), ROk),
      (Get Hub KEndpointSliceImport (metaKey (esi_ObjectMeta (demoEsi ''fleet-member-c3''))), notFound),
      (Create Hub (OESI ((demoEsi ''fleet-member-c3'')\<lparr>esi_Spec := ese_Spec demoEse\<rparr>)),
        RObj (OESI ((demoEsi ''fleet-member-c3'')\<lparr>esi_Spec := ese_Spec demoEse\<rparr>)))]"

section \<open>Lemmas on the scan\<close>

lemma ESX_match_correct:
  "ESX_match is claims = (w, u, c) \<Longrightarrow>
     set is = set w \<union> set u \<and>
     (\<forall>i \<in> set u. mget claims (om_Namespace (esi_ObjectMeta i)) \<noteq> None) \<and>
     (\<forall>i \<in> set w. mget claims (om_Namespace (esi_ObjectMeta i)) = None \<or>
        om_Namespace (esi_ObjectMeta i) \<in> om_Namespace ` esi_ObjectMeta ` set u) \<and>
     (\<forall>k. mget c k = (if k \<in> om_Namespace ` esi_ObjectMeta ` set u then None else mget claims k)) \<and>
     distinct (map (om_Namespace \<circ> esi_ObjectMeta) u)"
proof (induction "is" claims arbitrary: w u c rule: ESX_match.induct)
  case (2 i "is" claims)
  let ?ns = "om_Namespace (esi_ObjectMeta i)"
  show ?case
  proof (cases "mget claims ?ns = None")
    case True
    obtain w' where "ESX_match is claims = (w', u, c)" "w = i # w'"
      using "2.prems" True by (auto simp: Let_def split: prod.splits)
    with "2.IH"(2) [OF refl _ this(1)] True show ?thesis by auto
  next
    case False
    obtain u' where u': "ESX_match is (mdel ?ns claims) = (w, u', c)" "u = i # u'"
      using "2.prems" False by (auto simp: Let_def split: prod.splits)
    from "2.IH"(1) [OF refl False u'(1)] False u'(2) show ?thesis by (auto split: if_splits)
  qed
qed auto

section \<open>Lemmas on the controller\<close>

lemma kindOf_ESI: "kindOf x = KEndpointSliceImport \<longleftrightarrow> (\<exists>i. x = OESI i)"
  by (cases x) (simp_all add: kindOf_def)

abbreviation ESX_G :: "trace \<Rightarrow> request \<Rightarrow> bool" where
  "ESX_G \<equiv> (\<lambda>h q. honest h \<longrightarrow> ESX_guard h q)"

lemma ESX_guard_simps [simp]:
  "ESX_guard h (Get c kd n)" "ESX_guard h (ListObjs c kd sel)"
  "ESX_guard h (Create c (OESI i)) \<longleftrightarrow> c = Hub \<and> entitled h i"
  "ESX_guard h (Update c (OESI i)) \<longleftrightarrow> c = Hub \<and> entitled h i"
  "ESX_guard h (Update c (OESE e)) \<longleftrightarrow> c = Hub \<and> (hasESXFinalizer (OESE e) \<or> withdrawn h (om_Name (ese_ObjectMeta e)))"
  "ESX_guard h (Delete c kd n) \<longleftrightarrow> c = Hub \<and> kd = KEndpointSliceImport"
  by (simp_all add: ESX_guard_def)

lemma withdrawn_mono [simp]: "withdrawn h nm \<Longrightarrow> withdrawn (h @ k) nm"
  unfolding withdrawn_def by (meson listed_mono gone_mono)

lemma providedI:
  "esi_Spec i = sp \<Longrightarrow> om_Namespace (esi_ObjectMeta i) = ns \<Longrightarrow>
     (Create Hub (OESI i), RObj (OESI y)) \<in> set h \<or> (Update Hub (OESI i), RObj (OESI y)) \<in> set h \<or>
     (Get Hub KEndpointSliceImport n, RObj (OESI i)) \<in> set h \<Longrightarrow> provided h sp ns"
  unfolding provided_def by blast

lemma provided_mono [simp]: "provided h sp ns \<Longrightarrow> provided (h @ k) sp ns"
  by (fastforce simp: provided_def)

lemma ESX_withdraw_wp:
  assumes "retry_laws L"
  shows "wp ESX_G (\<lambda>h' r. (\<exists>k. h' = h @ k) \<and> (r = None \<longrightarrow> gone Hub KEndpointSliceImport (metaKey (esi_ObjectMeta i)) h'))
     (ESX_withdraw L i) h"
  unfolding ESX_withdraw_def
  by (rule wp_bindI [OF wp_retry_delete [OF assms]])
    (auto simp: deletedBy_def split: option.splits intro!: gone_deleted)

lemma ESX_withdrawAll_wp:
  assumes "finalizer_laws L" and "retry_laws L"
  shows "wp ESX_G (\<lambda>_ _. True) (ESX_withdrawAll L e) h"
proof -
  let ?nm = "om_Name (ese_ObjectMeta e)" and ?body = "\<lambda>i (_ :: unit). bindP (ESX_withdraw L i) (\<lambda>er.
      case er of Some x \<Rightarrow> Ret (Inl x) | None \<Rightarrow> Ret (Inr ()))"
  have loop: "wp ESX_G (\<lambda>h' r. case r of Inl x \<Rightarrow> True | Inr u \<Rightarrow> withdrawn h' ?nm) (forP items () ?body) h"
    if "listed Hub KEndpointSliceImport (importsNamed ?nm) (map OESI items) h" for items h
  proof (rule wp_forP_prefix [where I = "\<lambda>pre h _. listed Hub KEndpointSliceImport (importsNamed ?nm) (map OESI items) h \<and>
        (\<forall>i \<in> set pre. gone Hub KEndpointSliceImport (metaKey (esi_ObjectMeta i)) h)"], goal_cases)
    case (2 pre x post u h)
    then show ?case by (intro wp_bindI [OF ESX_withdraw_wp [OF assms(2)]]) (auto split: option.splits)
  qed (use that in \<open>auto simp: withdrawn_def\<close>)
  have "om_Name (LibRemoveFinalizer L (ese_ObjectMeta e) f) = ?nm" for f
    by (rule finalizer_laws_fields [OF assms(1)])
  then show ?thesis
    unfolding ESX_withdrawAll_def
    by (auto simp: prog_simps ESX_removeCleanupFinalizer_def listed_def split: sum.splits prod.splits
        intro!: wp_bindI [OF loop])
qed

text \<open>What entitles the controller to write the import of a namespace, given by its key.\<close>

definition mayWrite :: "trace \<Rightarrow> EndpointSliceExport \<Rightarrow> NamespacedName \<Rightarrow> bool" where
  "mayWrite h e key \<longleftrightarrow> shown Hub hasESXFinalizer h \<and>
     (\<exists>s. answered (OSI s) h \<and> nn_Namespace key \<in> claimants s) \<and> answered (OESE e) h \<and>
     (nn_Name key = om_Name (ese_ObjectMeta e) \<or>
      (\<exists>os j. listed Hub KEndpointSliceImport (importsNamed (om_Name (ese_ObjectMeta e))) os h \<and> OESI j \<in> set os \<and>
         metaKey (esi_ObjectMeta j) = key))"

lemma mayWrite_mono [simp]: "mayWrite h e key \<Longrightarrow> mayWrite (h @ k) e key"
  unfolding mayWrite_def by (blast intro: shown_mono answered_mono listed_mono)

lemma mayWrite_entitled:
  "mayWrite h e (metaKey (esi_ObjectMeta i)) \<Longrightarrow> esi_Spec i = ese_Spec e \<Longrightarrow> entitled h i"
  by (auto simp: mayWrite_def entitled_def metaKey_def)

lemma ESX_upsert_once:
  assumes "mayWrite h e key" and "honest h \<longrightarrow> metaKey (esi_ObjectMeta i) = key"
  shows "wp ESX_G (\<lambda>h' r. ((\<exists>j. snd r = OESI j \<and> (honest h' \<longrightarrow> metaKey (esi_ObjectMeta j) = key)) \<and> mayWrite h' e key) \<and>
      (fst r = None \<longrightarrow> honest h' \<longrightarrow> provided h' (ese_Spec e) (nn_Namespace key)))
    (createOrUpdateDoc Hub (OESI i) (ESX_setSpec e)) h"
proof -
  have ns: "metaKey m = metaKey m' \<Longrightarrow> om_Namespace m = om_Namespace m'" for m m'
    by (simp add: metaKey_def)
  have created: "provided (h @ [x, (Create Hub (OESI (i\<lparr>esi_Spec := ese_Spec e\<rparr>)), RObj (OESI y))]) (ese_Spec e)
      (om_Namespace (esi_ObjectMeta i))" for x y
    by (rule providedI [of "i\<lparr>esi_Spec := ese_Spec e\<rparr>" _ _ y]) simp_all
  have found: "provided (h @ [(Get Hub KEndpointSliceImport n, RObj (OESI j))]) (ese_Spec e) (om_Namespace (esi_ObjectMeta i))"
    if "j\<lparr>esi_Spec := ese_Spec e\<rparr> = j" "metaKey (esi_ObjectMeta j) = metaKey (esi_ObjectMeta i)" for j n
  proof -
    have "esi_Spec j = ese_Spec e" using arg_cong [OF that(1), of esi_Spec] by simp
    then show ?thesis by (rule providedI [OF _ ns [OF that(2)], where n = n and y = j]) simp
  qed
  have updated: "provided (h @ [x, (Update Hub (OESI (j\<lparr>esi_Spec := ese_Spec e\<rparr>)), RObj (OESI y))]) (ese_Spec e)
      (om_Namespace (esi_ObjectMeta i))" if "metaKey (esi_ObjectMeta j) = metaKey (esi_ObjectMeta i)" for x j y
    by (rule providedI [of "j\<lparr>esi_Spec := ese_Spec e\<rparr>" _ _ y]) (simp_all add: ns [OF that])
  show ?thesis
    using assms unfolding createOrUpdateDoc_def ESX_setSpec_def
    by (auto simp: prog_simps kindOf_ESI created found updated split: sum.splits intro!: mayWrite_entitled [where e = e])
qed

lemma ESX_upsert_wp:
  assumes "retry_laws L" and "createOrUpdate_laws L" and "mayWrite h e (metaKey (esi_ObjectMeta i))"
  shows "wp ESX_G (\<lambda>h' r. (\<exists>k. h' = h @ k) \<and>
      (r = None \<longrightarrow> honest h' \<longrightarrow> provided h' (ese_Spec e) (om_Namespace (esi_ObjectMeta i)))) (ESX_upsert L e i) h"
proof -
  let ?I = "\<lambda>h x. (\<exists>j. x = OESI j \<and> (honest h \<longrightarrow> metaKey (esi_ObjectMeta j) = metaKey (esi_ObjectMeta i))) \<and>
      mayWrite h e (metaKey (esi_ObjectMeta i))"
  let ?Q = "\<lambda>h' (r :: err option \<times> kobj). fst r = None \<longrightarrow> honest h' \<longrightarrow> provided h' (ese_Spec e) (om_Namespace (esi_ObjectMeta i))"
  have once: "wp ESX_G (\<lambda>h' r. ?I h' (snd r) \<and> ?Q h' r) (LibCreateOrUpdate L Hub x (ESX_setSpec e)) h"
    if I: "?I h x" for h x
  proof -
    from I obtain j where j: "x = OESI j" "honest h \<longrightarrow> metaKey (esi_ObjectMeta j) = metaKey (esi_ObjectMeta i)"
      and may: "mayWrite h e (metaKey (esi_ObjectMeta i))" by blast
    have doc: "LibCreateOrUpdate L Hub x (ESX_setSpec e) = createOrUpdateDoc Hub (OESI j) (ESX_setSpec e)"
      using assms(2) j(1) by (simp add: createOrUpdate_laws_def)
    from ESX_upsert_once [OF may j(2)] show ?thesis unfolding doc metaKey_sel .
  qed
  have "wp ESX_G (\<lambda>h' r. ?I h' (snd r) \<and> ?Q h' r) (retryDo L (\<lambda>x. LibCreateOrUpdate L Hub x (ESX_setSpec e)) (OESI i)) h"
    by (rule wp_retryDo [OF assms(1)]) (use assms(3) once in auto)
  from wp_ext [OF this] show ?thesis
    unfolding ESX_upsert_def by (rule wp_bindI) auto
qed

lemma ESX_distribute_wp:
  assumes "retry_laws L" and "createOrUpdate_laws L" and "\<forall>i \<in> set u. mayWrite h e (metaKey (esi_ObjectMeta i))"
  shows "wp ESX_G (\<lambda>h' r. (\<exists>k. h' = h @ k) \<and> (r = (emptyResult, None) \<longrightarrow> honest h' \<longrightarrow>
      (\<forall>i \<in> set u. provided h' (ese_Spec e) (om_Namespace (esi_ObjectMeta i))) \<and>
      (\<forall>i \<in> set w. om_DeletionTimestamp (esi_ObjectMeta i) \<noteq> None \<or>
         gone Hub KEndpointSliceImport (metaKey (esi_ObjectMeta i)) h'))) (ESX_distribute L e w u) h"
proof -
  let ?done = "\<lambda>h i. om_DeletionTimestamp (esi_ObjectMeta i) \<noteq> None \<or> gone Hub KEndpointSliceImport (metaKey (esi_ObjectMeta i)) h"
  let ?w = "\<lambda>i (_ :: unit). if om_DeletionTimestamp (esi_ObjectMeta i) \<noteq> None then Ret (Inr ())
        else bindP (ESX_withdraw L i) (\<lambda>er.
          case er of Some x \<Rightarrow> Ret (Inl (emptyResult, Some x)) | None \<Rightarrow> Ret (Inr ()))"
  let ?u = "\<lambda>i (_ :: unit). bindP (ESX_upsert L e i) (\<lambda>er.
             case er of Some x \<Rightarrow> Ret (Inl (emptyResult, Some x)) | None \<Rightarrow> Ret (Inr ()))"
  have first: "wp ESX_G (\<lambda>h' r. (\<exists>k. h' = h @ k) \<and> (case r of Inl out \<Rightarrow> out \<noteq> (emptyResult, None) | Inr x \<Rightarrow> \<forall>i \<in> set w. ?done h' i))
      (forP w () ?w) h"
    by (rule wp_forP_prefix [where I = "\<lambda>pre h' _. (\<exists>k. h' = h @ k) \<and> (\<forall>i \<in> set pre. ?done h' i)"])
      (auto split: option.splits intro!: wp_bindI [OF ESX_withdraw_wp [OF assms(1)]], metis append_assoc gone_mono)
  have second: "wp ESX_G (\<lambda>h'' r. (\<exists>k. h'' = h' @ k) \<and> (case r of Inl out \<Rightarrow> out \<noteq> (emptyResult, None)
        | Inr x \<Rightarrow> honest h'' \<longrightarrow> (\<forall>i \<in> set u. provided h'' (ese_Spec e) (om_Namespace (esi_ObjectMeta i)))))
      (forP u () ?u) h'" if "\<exists>k. h' = h @ k" for h'
  proof (rule wp_forP_prefix [where I = "\<lambda>pre h'' _. (\<exists>k. h'' = h' @ k) \<and>
        (honest h'' \<longrightarrow> (\<forall>i \<in> set pre. provided h'' (ese_Spec e) (om_Namespace (esi_ObjectMeta i))))"], goal_cases)
    case (2 pre x post s h'')
    then have "mayWrite h'' e (metaKey (esi_ObjectMeta x))" using assms(3) that by auto
    from 2 show ?case
      by (intro wp_bindI [OF ESX_upsert_wp [OF assms(1,2) \<open>mayWrite h'' e (metaKey (esi_ObjectMeta x))\<close>]])
        (auto split: option.splits, metis append_assoc provided_mono honest_append)
  qed auto
  show ?thesis
    unfolding ESX_distribute_def
    apply (rule wp_bindI [OF first])
    apply (auto split: sum.splits)
    apply (rule wp_bindI [OF second])
    by (auto split: sum.splits, metis append_assoc gone_mono)
qed

lemma ESX_scan_correct:
  assumes "range_laws L" and "ESX_scan L e u items = (w, us)"
  shows "om_Namespace ` esi_ObjectMeta ` set us = {k. mget (siu_MemberClusters u) k \<noteq> None}"
    and "\<forall>i \<in> set items. mget (siu_MemberClusters u) (om_Namespace (esi_ObjectMeta i)) = None \<longrightarrow> i \<in> set w"
    and "\<forall>i \<in> set us. i \<in> set items \<or> om_Name (esi_ObjectMeta i) = om_Name (ese_ObjectMeta e)"
proof -
  obtain u' c where m: "ESX_match items (siu_MemberClusters u) = (w, u', c)"
    and us: "us = u' @ map (\<lambda>ns. newESI ns (om_Name (ese_ObjectMeta e))) (LibMapOrder L (mkeys c))"
    using assms(2) by (auto simp: ESX_scan_def split: prod.splits)
  have keys: "set (LibMapOrder L (mkeys c)) = {k. mget c k \<noteq> None}"
    using assms(1) set_mkeys [of c] unfolding range_laws_def by simp
  note correct = ESX_match_correct [OF m]
  have new: "om_Namespace ` esi_ObjectMeta ` set us =
      om_Namespace ` esi_ObjectMeta ` set u' \<union> {k. mget c k \<noteq> None}"
    using keys by (simp add: us newESI_def metaOf_def image_Un image_image)
  show "om_Namespace ` esi_ObjectMeta ` set us = {k. mget (siu_MemberClusters u) k \<noteq> None}"
    unfolding new using correct by (auto split: if_splits)
  show "\<forall>i \<in> set items. mget (siu_MemberClusters u) (om_Namespace (esi_ObjectMeta i)) = None \<longrightarrow> i \<in> set w"
    using correct by auto
  show "\<forall>i \<in> set us. i \<in> set items \<or> om_Name (esi_ObjectMeta i) = om_Name (ese_ObjectMeta e)"
    using correct by (auto simp: us newESI_def metaOf_def)
qed

lemma ESX_scanAndDistribute_wp:
  assumes laws: "retry_laws L" "createOrUpdate_laws L" "range_laws L"
    and pre: "shown Hub hasESXFinalizer h" "answered (OESE e) h" "answered (OSI s) h"
    and claims: "{k. mget (siu_MemberClusters u) k \<noteq> None} = claimants s"
  shows "wp ESX_G (\<lambda>h' r. r = (emptyResult, None) \<longrightarrow> honest h' \<longrightarrow> distributed h' (claimants s) e)
    (ESX_scanAndDistribute L u e) h"
proof -
  let ?q = "ListObjs Hub KEndpointSliceImport (importsNamed (om_Name (ese_ObjectMeta e)))"
  have "wp ESX_G (\<lambda>h' r. r = (emptyResult, None) \<longrightarrow> honest h' \<longrightarrow> distributed h' (claimants s) e)
      (ESX_distribute L e w us) (h @ [(?q, RObjs (map OESI items))])" (is "wp _ _ _ ?h")
    if scan: "ESX_scan L e u items = (w, us)" for items w us
  proof -
    note sc = ESX_scan_correct [OF laws(3) scan]
    have l: "listed Hub KEndpointSliceImport (importsNamed (om_Name (ese_ObjectMeta e))) (map OESI items) ?h"
      by (simp add: listed_def)
    have "\<forall>i \<in> set us. mayWrite ?h e (metaKey (esi_ObjectMeta i))"
    proof
      fix i
      assume "i \<in> set us"
      with sc(1) claims have "om_Namespace (esi_ObjectMeta i) \<in> claimants s" by blast
      moreover have "om_Name (esi_ObjectMeta i) = om_Name (ese_ObjectMeta e) \<or> OESI i \<in> set (map OESI items)"
        using sc(3) \<open>i \<in> set us\<close> by auto
      ultimately show "mayWrite ?h e (metaKey (esi_ObjectMeta i))"
        using pre l unfolding mayWrite_def metaKey_sel by (blast intro: answered_mono shown_mono)
    qed
    from ESX_distribute_wp [OF laws(1,2) this] show ?thesis
    proof (rule wp_conseq)
      fix h' r
      assume *: "(\<exists>k. h' = ?h @ k) \<and> (r = (emptyResult, None) \<longrightarrow> honest h' \<longrightarrow>
        (\<forall>i \<in> set us. provided h' (ese_Spec e) (om_Namespace (esi_ObjectMeta i))) \<and>
        (\<forall>i \<in> set w. om_DeletionTimestamp (esi_ObjectMeta i) \<noteq> None \<or>
           gone Hub KEndpointSliceImport (metaKey (esi_ObjectMeta i)) h'))"
      have l': "listed Hub KEndpointSliceImport (importsNamed (om_Name (ese_ObjectMeta e))) (map OESI items) h'"
        using * l listed_mono by blast
      have c: "claimants s = om_Namespace ` esi_ObjectMeta ` set us" using sc(1) claims by simp
      have w: "\<forall>i \<in> set items. om_Namespace (esi_ObjectMeta i) \<notin> claimants s \<longrightarrow> i \<in> set w"
        using sc(2) claims by auto
      show "r = (emptyResult, None) \<longrightarrow> honest h' \<longrightarrow> distributed h' (claimants s) e"
      proof (intro impI)
        assume "r = (emptyResult, None)" "honest h'"
        with * have p: "\<forall>i \<in> set us. provided h' (ese_Spec e) (om_Namespace (esi_ObjectMeta i))"
          and g: "\<forall>i \<in> set w. om_DeletionTimestamp (esi_ObjectMeta i) \<noteq> None \<or>
            gone Hub KEndpointSliceImport (metaKey (esi_ObjectMeta i)) h'" by blast+
        from p have "\<forall>ns \<in> claimants s. provided h' (ese_Spec e) ns" unfolding c by blast
        with l' w g show "distributed h' (claimants s) e" unfolding distributed_def by blast
      qed
    qed
  qed
  then show ?thesis
    unfolding ESX_scanAndDistribute_def ESX_scanForEndpointSliceImports_def
    by (auto simp: prog_simps split: sum.splits prod.splits)
qed

text \<open>Where the claims can be decoded, they are the claimants.\<close>

lemma claimants_decoded:
  assumes "mget (om_Annotations (si_ObjectMeta s)) ServiceImportAnnotationServiceInUseBy = Some data"
    and "unmarshalInUseBy data = Some u"
  shows "{k. mget (siu_MemberClusters u) k \<noteq> None} = claimants s"
  using assms by (simp add: claimants_def ISI_extractServiceInUseByInfo_def)

lemma ESX_syncWithImport_wp:
  assumes laws: "finalizer_laws L" "retry_laws L" "createOrUpdate_laws L" "range_laws L"
    and e: "(Get Hub KEndpointSliceExport n, RObj (OESE e)) \<in> set h" and s: "answered (OSI s) h"
  shows "wp ESX_G (\<lambda>h' r. r = (emptyResult, None) \<longrightarrow> honest h' \<longrightarrow> claimsDecodable s \<longrightarrow>
      (\<exists>e'. answered (OESE e') h' \<and> distributed h' (claimants s) e')) (ESX_syncWithImport L e s) h"
proof -
  let ?Q = "\<lambda>h' r. r = (emptyResult, None) \<longrightarrow> honest h' \<longrightarrow> claimsDecodable s \<longrightarrow>
      (\<exists>e'. answered (OESE e') h' \<and> distributed h' (claimants s) e')"
  let ?add = "\<lambda>e. e\<lparr>ese_ObjectMeta := LibAddFinalizer L (ese_ObjectMeta e) endpointSliceExportCleanupFinalizer\<rparr>"
  have fin: "hasESXFinalizer (OESE (?add e))" for e
    using finalizer_lawsD(2) [OF laws(1)] by (simp add: hasESXFinalizer_def)
  have scan: "wp ESX_G ?Q (ESX_scanAndDistribute L u e') h'"
    if "shown Hub hasESXFinalizer h'" "answered (OESE e') h'" "answered (OSI s) h'"
      "{k. mget (siu_MemberClusters u) k \<noteq> None} = claimants s" for u e' h'
    by (rule wp_conseq [OF wp_ext [OF ESX_scanAndDistribute_wp [OF laws(2-4) that]]]) (use that(2) answered_mono in blast)+
  have present: "shown Hub hasESXFinalizer h" if "LibContainsFinalizer L (ese_ObjectMeta e) endpointSliceExportCleanupFinalizer"
    by (rule shown_get [of _ "OESE e" _ n])
      (use that e finalizer_lawsD(1) [OF laws(1)] in \<open>simp_all add: hasESXFinalizer_def\<close>)
  have added: "wp ESX_G ?Q (bindP (ESX_addCleanupFinalizer L e) (\<lambda>(er, e1).
        case er of Some x \<Rightarrow> Ret (emptyResult, Some x) | None \<Rightarrow> ESX_scanAndDistribute L u e1)) h"
    if "{k. mget (siu_MemberClusters u) k \<noteq> None} = claimants s" for u
    using that s fin [of e]
    by (auto simp: ESX_addCleanupFinalizer_def prog_simps decUpd_def split: sum.splits
        intro!: scan shown_update [of _ "OESE (?add e)"] answered_in [where x = "OESE e'" for e'])
  have none: "\<not> claimsDecodable s" if "mget (om_Annotations (si_ObjectMeta s)) ServiceImportAnnotationServiceInUseBy = None"
    using that by (simp add: claimsDecodable_def)
  have bad: "\<not> claimsDecodable s" if "mget (om_Annotations (si_ObjectMeta s)) ServiceImportAnnotationServiceInUseBy = Some data"
    "unmarshalInUseBy data = None" for data
    using that by (simp add: claimsDecodable_def)
  have all: "wp ESX_G ?Q (bindP (ESX_withdrawAll L e) (\<lambda>er.
        case er of Some x \<Rightarrow> Ret (emptyResult, Some x) | None \<Rightarrow> Ret (emptyResult, None))) h"
    if "\<not> claimsDecodable s"
    by (rule wp_bindI [OF ESX_withdrawAll_wp [OF laws(1,2)]]) (use that in \<open>auto split: option.splits\<close>)
  have requeue: "(requeueAfter hubEndpointSliceExportRetryInterval, None) \<noteq> (emptyResult, None :: err option)"
    by (simp add: requeueAfter_def emptyResult_def hubEndpointSliceExportRetryInterval_def seconds_def)
  have e': "answered (OESE e) h" using e by (rule answered_in)
  show ?thesis
    unfolding ESX_syncWithImport_def
    using requeue e' s by (auto split: option.splits dest: none bad intro!: all added scan present claimants_decoded)
qed

lemma ESX_Reconcile_wp:
  assumes laws: "finalizer_laws L" "retry_laws L" "createOrUpdate_laws L" "range_laws L"
  shows "wp ESX_G (\<lambda>h' r. r = (emptyResult, None) \<longrightarrow> honest h' \<longrightarrow>
      (\<forall>s. claimsRead h' = Some s \<longrightarrow> (\<exists>e'. answered (OESE e') h' \<and> distributed h' (claimants s) e'))) (ESX_Reconcile L n) []"
    (is "wp _ ?Q _ _")
proof -
  have sync: "wp ESX_G ?Q (ESX_syncWithImport L e s)
      [(Get Hub KEndpointSliceExport n, RObj (OESE e)), (q, RObj (OSI s))]" (is "wp _ _ _ ?h")
    if "om_DeletionTimestamp (ese_ObjectMeta e) = None" for e s q
  proof (rule wp_conseq [OF wp_ext [OF ESX_syncWithImport_wp [OF laws]]])
    show "(Get Hub KEndpointSliceExport n, RObj (OESE e)) \<in> set ?h" "answered (OSI s) ?h" by (auto simp: answered_def)
  next
    fix h' and r :: outcome
    assume *: "(r = (emptyResult, None) \<longrightarrow> honest h' \<longrightarrow> claimsDecodable s \<longrightarrow>
      (\<exists>e'. answered (OESE e') h' \<and> distributed h' (claimants s) e')) \<and> (\<exists>k. h' = ?h @ k)"
    then have "claimsRead h' = (if claimsDecodable s then Some s else None)"
      using that by (auto simp: claimsRead_def)
    with * show "?Q h' r" by (auto split: if_splits)
  qed auto
  have deleting: "wp ESX_G ?Q (bindP (ESX_withdrawAll L e) (\<lambda>er.
        case er of Some x \<Rightarrow> Ret (emptyResult, Some x) | None \<Rightarrow> Ret (emptyResult, None)))
      [(Get Hub KEndpointSliceExport n, RObj (OESE e))]"
    if "om_DeletionTimestamp (ese_ObjectMeta e) = Some t" for e t
    by (rule wp_bindI [OF wp_ext [OF ESX_withdrawAll_wp [OF laws(1,2)]]])
      (use that in \<open>auto simp: claimsRead_def split: option.splits list.splits prod.splits response.splits kobj.splits\<close>)
  have noSI: "claimsRead [x, (q, b)] = None" if "decSI b = Inl er" for x q b er
    using that by (auto simp: claimsRead_def decSI_def split: prod.splits response.splits kobj.splits)
  show ?thesis
    unfolding ESX_Reconcile_def Let_def
    by (auto simp: prog_simps noSI claimsRead_def [of "[_]"] split: sum.splits prod.splits response.splits kobj.splits
        intro!: sync deleting)
qed

lemma demo_distribution: "steps (ESX_Reconcile refLib demoEseKey) demoDistribution (Ret (emptyResult, None))"
  by (rule playRet_steps [of "map snd demoDistribution"]) code_simp

section \<open>Properties\<close>

text \<open>C4. Endpoints go only where they were asked for: for all answers of an API server that answers
  reads and writes of an object with that object, and at every point where the process may stop,
  every EndpointSliceImport that is created or updated carries the spec of the exported slice and
  lies in the namespace of a cluster that has claimed the service, and by then the export with the
  clean-up finalizer is on record. The finalizer is removed only once every import of the export that
  the server has listed is gone. Nothing is written but EndpointSliceImports and the export.\<close>

theorem ESX_distributes_to_claimants_only:
  assumes "finalizer_laws L" and "retry_laws L" and "createOrUpdate_laws L" and "range_laws L"
    and "steps (ESX_Reconcile L n) tr p" and "honest tr"
  shows "guarded ESX_guard [] tr"
  by (rule guarded_honest [OF wp_guarded [OF assms(5) ESX_Reconcile_wp [OF assms(1-4)]] assms(6)])

theorem ESX_distributes_to_claimants_only_witness: "guarded ESX_guard [] demoDistribution \<and> demoDistribution \<noteq> []"
proof -
  have "steps (ESX_Reconcile refLib demoEseKey) demoDistribution (Ret (emptyResult, None))" by (rule demo_distribution)
  moreover have "honest demoDistribution" by code_simp
  ultimately have "guarded ESX_guard [] demoDistribution"
    by (rule ESX_distributes_to_claimants_only [OF refLib_finalizer_laws refLib_retry_laws refLib_createOrUpdate_laws refLib_range_laws])
  then show ?thesis by (rule conjI) (simp add: demoDistribution_def)
qed

text \<open>C22. Endpoints arrive: when a pass over a live export ends without error and the claims of the
  service import that it read could be decoded, then for every cluster that has claimed the service
  an import with the spec of the export was accepted or found in its namespace, and every listed
  import of another namespace is gone or is being deleted.\<close>

theorem ESX_claimants_are_served:
  assumes "finalizer_laws L" and "retry_laws L" and "createOrUpdate_laws L" and "range_laws L"
    and "steps (ESX_Reconcile L n) tr (Ret (emptyResult, None))" and "honest tr" and "claimsRead tr = Some s"
  shows "\<exists>e. answered (OESE e) tr \<and> distributed tr (claimants s) e"
  using wp_result [OF assms(5) refl ESX_Reconcile_wp [OF assms(1-4)]] assms(6,7) by simp

theorem ESX_claimants_are_served_witness:
  "\<exists>e. answered (OESE e) demoDistribution \<and> distributed demoDistribution (claimants demoClaim) e"
proof -
  have "honest demoDistribution" "claimsRead demoDistribution = Some demoClaim" by code_simp+
  then show ?thesis
    by (rule ESX_claimants_are_served [OF refLib_finalizer_laws refLib_retry_laws refLib_createOrUpdate_laws
        refLib_range_laws demo_distribution])
qed

end
