(* ===== verification/Hub_MemberCluster.thy ===== *)
theory Hub_MemberCluster
  imports Observations
begin

text \<open>
  The MemberCluster controller of the hub cluster (\<open>pkg/controllers/hub/membercluster/controller.go\<close>):
  when a member cluster has been leaving for too long, the finalizers of the EndpointSliceImports in its
  namespace are removed, so that its namespace can go.
\<close>

section \<open>The controller\<close>

definition timeSince :: "time \<Rightarrow> int op" where
  "timeSince t = bindP timeNow (\<lambda>now. Ret (sat64 (now - t)))"

text \<open>The function that is run for one import.\<close>

definition MC_release :: "EndpointSliceImport \<Rightarrow> err option op" where
  "MC_release esi =
     bindP (doUpdate Hub OESI decESI (esi\<lparr>esi_ObjectMeta := (esi_ObjectMeta esi)\<lparr>om_Finalizers := []\<rparr>\<rparr>)) (\<lambda>(er, _).
       case er of Some e \<Rightarrow> Ret (Some e) | None \<Rightarrow> Ret None)"

definition MC_removeFinalizer :: "Lib \<Rightarrow> MemberClusterObj \<Rightarrow> outcome op" where
  "MC_removeFinalizer L mc =
     (let mcNamespace = HubNamespaceNameFormat (om_Name (mc_ObjectMeta mc)) in
      bindP (doList Hub KEndpointSliceImport decESI (selAll\<lparr>sel_Namespace := Some mcNamespace\<rparr>)) (\<lambda>r.
        case r of
          Inl e \<Rightarrow> Ret (emptyResult, Some e)
        | Inr items \<Rightarrow> bindP (LibErrGroup L (map MC_release items)) (\<lambda>er. Ret (emptyResult, er))))"

definition MC_Reconcile :: "Lib \<Rightarrow> int \<Rightarrow> NamespacedName \<Rightarrow> outcome op" where
  "MC_Reconcile L forceDeleteWaitTime name =
     bindP (getMC Hub name) (\<lambda>r.
       case r of
         Inl e \<Rightarrow> if IsNotFound e then Ret (emptyResult, None) else Ret (emptyResult, Some e)
       | Inr mc \<Rightarrow>
           (case om_DeletionTimestamp (mc_ObjectMeta mc) of
              None \<Rightarrow> Ret (emptyResult, None)
            | Some t \<Rightarrow>
                bindP (timeSince t) (\<lambda>d.
                  if d \<ge> forceDeleteWaitTime then MC_removeFinalizer L mc
                  else bindP (timeSince t) (\<lambda>d2.
                    Ret (requeueAfter (wrap64 (forceDeleteWaitTime - d2)), None)))))"

text \<open>The event filter.\<close>

datatype 'o watchEvent = CreateEvent 'o | DeleteEvent 'o | UpdateEvent 'o 'o | GenericEvent 'o

text \<open>A handler that \<open>predicate.Funcs\<close> leaves out lets the event pass.\<close>

definition MC_predicate :: "MemberClusterObj watchEvent \<Rightarrow> bool" where
  "MC_predicate ev = (case ev of CreateEvent mc \<Rightarrow> False | DeleteEvent mc \<Rightarrow> True
     | UpdateEvent old new \<Rightarrow> om_DeletionTimestamp (mc_ObjectMeta new) \<noteq> None | GenericEvent mc \<Rightarrow> True)"

section \<open>What is said of the controller\<close>

text \<open>The server has reported a member cluster whose deletion began at least \<open>wait\<close> before some reading of the clock.\<close>

definition overdue :: "int \<Rightarrow> trace \<Rightarrow> MemberClusterObj \<Rightarrow> bool" where
  "overdue wait h mc \<longleftrightarrow> (\<exists>n t now. (Get Hub KMemberCluster n, RObj (OMC mc)) \<in> set h \<and>
     om_DeletionTimestamp (mc_ObjectMeta mc) = Some t \<and> (\<exists>a. (Now, a) \<in> set h \<and> decTime a = now) \<and> wait \<le> sat64 (now - t))"

definition importsOf :: "MemberClusterObj \<Rightarrow> selector" where
  "importsOf mc = selAll\<lparr>sel_Namespace := Some (HubNamespaceNameFormat (om_Name (mc_ObjectMeta mc)))\<rparr>"

definition stripped :: "EndpointSliceImport \<Rightarrow> EndpointSliceImport" where
  "stripped i = i\<lparr>esi_ObjectMeta := (esi_ObjectMeta i)\<lparr>om_Finalizers := []\<rparr>\<rparr>"

definition MC_guard :: "int \<Rightarrow> trace \<Rightarrow> request \<Rightarrow> bool" where
  "MC_guard wait h q \<longleftrightarrow> (writes q \<longrightarrow>
     (\<exists>mc items i. overdue wait h mc \<and> listed Hub KEndpointSliceImport (importsOf mc) (map OESI items) h \<and>
        i \<in> set items \<and> q = Update Hub (OESI (stripped i))))"

definition MC_released :: "trace \<Rightarrow> bool" where
  "MC_released h \<longleftrightarrow> (\<forall>mc items. listed Hub KEndpointSliceImport (importsOf mc) (map OESI items) h \<longrightarrow>
     (\<forall>i \<in> set items. \<exists>y. (Update Hub (OESI (stripped i)), RObj (OESI y)) \<in> set h))"

definition demoMc :: MemberClusterObj where
  "demoMc = \<lparr>mc_ObjectMeta = (metaOf [] ''c3'')\<lparr>om_DeletionTimestamp := Some 1000\<rparr>\<rparr>"

definition demoStuck :: EndpointSliceImport where
  "demoStuck = \<lparr>esi_ObjectMeta = (metaOf ''fleet-member-c3'' ''work-app-1'')\<lparr>om_Finalizers := [''x'']\<rparr>, esi_Spec = zeroESESpec\<rparr>"

section \<open>Lemmas\<close>

lemma overdue_mono [simp]: "overdue w h mc \<Longrightarrow> overdue w (h @ k) mc"
  unfolding overdue_def by (metis Un_iff set_append)

lemma MC_removeFinalizer_wp:
  assumes "errgroup_laws L" and "overdue wait h mc" and "\<forall>c kd sel a. (ListObjs c kd sel, a) \<notin> set h"
  shows "wp (MC_guard wait) (\<lambda>h' r. snd r = None \<longrightarrow> MC_released h') (MC_removeFinalizer L mc) h"
proof -
  let ?q = "ListObjs Hub KEndpointSliceImport (importsOf mc)"
  let ?lists = "\<lambda>items h. (\<forall>sel os. listed Hub KEndpointSliceImport sel os h \<longleftrightarrow> sel = importsOf mc \<and> os = map OESI items)"
  let ?I = "\<lambda>items h'. overdue wait h' mc \<and> ?lists items h'"
  have one: "wp (MC_guard wait) (\<lambda>h' r. ?I items h' \<and> (r = None \<longrightarrow> (\<exists>y. (Update Hub (OESI (stripped i)), RObj (OESI y)) \<in> set h')))
      (MC_release i) h'" if "i \<in> set items" "?I items h'" for i items h'
  proof -
    have "MC_guard wait h' (Update Hub (OESI (stripped i)))"
      using that unfolding MC_guard_def by blast
    with that(2) show ?thesis
      by (auto simp: MC_release_def prog_simps decUpd_def stripped_def [symmetric] listed_def split: sum.splits)
  qed
  have grp: "wp (MC_guard wait) (\<lambda>h' r. ?I items h' \<and> (r = None \<longrightarrow> (\<forall>i \<in> set items.
      None = (None :: err option) \<longrightarrow> (\<exists>y. (Update Hub (OESI (stripped i)), RObj (OESI y)) \<in> set h'))))
      (LibErrGroup L (map MC_release items)) h'" if "?I items h'" for items h'
    by (rule wp_errgroup_map [where I = "?I items", OF assms(1)]) (use one that in auto)
  have "wp (MC_guard wait) (\<lambda>h' r. snd r = None \<longrightarrow> MC_released h')
      (bindP (LibErrGroup L (map MC_release items)) (\<lambda>er. Ret (emptyResult, er))) (h @ [(?q, RObjs (map OESI items))])" for items
    by (rule wp_bindI [OF grp]) (use assms(2,3) in \<open>auto simp: listed_def MC_released_def inj_map_eq_map inj_on_def\<close>)
  with assms(3) show ?thesis
    by (auto simp: MC_removeFinalizer_def Let_def prog_simps importsOf_def [symmetric] MC_guard_def [of _ _ "ListObjs _ _ _"]
        MC_released_def listed_def split: sum.splits)
qed

lemma MC_Reconcile_wp:
  assumes "errgroup_laws L"
  shows "wp (MC_guard wait) (\<lambda>h' r. snd r = None \<longrightarrow> MC_released h') (MC_Reconcile L wait n) []"
proof -
  have due: "wp (MC_guard wait) (\<lambda>h' r. snd r = None \<longrightarrow> MC_released h') (MC_removeFinalizer L mc)
      [(Get Hub KMemberCluster n, RObj (OMC mc)), (Now, a)]"
    if "om_DeletionTimestamp (mc_ObjectMeta mc) = Some t" "wait \<le> sat64 (decTime a - t)" for mc t a
    by (rule MC_removeFinalizer_wp [OF assms]) (use that in \<open>auto simp: overdue_def\<close>)
  have none: "MC_released [(Get c kd m, a)]" "MC_released [(Get c kd m, a), (Now, b), (Now, d)]" for c kd m a b d
    by (auto simp: MC_released_def listed_def)
  have free: "MC_guard wait h (Get c kd m)" "MC_guard wait h Now" for h c kd m
    by (simp_all add: MC_guard_def)
  show ?thesis
    by (auto simp: MC_Reconcile_def prog_simps timeSince_def none free split: sum.splits option.splits intro!: due)
qed

section \<open>Properties\<close>

text \<open>C29. Forced release: whatever the API server and the clock answer and wherever the process is
  stopped, the only writes remove the finalizers, and nothing else, of EndpointSliceImports that were
  listed in the namespace of a member cluster whose deletion is overdue; and a pass that ends without
  error has had all listed imports released.\<close>

theorem MC_forced_release:
  assumes "errgroup_laws L" and "steps (MC_Reconcile L wait n) tr p"
  shows "guarded (MC_guard wait) [] tr \<and> (\<forall>res. p = Ret (res, None) \<longrightarrow> MC_released tr)"
  using wp_guarded [OF assms(2) MC_Reconcile_wp [OF assms(1)]]
    wp_result [OF assms(2) _ MC_Reconcile_wp [OF assms(1)]] by auto

theorem MC_forced_release_witness:
  "guarded (MC_guard 500) [] (fst (play [RObj (OMC demoMc), RTime 1600, RObjs [OESI demoStuck], RObj (OESI (stripped demoStuck))]
      (MC_Reconcile refLib 500 \<lparr>nn_Namespace = [], nn_Name = ''c3''\<rparr>))) \<and>
   map fst (drop 3 (fst (play [RObj (OMC demoMc), RTime 1600, RObjs [OESI demoStuck], RObj (OESI (stripped demoStuck))]
      (MC_Reconcile refLib 500 \<lparr>nn_Namespace = [], nn_Name = ''c3''\<rparr>)))) = [Update Hub (OESI (stripped demoStuck))]"
proof -
  let ?as = "[RObj (OMC demoMc), RTime 1600, RObjs [OESI demoStuck], RObj (OESI (stripped demoStuck))]"
  let ?p = "MC_Reconcile refLib 500 \<lparr>nn_Namespace = [], nn_Name = ''c3''\<rparr>"
  have "steps ?p (fst (play ?as ?p)) (snd (play ?as ?p))" by (rule play_trace_steps) simp
  from MC_forced_release [OF refLib_errgroup_laws this, THEN conjunct1] show ?thesis by (rule conjI) code_simp
qed

text \<open>C30. The pass comes back in time: while the deletion is not overdue, a pass asks to be run again
  after the time that remains at its second reading of the clock. The clock is read twice, and a
  requeue time that is zero or negative (which does not requeue) is possible just when the deletion
  becomes overdue between the readings.\<close>

theorem MC_requeue_is_remaining_time:
  assumes "om_DeletionTimestamp (mc_ObjectMeta mc) = Some t" and "0 \<le> wait" and "wait < 2 ^ 62"
    and "\<bar>n1 - t\<bar> < 2 ^ 62" and "\<bar>n2 - t\<bar> < 2 ^ 62" and "n1 < t + wait"
  shows "\<exists>tr. playRet [RObj (OMC mc), RTime n1, RTime n2] (MC_Reconcile L wait n) = Some (tr, requeueAfter (t + wait - n2), None)"
proof -
  have "sat64 (n1 - t) = n1 - t" "sat64 (n2 - t) = n2 - t" using assms(4,5) by (auto simp: sat64_def)
  moreover have "wrap64 (wait - (n2 - t)) = t + wait - n2" using assms(2,3,5) by (subst wrap64_id) auto
  ultimately show ?thesis using assms(1,6)
    by (simp add: MC_Reconcile_def prog_simps timeSince_def decTime_def)
qed

theorem MC_requeue_is_remaining_time_witness:
  "\<exists>tr. playRet [RObj (OMC demoMc), RTime 1200, RTime 1600] (MC_Reconcile refLib 500 \<lparr>nn_Namespace = [], nn_Name = ''c3''\<rparr>) =
     Some (tr, requeueAfter (1000 + 500 - 1600), None)"
  by (rule MC_requeue_is_remaining_time) (simp_all add: demoMc_def)

end
