(* ===== verification/Finalizers.thy ===== *)
theory Finalizers
  imports Observations
begin

text \<open>
  The use of a finalizer: a kind of object and the finalizer that a controller puts on it. The laws say
  how the finalizer is seen in the object as it is sent, and the lemmas how it gets on record.
\<close>

locale finalized =
  fixes wrap :: "'a \<Rightarrow> kobj" and meta :: "'a \<Rightarrow> ObjectMeta" and setMeta :: "ObjectMeta \<Rightarrow> 'a \<Rightarrow> 'a"
    and fin :: string and has :: "kobj \<Rightarrow> bool" and kd :: kind
  assumes has_wrap: "has (wrap x) \<longleftrightarrow> fin \<in> set (om_Finalizers (meta x))"
    and meta_set: "meta (setMeta m x) = m"
    and kind_wrap: "kindOf (wrap x) = kd"
begin

lemma added: "finalizer_laws L \<Longrightarrow> has (wrap (setMeta (LibAddFinalizer L (meta x) fin) x))"
  by (simp add: has_wrap meta_set finalizer_lawsD)

lemma contained: "finalizer_laws L \<Longrightarrow> LibContainsFinalizer L (meta x) fin \<longleftrightarrow> has (wrap x)"
  by (simp add: has_wrap finalizer_lawsD)

lemma removed: "finalizer_laws L \<Longrightarrow> \<not> has (wrap (setMeta (LibRemoveFinalizer L (meta x) fin) x))"
  by (simp add: has_wrap meta_set finalizer_lawsD)

text \<open>An object with the finalizer that was read, and an accepted update that adds it.\<close>

lemma shown_read:
  assumes "finalizer_laws L" and "LibContainsFinalizer L (meta x) fin" and "(Get c kd n, RObj (wrap x)) \<in> set h"
  shows "shown c has h"
  by (rule shown_get [where P = has and x = "wrap x"]) (use assms contained kind_wrap in auto)

lemma shown_added:
  assumes "finalizer_laws L" and "(Update c (wrap (setMeta (LibAddFinalizer L (meta x) fin) x)), RObj (wrap y)) \<in> set h"
  shows "shown c has h"
  by (rule shown_update [where P = has, OF added [OF assms(1)] assms(2)]) (simp add: kind_wrap)

end

end
