(* ===== verification/Defaulter.thy ===== *)
theory Defaulter
  imports ApiTypes
begin

text \<open>
  The package \<open>pkg/common/defaulter\<close>: the default values of the traffic manager resources.
\<close>

definition setDefault :: "'a \<Rightarrow> 'a option \<Rightarrow> 'a option" where
  "setDefault v x = (case x of None \<Rightarrow> Some v | Some y \<Rightarrow> Some y)"

text \<open>
  The timeout depends on the interval, which has been defaulted before; for any interval but 10 and
  30 seconds it stays unset.
\<close>

definition defaultTimeout :: "MonitorConfig \<Rightarrow> int option" where
  "defaultTimeout c =
     (case mcf_TimeoutInSeconds c of
        Some t \<Rightarrow> Some t
      | None \<Rightarrow> if mcf_IntervalInSeconds c = Some 30 then Some 10
                else if mcf_IntervalInSeconds c = Some 10 then Some 9 else None)"

definition defaultMonitorConfig :: "MonitorConfig \<Rightarrow> MonitorConfig" where
  "defaultMonitorConfig c0 =
     (let c1 = c0\<lparr>mcf_IntervalInSeconds := setDefault 30 (mcf_IntervalInSeconds c0)\<rparr>;
          c2 = c1\<lparr>mcf_Path := setDefault ''/'' (mcf_Path c1)\<rparr>;
          c3 = c2\<lparr>mcf_Port := setDefault 80 (mcf_Port c2)\<rparr>;
          c4 = c3\<lparr>mcf_Protocol := setDefault ProtocolHTTP (mcf_Protocol c3)\<rparr>;
          c5 = c4\<lparr>mcf_TimeoutInSeconds := defaultTimeout c4\<rparr>
      in c5\<lparr>mcf_ToleratedNumberOfFailures := setDefault 3 (mcf_ToleratedNumberOfFailures c5)\<rparr>)"

definition SetDefaultsTrafficManagerProfile :: "TrafficManagerProfile \<Rightarrow> TrafficManagerProfile" where
  "SetDefaultsTrafficManagerProfile obj =
     obj\<lparr>tmp_MonitorConfig := Some (defaultMonitorConfig
       (case tmp_MonitorConfig obj of None \<Rightarrow> zeroMonitorConfig | Some c \<Rightarrow> c))\<rparr>"

definition SetDefaultsTrafficManagerBackend :: "TrafficManagerBackend \<Rightarrow> TrafficManagerBackend" where
  "SetDefaultsTrafficManagerBackend obj = obj\<lparr>tmb_Weight := setDefault 1 (tmb_Weight obj)\<rparr>"

text \<open>A monitor configuration in which every field that the profile controller reads is set.\<close>

definition monitorComplete :: "MonitorConfig \<Rightarrow> bool" where
  "monitorComplete c \<longleftrightarrow> mcf_IntervalInSeconds c \<noteq> None \<and> mcf_Path c \<noteq> None \<and> mcf_Port c \<noteq> None \<and>
     mcf_Protocol c \<noteq> None \<and> mcf_ToleratedNumberOfFailures c \<noteq> None \<and>
     (mcf_TimeoutInSeconds c \<noteq> None \<or> mcf_IntervalInSeconds c \<notin> {Some 10, Some 30})"

text \<open>A field that the user has set is kept.\<close>

definition extendsConfig :: "MonitorConfig \<Rightarrow> MonitorConfig \<Rightarrow> bool" where
  "extendsConfig c d \<longleftrightarrow>
     (mcf_IntervalInSeconds c \<noteq> None \<longrightarrow> mcf_IntervalInSeconds d = mcf_IntervalInSeconds c) \<and>
     (mcf_Path c \<noteq> None \<longrightarrow> mcf_Path d = mcf_Path c) \<and>
     (mcf_Port c \<noteq> None \<longrightarrow> mcf_Port d = mcf_Port c) \<and>
     (mcf_Protocol c \<noteq> None \<longrightarrow> mcf_Protocol d = mcf_Protocol c) \<and>
     (mcf_TimeoutInSeconds c \<noteq> None \<longrightarrow> mcf_TimeoutInSeconds d = mcf_TimeoutInSeconds c) \<and>
     (mcf_ToleratedNumberOfFailures c \<noteq> None \<longrightarrow>
        mcf_ToleratedNumberOfFailures d = mcf_ToleratedNumberOfFailures c) \<and>
     mcf_CustomHeaders d = mcf_CustomHeaders c"

section \<open>Lemmas\<close>

lemma setDefault_simps [simp]:
  "setDefault v None = Some v" "setDefault v (Some y) = Some y"
  by (simp_all add: setDefault_def)

lemma setDefault_idem [simp]: "setDefault v (setDefault w x) = setDefault w x"
  by (cases x) simp_all

lemma setDefault_not_None [simp]: "setDefault v x \<noteq> None" "None \<noteq> setDefault v x"
  by (cases x, simp_all)+

lemmas defaultConfig_defs = defaultMonitorConfig_def Let_def defaultTimeout_def

lemma defaultMonitorConfig_complete: "monitorComplete (defaultMonitorConfig c)"
  by (auto simp: defaultConfig_defs monitorComplete_def split: option.splits)

lemma defaultMonitorConfig_extends: "extendsConfig c (defaultMonitorConfig c)"
  by (auto simp: defaultConfig_defs extendsConfig_def split: option.splits)

lemma defaultMonitorConfig_idem: "defaultMonitorConfig (defaultMonitorConfig c) = defaultMonitorConfig c"
  by (auto simp: defaultConfig_defs split: option.splits)

text \<open>Defaulting a traffic manager profile sets every monitor field the controller reads (the
  timeout whenever the interval is one of the two that Azure allows), keeps every value the user
  chose and the custom headers, changes nothing outside the monitor configuration, and is
  idempotent.\<close>

theorem SetDefaultsTrafficManagerProfile_correct:
  "(\<exists>d. SetDefaultsTrafficManagerProfile p = p\<lparr>tmp_MonitorConfig := Some d\<rparr> \<and> monitorComplete d \<and>
      extendsConfig (case tmp_MonitorConfig p of None \<Rightarrow> zeroMonitorConfig | Some c \<Rightarrow> c) d) \<and>
   SetDefaultsTrafficManagerProfile (SetDefaultsTrafficManagerProfile p) = SetDefaultsTrafficManagerProfile p"
  using defaultMonitorConfig_complete defaultMonitorConfig_extends
  by (auto simp: SetDefaultsTrafficManagerProfile_def defaultMonitorConfig_idem)

end
