(* ===== verification/Hub_TrafficManagerProfile.thy ===== *)
theory Hub_TrafficManagerProfile
  imports Finalizers Conditions ObjectNames Defaulter
begin

text \<open>
  The TrafficManagerProfile controller (\<open>pkg/controllers/hub/trafficmanagerprofile/controller.go\<close>): it keeps
  an Azure Traffic Manager profile for every TrafficManagerProfile of the hub. A dereference of a nil
  pointer is a panic. The entries of the header lists of the Azure client are taken as not nil; the metric
  that the deferred function writes while a panic unwinds is left out.
\<close>

section \<open>The model\<close>

definition DNSRelativeNameFormat :: "string \<Rightarrow> string \<Rightarrow> string" where
  "DNSRelativeNameFormat ns nm = ns @ ''-'' @ nm"

definition AzureResourceProfileNameFormat :: "string \<Rightarrow> string" where
  "AzureResourceProfileNameFormat uid = ''fleet-'' @ uid"

definition DefaultDNSTTL :: int where
  "DefaultDNSTTL = 60"

definition profileEventReasonAzureAPIError :: string where
  "profileEventReasonAzureAPIError = ''AzureAPIError''"

definition profileEventReasonProgrammed :: string where
  "profileEventReasonProgrammed = ''Programmed''"

definition profileEventReasonDeleted :: string where
  "profileEventReasonDeleted = ''Deleted''"

definition TrafficManagerProfileConditionProgrammed :: string where
  "TrafficManagerProfileConditionProgrammed = ''Programmed''"

definition TrafficManagerProfileReasonProgrammed :: string where
  "TrafficManagerProfileReasonProgrammed = ''Programmed''"

definition TrafficManagerProfileReasonInvalid :: string where
  "TrafficManagerProfileReasonInvalid = ''Invalid''"

definition TrafficManagerProfileReasonDNSNameNotAvailable :: string where
  "TrafficManagerProfileReasonDNSNameNotAvailable = ''DNSNameNotAvailable''"

definition TrafficManagerProfileReasonPending :: string where
  "TrafficManagerProfileReasonPending = ''Pending''"

definition trafficManagerProfileStatusLastTimestampSeconds :: string where
  "trafficManagerProfileStatusLastTimestampSeconds = ''fleet_networking_traffic_manager_profile_status_last_timestamp_seconds''"

definition GenerateAzureTrafficManagerProfileName :: "TrafficManagerProfile \<Rightarrow> string" where
  "GenerateAzureTrafficManagerProfileName p = AzureResourceProfileNameFormat (om_UID (tmp_ObjectMeta p))"

subsection \<open>The comparison with the Azure profile\<close>

definition hasRequiredProperties :: "AzureProfile \<Rightarrow> bool" where
  "hasRequiredProperties p = (case ap_Properties p of
      None \<Rightarrow> False
    | Some q \<Rightarrow> app_MonitorConfig q \<noteq> None \<and> app_ProfileStatus q \<noteq> None \<and> app_TrafficRoutingMethod q \<noteq> None \<and> app_DNSConfig q \<noteq> None)"

text \<open>
  \<open>sort.Slice\<close> on headers. The comparison dereferences the names, and with two headers or more every
  name is compared; \<open>None\<close> is the panic.
\<close>

definition sortHeaders :: "Lib \<Rightarrow> AzureHeader list \<Rightarrow> AzureHeader list option" where
  "sortHeaders L hs =
     (if 2 \<le> length hs \<and> list_ex (\<lambda>x. ah_Name x = None) hs then None
      else Some (map (\<lambda>i. hs ! i) (LibSortSlice L (map (\<lambda>x. case ah_Name x of None \<Rightarrow> [] | Some n \<Rightarrow> n) hs))))"

text \<open>The slices are sorted in place, so the answer is the desired headers as they are left, too.\<close>

definition equalMonitorConfigWithCustomHeaders :: "Lib \<Rightarrow> AzureHeader list \<Rightarrow> AzureHeader list \<Rightarrow> (bool \<times> AzureHeader list) option" where
  "equalMonitorConfigWithCustomHeaders L current desired =
     (case sortHeaders L current of
        None \<Rightarrow> None
      | Some cs \<Rightarrow> (case sortHeaders L desired of None \<Rightarrow> None | Some ds \<Rightarrow> Some (cs = ds, ds)))"

text \<open>The evaluation of a disjunction of \<open>*x != *y\<close> from the left: \<open>None\<close> is the panic on a nil pointer.\<close>

fun anyDiffers :: "(bool option) list \<Rightarrow> bool option" where
  "anyDiffers [] = Some False"
| "anyDiffers (c # cs) = (case c of None \<Rightarrow> None | Some True \<Rightarrow> Some True | Some False \<Rightarrow> anyDiffers cs)"

definition derefNe :: "'a option \<Rightarrow> 'a option \<Rightarrow> bool option" where
  "derefNe x y = (case (x, y) of (Some a, Some b) \<Rightarrow> Some (a \<noteq> b) | _ \<Rightarrow> None)"

definition equalMonitorConfig :: "Lib \<Rightarrow> AzureMonitorConfig \<Rightarrow> AzureMonitorConfig \<Rightarrow> (bool \<times> AzureHeader list) option" where
  "equalMonitorConfig L current desired =
     (if amc_IntervalInSeconds current = None \<or> amc_Path current = None \<or> amc_Port current = None \<or> amc_Protocol current = None \<or>
         amc_TimeoutInSeconds current = None \<or> amc_ToleratedNumberOfFailures current = None
      then Some (False, amc_CustomHeaders desired)
      else
        (case anyDiffers [derefNe (amc_IntervalInSeconds current) (amc_IntervalInSeconds desired),
            derefNe (amc_Path current) (amc_Path desired), derefNe (amc_Port current) (amc_Port desired),
            derefNe (amc_Protocol current) (amc_Protocol desired), derefNe (amc_TimeoutInSeconds current) (amc_TimeoutInSeconds desired),
            derefNe (amc_ToleratedNumberOfFailures current) (amc_ToleratedNumberOfFailures desired)] of
           None \<Rightarrow> None
         | Some True \<Rightarrow> Some (False, amc_CustomHeaders desired)
         | Some False \<Rightarrow> equalMonitorConfigWithCustomHeaders L (amc_CustomHeaders current) (amc_CustomHeaders desired)))"

definition desiredTagsExistInCurrentTags :: "string option gomap \<Rightarrow> string option gomap \<Rightarrow> bool" where
  "desiredTagsExistInCurrentTags currentTags desiredTags =
     (case currentTags of
        None \<Rightarrow> False
      | Some _ \<Rightarrow> list_all (\<lambda>k. case mget currentTags k of
            Some (Some c) \<Rightarrow> mget desiredTags k = Some (Some c)
          | _ \<Rightarrow> False) (mkeys desiredTags))"

text \<open>The desired profile with its headers as the comparison leaves them.\<close>

definition withHeaders :: "AzureHeader list \<Rightarrow> AzureProfile \<Rightarrow> AzureProfile" where
  "withHeaders hs p = p\<lparr>ap_Properties := map_option (\<lambda>q. q\<lparr>app_MonitorConfig :=
      map_option (\<lambda>mc. mc\<lparr>amc_CustomHeaders := hs\<rparr>) (app_MonitorConfig q)\<rparr>) (ap_Properties p)\<rparr>"

definition equalAzureTrafficManagerProfile :: "Lib \<Rightarrow> AzureProfile \<Rightarrow> AzureProfile \<Rightarrow> (bool \<times> AzureProfile) option" where
  "equalAzureTrafficManagerProfile L current desired =
     (if \<not> hasRequiredProperties current then Some (False, desired)
      else
        (case (ap_Properties current, ap_Properties desired) of
           (Some c, Some d) \<Rightarrow>
             (case (app_MonitorConfig c, app_MonitorConfig d) of
                (Some cm, Some dm) \<Rightarrow>
                  (case equalMonitorConfig L cm dm of
                     None \<Rightarrow> None
                   | Some (eq, hs) \<Rightarrow>
                       let desired1 = withHeaders hs desired in
                       if \<not> eq then Some (False, desired1)
                       else
                         (case anyDiffers [derefNe (app_ProfileStatus c) (app_ProfileStatus d), derefNe (app_TrafficRoutingMethod c) (app_TrafficRoutingMethod d)] of
                            None \<Rightarrow> None
                          | Some True \<Rightarrow> Some (False, desired1)
                          | Some False \<Rightarrow>
                              (case (app_DNSConfig c, app_DNSConfig d) of
                                 (Some cd, Some dd) \<Rightarrow>
                                   if adc_TTL cd = None then Some (False, desired1)
                                   else
                                     (case derefNe (adc_TTL cd) (adc_TTL dd) of
                                        None \<Rightarrow> None
                                      | Some True \<Rightarrow> Some (False, desired1)
                                      | Some False \<Rightarrow> Some (desiredTagsExistInCurrentTags (ap_Tags current) (ap_Tags desired), desired1))
                               | _ \<Rightarrow> None)))
              | _ \<Rightarrow> None)
         | _ \<Rightarrow> None))"

subsection \<open>The desired profile\<close>

definition azureHeader :: "MonitorConfigCustomHeader \<Rightarrow> AzureHeader" where
  "azureHeader x = \<lparr>ah_Name = Some (mch_Name x), ah_Value = Some (mch_Value x)\<rparr>"

text \<open>\<open>None\<close> is the panic on a profile without monitor configuration or protocol.\<close>

definition generateAzureTrafficManagerProfile :: "TrafficManagerProfile \<Rightarrow> AzureProfile option" where
  "generateAzureTrafficManagerProfile p =
     (case tmp_MonitorConfig p of
        None \<Rightarrow> None
      | Some mc \<Rightarrow>
          (case mcf_Protocol mc of
             None \<Rightarrow> None
           | Some protocol \<Rightarrow> Some
               \<lparr>ap_ID = None, ap_Name = None, ap_Type = None, ap_Location = Some ''global'',
                ap_Properties = Some
                  \<lparr>app_DNSConfig = Some \<lparr>adc_RelativeName = Some (DNSRelativeNameFormat (om_Namespace (tmp_ObjectMeta p)) (om_Name (tmp_ObjectMeta p))),
                     adc_TTL = Some DefaultDNSTTL, adc_Fqdn = None\<rparr>,
                   app_MonitorConfig = Some \<lparr>amc_IntervalInSeconds = mcf_IntervalInSeconds mc, amc_Path = mcf_Path mc, amc_Port = mcf_Port mc,
                     amc_Protocol = Some protocol, amc_TimeoutInSeconds = mcf_TimeoutInSeconds mc,
                     amc_ToleratedNumberOfFailures = mcf_ToleratedNumberOfFailures mc, amc_CustomHeaders = map azureHeader (mcf_CustomHeaders mc),
                     amc_ProfileMonitorStatus = None\<rparr>,
                   app_ProfileStatus = Some ''Enabled'', app_TrafficRoutingMethod = Some ''Weighted'', app_Endpoints = [], app_MaxReturn = None\<rparr>,
                ap_Tags = Some [(AzureTrafficManagerProfileTagKey, Some (nnString (om_Namespace (tmp_ObjectMeta p)) (om_Name (tmp_ObjectMeta p))))]\<rparr>))"

definition resetMonitorConfig :: "AzureMonitorConfig \<Rightarrow> AzureMonitorConfig \<Rightarrow> AzureMonitorConfig" where
  "resetMonitorConfig c d = c\<lparr>amc_IntervalInSeconds := amc_IntervalInSeconds d, amc_Path := amc_Path d, amc_Port := amc_Port d,
     amc_Protocol := amc_Protocol d, amc_TimeoutInSeconds := amc_TimeoutInSeconds d,
     amc_ToleratedNumberOfFailures := amc_ToleratedNumberOfFailures d, amc_CustomHeaders := amc_CustomHeaders d\<rparr>"

text \<open>The desired profile has properties and a monitor configuration, as the code assumes.\<close>

definition buildAzureTrafficManagerProfileRequest :: "AzureProfile \<Rightarrow> AzureProfile \<Rightarrow> AzureProfile" where
  "buildAzureTrafficManagerProfileRequest current desired =
     current\<lparr>ap_Location := ap_Location desired,
       ap_Properties :=
         (case (ap_Properties current, ap_Properties desired) of
            (Some c, Some d) \<Rightarrow> Some (c\<lparr>app_DNSConfig := app_DNSConfig d,
               app_MonitorConfig := (case (app_MonitorConfig c, app_MonitorConfig d) of
                   (Some cm, Some dm) \<Rightarrow> Some (resetMonitorConfig cm dm)
                 | (_, dm) \<Rightarrow> dm),
               app_ProfileStatus := app_ProfileStatus d, app_TrafficRoutingMethod := app_TrafficRoutingMethod d\<rparr>)
          | (_, d) \<Rightarrow> d),
       ap_Tags :=
         (case ap_Tags current of
            None \<Rightarrow> ap_Tags desired
          | Some al \<Rightarrow> Some (fold (\<lambda>(k, v) m. AList.update k v m) (case ap_Tags desired of None \<Rightarrow> [] | Some dl \<Rightarrow> dl) al))\<rparr>"

subsection \<open>The controller\<close>

definition conditionStatusString :: "ConditionStatus \<Rightarrow> string" where
  "conditionStatusString s = (case s of ConditionTrue \<Rightarrow> ''True'' | ConditionFalse \<Rightarrow> ''False'' | ConditionUnknown \<Rightarrow> ''Unknown'')"

definition emitTrafficManagerProfileStatusMetric :: "Lib \<Rightarrow> TrafficManagerProfile \<Rightarrow> unit op" where
  "emitTrafficManagerProfileStatusMetric L p =
     (let om = tmp_ObjectMeta p in
      case LibFindStatusCondition L (tmp_Conditions p) TrafficManagerProfileConditionProgrammed of
        None \<Rightarrow> Ret ()
      | Some c \<Rightarrow>
          if c_ObservedGeneration c = om_Generation om then
            call (MetricSet trafficManagerProfileStatusLastTimestampSeconds
                    [om_Namespace om, om_Name om, FormatInt (om_Generation om), TrafficManagerProfileConditionProgrammed,
                     conditionStatusString (c_Status c), c_Reason c]) (\<lambda>_. ())
          else Ret ())"

text \<open>The condition that reports the outcome of the Azure calls.\<close>

definition programmedCondition :: "TrafficManagerProfile \<Rightarrow> err option \<Rightarrow> Condition" where
  "programmedCondition p armErr =
     (let cond = (\<lambda>s r m. \<lparr>c_Type = TrafficManagerProfileConditionProgrammed, c_Status = s, c_ObservedGeneration = om_Generation (tmp_ObjectMeta p),
            c_LastTransitionTime = None, c_Reason = r, c_Message = m\<rparr>) in
      case armErr of
        None \<Rightarrow> cond ConditionTrue TrafficManagerProfileReasonProgrammed ''Successfully configured the Azure Traffic Manager profile''
      | Some e \<Rightarrow>
          if AzIsConflict e then cond ConditionFalse TrafficManagerProfileReasonDNSNameNotAvailable
            ''Domain name is not available. Please choose a different profile name or namespace''
          else if AzIsClientError e \<and> \<not> AzIsThrottled e then cond ConditionFalse TrafficManagerProfileReasonInvalid (''Invalid profile: '' @ errString e)
          else cond ConditionUnknown TrafficManagerProfileReasonPending (''Failed to configure profile and retrying: '' @ errString e))"

definition reportedProfile :: "TrafficManagerProfile \<Rightarrow> AzureProfile option \<Rightarrow> TrafficManagerProfile" where
  "reportedProfile p az =
     (case az of
        Some a \<Rightarrow> p\<lparr>tmp_DNSName := (case ap_Properties a of None \<Rightarrow> None
                      | Some q \<Rightarrow> (case app_DNSConfig q of None \<Rightarrow> None | Some d \<Rightarrow> adc_Fqdn d)),
                    tmp_ResourceID := (case ap_ID a of None \<Rightarrow> [] | Some i \<Rightarrow> i)\<rparr>
      | None \<Rightarrow> p\<lparr>tmp_DNSName := None, tmp_ResourceID := []\<rparr>)"

text \<open>
  The outcome of the Azure calls is the profile, or the error. The result carries the object as it is
  left, for the metric.
\<close>

definition TMP_updateProfileStatus :: "Lib \<Rightarrow> TrafficManagerProfile \<Rightarrow> (err + AzureProfile) \<Rightarrow> (outcome \<times> TrafficManagerProfile) op" where
  "TMP_updateProfileStatus L p out =
     (let armErr = (case out of Inl e \<Rightarrow> Some e | Inr _ \<Rightarrow> None);
          p1 = reportedProfile p (case out of Inl _ \<Rightarrow> None | Inr a \<Rightarrow> Some a) in
      bindP (doStatusUpdate Hub OTMP decTMP (p1\<lparr>tmp_Conditions := LibSetStatusCondition L (tmp_Conditions p1) (programmedCondition p1 armErr)\<rparr>)) (\<lambda>(er, p2).
        case er of
          Some x \<Rightarrow> Ret ((emptyResult, LibNewUpdateIgnoreConflictError L x), p2)
        | None \<Rightarrow> Ret ((emptyResult, armErr), p2)))"

text \<open>The request to Azure, after the finalizer.\<close>

definition TMP_createOrUpdate :: "Lib \<Rightarrow> string \<Rightarrow> AzureProfile \<Rightarrow> TrafficManagerProfile \<Rightarrow> (outcome \<times> TrafficManagerProfile) op" where
  "TMP_createOrUpdate L atmProfileName desired p =
     bindP (call (ProfilesCreateOrUpdate (tmp_ResourceGroup p) atmProfileName desired) decProfile) (\<lambda>r.
       case r of
         Inl e \<Rightarrow>
           bindP (eventf KTrafficManagerProfile (tmp_ObjectMeta p) ''Warning'' profileEventReasonAzureAPIError
                    (''Failed to create or update Azure Traffic Manager profile '' @ atmProfileName @ '': '' @ errString e)) (\<lambda>_.
             if responseCode e = None then Ret ((emptyResult, Some e), p) else TMP_updateProfileStatus L p (Inl e))
       | Inr a \<Rightarrow>
           bindP (eventf KTrafficManagerProfile (tmp_ObjectMeta p) ''Normal'' profileEventReasonProgrammed
                    (''Created or updated Azure Traffic Manager profile '' @ atmProfileName)) (\<lambda>_.
             TMP_updateProfileStatus L p (Inr a)))"

definition TMP_register :: "Lib \<Rightarrow> string \<Rightarrow> AzureProfile \<Rightarrow> TrafficManagerProfile \<Rightarrow> (outcome \<times> TrafficManagerProfile) op" where
  "TMP_register L atmProfileName desired p =
     (if \<not> LibContainsFinalizer L (tmp_ObjectMeta p) TrafficManagerProfileFinalizer then
        bindP (doUpdate Hub OTMP decTMP (p\<lparr>tmp_ObjectMeta := LibAddFinalizer L (tmp_ObjectMeta p) TrafficManagerProfileFinalizer\<rparr>)) (\<lambda>(er, p1).
          case er of
            Some x \<Rightarrow> Ret ((emptyResult, LibNewUpdateIgnoreConflictError L x), p1)
          | None \<Rightarrow> TMP_createOrUpdate L atmProfileName desired p1)
      else TMP_createOrUpdate L atmProfileName desired p)"

definition TMP_handleUpdate :: "Lib \<Rightarrow> TrafficManagerProfile \<Rightarrow> (outcome \<times> TrafficManagerProfile) op" where
  "TMP_handleUpdate L p =
     (let atmProfileName = GenerateAzureTrafficManagerProfileName p in
      case generateAzureTrafficManagerProfile p of
        None \<Rightarrow> Panic ''nil pointer dereference''
      | Some desired \<Rightarrow>
          bindP (call (ProfilesGet (tmp_ResourceGroup p) atmProfileName) decProfile) (\<lambda>g.
            case g of
              Inl e \<Rightarrow>
                if \<not> AzIsNotFound e then
                  bindP (eventf KTrafficManagerProfile (tmp_ObjectMeta p) ''Warning'' profileEventReasonAzureAPIError
                           (''Failed to get Azure Traffic Manager profile '' @ atmProfileName @ '': '' @ errString e)) (\<lambda>_.
                    if AzIsForbidden e then TMP_updateProfileStatus L p (Inl e) else Ret ((emptyResult, Some e), p))
                else TMP_register L atmProfileName desired p
            | Inr current \<Rightarrow>
                (case equalAzureTrafficManagerProfile L current desired of
                   None \<Rightarrow> Panic ''nil pointer dereference''
                 | Some (eq, desired1) \<Rightarrow>
                     if eq then TMP_updateProfileStatus L p (Inr current)
                     else TMP_register L atmProfileName (buildAzureTrafficManagerProfileRequest current desired1) p)))"

definition TMP_finish :: "Lib \<Rightarrow> bool \<Rightarrow> TrafficManagerProfile \<Rightarrow> outcome op" where
  "TMP_finish L needUpdate p =
     (if \<not> needUpdate then Ret (emptyResult, None)
      else bindP (doUpdate Hub OTMP decTMP p) (\<lambda>(er, _).
        case er of Some x \<Rightarrow> Ret (emptyResult, LibNewUpdateIgnoreConflictError L x) | None \<Rightarrow> Ret (emptyResult, None)))"

definition TMP_deleteAzure :: "Lib \<Rightarrow> bool \<Rightarrow> TrafficManagerProfile \<Rightarrow> outcome op" where
  "TMP_deleteAzure L needUpdate p =
     (if LibContainsFinalizer L (tmp_ObjectMeta p) TrafficManagerProfileFinalizer then
        let atmProfileName = GenerateAzureTrafficManagerProfileName p in
        bindP (call (ProfilesDelete (tmp_ResourceGroup p) atmProfileName) decOk) (\<lambda>d.
          case d of
            Some e \<Rightarrow>
              if \<not> AzIsNotFound e then
                bindP (eventf KTrafficManagerProfile (tmp_ObjectMeta p) ''Warning'' profileEventReasonAzureAPIError
                         (''Failed to delete Azure Traffic Manager profile '' @ atmProfileName @ '': '' @ errString e)) (\<lambda>_.
                  Ret (emptyResult, Some e))
              else
                bindP (eventf KTrafficManagerProfile (tmp_ObjectMeta p) ''Normal'' profileEventReasonDeleted
                         (''Deleted Azure Traffic Manager profile '' @ atmProfileName)) (\<lambda>_.
                  TMP_finish L True (p\<lparr>tmp_ObjectMeta := LibRemoveFinalizer L (tmp_ObjectMeta p) TrafficManagerProfileFinalizer\<rparr>))
          | None \<Rightarrow>
              bindP (eventf KTrafficManagerProfile (tmp_ObjectMeta p) ''Normal'' profileEventReasonDeleted
                       (''Deleted Azure Traffic Manager profile '' @ atmProfileName)) (\<lambda>_.
                TMP_finish L True (p\<lparr>tmp_ObjectMeta := LibRemoveFinalizer L (tmp_ObjectMeta p) TrafficManagerProfileFinalizer\<rparr>)))
      else TMP_finish L needUpdate p)"

definition TMP_handleDelete :: "Lib \<Rightarrow> TrafficManagerProfile \<Rightarrow> outcome op" where
  "TMP_handleDelete L p =
     (if LibContainsFinalizer L (tmp_ObjectMeta p) MetricsFinalizer then
        bindP (call (MetricDeletePartial trafficManagerProfileStatusLastTimestampSeconds (om_Namespace (tmp_ObjectMeta p)) (om_Name (tmp_ObjectMeta p))) (\<lambda>_. ())) (\<lambda>_.
          TMP_deleteAzure L True (p\<lparr>tmp_ObjectMeta := LibRemoveFinalizer L (tmp_ObjectMeta p) MetricsFinalizer\<rparr>))
      else TMP_deleteAzure L False p)"

definition TMP_program :: "Lib \<Rightarrow> TrafficManagerProfile \<Rightarrow> outcome op" where
  "TMP_program L p =
     bindP (TMP_handleUpdate L (SetDefaultsTrafficManagerProfile p)) (\<lambda>(out, p1).
       bindP (emitTrafficManagerProfileStatusMetric L p1) (\<lambda>_. Ret out))"

definition TMP_Reconcile :: "Lib \<Rightarrow> NamespacedName \<Rightarrow> outcome op" where
  "TMP_Reconcile L name =
     bindP (getTMP Hub name) (\<lambda>g.
       case g of
         Inl x \<Rightarrow> if IsNotFound x then Ret (emptyResult, None) else Ret (emptyResult, Some (LibNewAPIServerError L True x))
       | Inr p \<Rightarrow>
           if om_DeletionTimestamp (tmp_ObjectMeta p) \<noteq> None then TMP_handleDelete L p
           else if \<not> LibContainsFinalizer L (tmp_ObjectMeta p) MetricsFinalizer then
             bindP (doUpdate Hub OTMP decTMP (p\<lparr>tmp_ObjectMeta := LibAddFinalizer L (tmp_ObjectMeta p) MetricsFinalizer\<rparr>)) (\<lambda>(er, p1).
               case er of Some x \<Rightarrow> Ret (emptyResult, Some x) | None \<Rightarrow> TMP_program L p1)
           else TMP_program L p)"

section \<open>What is said of the controller\<close>

text \<open>What the validation rules of the resource definition admit.\<close>

definition admittedConfig :: "MonitorConfig \<Rightarrow> bool" where
  "admittedConfig c \<longleftrightarrow>
     mcf_IntervalInSeconds c \<in> {None, Some 10, Some 30} \<and>
     (case mcf_TimeoutInSeconds c of None \<Rightarrow> True
      | Some t \<Rightarrow> 5 \<le> t \<and> t \<le> 10 \<and> (mcf_IntervalInSeconds c = Some 10 \<longrightarrow> t \<le> 9)) \<and>
     (case mcf_ToleratedNumberOfFailures c of None \<Rightarrow> True | Some n \<Rightarrow> 0 \<le> n \<and> n \<le> 9) \<and>
     distinct (map mch_Name (mcf_CustomHeaders c)) \<and> length (mcf_CustomHeaders c) \<le> 8"

definition admitted :: "TrafficManagerProfile \<Rightarrow> bool" where
  "admitted p = (case tmp_MonitorConfig p of None \<Rightarrow> True | Some c \<Rightarrow> admittedConfig c)"

text \<open>A monitor configuration for Azure in which nothing is missing and the values are in range.\<close>

definition wellTyped :: "AzureMonitorConfig \<Rightarrow> bool" where
  "wellTyped m \<longleftrightarrow>
     (\<exists>i t n. amc_IntervalInSeconds m = Some i \<and> amc_TimeoutInSeconds m = Some t \<and> amc_ToleratedNumberOfFailures m = Some n \<and>
        i \<in> {10, 30} \<and> 5 \<le> t \<and> t \<le> 10 \<and> t < i \<and> 0 \<le> n \<and> n \<le> 9) \<and>
     amc_Path m \<noteq> None \<and> amc_Port m \<noteq> None \<and> amc_Protocol m \<noteq> None \<and>
     None \<notin> ah_Name ` set (amc_CustomHeaders m) \<and> distinct (map ah_Name (amc_CustomHeaders m)) \<and> length (amc_CustomHeaders m) \<le> 8"

definition monitorOf :: "AzureProfile \<Rightarrow> AzureMonitorConfig option" where
  "monitorOf a = (case ap_Properties a of None \<Rightarrow> None | Some q \<Rightarrow> app_MonitorConfig q)"

definition namelessHeader :: "AzureProfile \<Rightarrow> bool" where
  "namelessHeader a = (case monitorOf a of None \<Rightarrow> False
     | Some m \<Rightarrow> 2 \<le> length (amc_CustomHeaders m) \<and> None \<in> ah_Name ` set (amc_CustomHeaders m))"

text \<open>
  The first profile carries the managed values of the second: the monitor configuration (the headers in
  any order), the status, the routing method, the time to live and the tags.
\<close>

definition sameMonitor :: "AzureMonitorConfig \<Rightarrow> AzureMonitorConfig \<Rightarrow> bool" where
  "sameMonitor c d \<longleftrightarrow> amc_IntervalInSeconds c = amc_IntervalInSeconds d \<and> amc_Path c = amc_Path d \<and> amc_Port c = amc_Port d \<and>
     amc_Protocol c = amc_Protocol d \<and> amc_TimeoutInSeconds c = amc_TimeoutInSeconds d \<and>
     amc_ToleratedNumberOfFailures c = amc_ToleratedNumberOfFailures d \<and> mset (amc_CustomHeaders c) = mset (amc_CustomHeaders d)"

definition manages :: "AzureProfile \<Rightarrow> AzureProfile \<Rightarrow> bool" where
  "manages a d \<longleftrightarrow>
     (\<exists>q r m n e f. ap_Properties a = Some q \<and> ap_Properties d = Some r \<and> app_MonitorConfig q = Some m \<and> app_MonitorConfig r = Some n \<and> sameMonitor m n \<and>
        app_DNSConfig q = Some e \<and> app_DNSConfig r = Some f \<and> adc_TTL e = adc_TTL f \<and>
        app_ProfileStatus q = app_ProfileStatus r \<and> app_TrafficRoutingMethod q = app_TrafficRoutingMethod r) \<and>
     ap_Tags a \<noteq> None \<and> (\<forall>k \<in> set (mkeys (ap_Tags d)). mget (ap_Tags a) k = mget (ap_Tags d) k)"

definition desiredOf :: "TrafficManagerProfile \<Rightarrow> AzureProfile option" where
  "desiredOf p = generateAzureTrafficManagerProfile (SetDefaultsTrafficManagerProfile p)"

definition hasTMPFinalizer :: "kobj \<Rightarrow> bool" where
  "hasTMPFinalizer x = (case x of OTMP p \<Rightarrow> TrafficManagerProfileFinalizer \<in> set (om_Finalizers (tmp_ObjectMeta p)) | _ \<Rightarrow> False)"

definition azureGone :: "TrafficManagerProfile \<Rightarrow> trace \<Rightarrow> bool" where
  "azureGone p h \<longleftrightarrow> (\<exists>a. (ProfilesDelete (tmp_ResourceGroup p) (GenerateAzureTrafficManagerProfileName p), a) \<in> set h \<and>
     (case decOk a of None \<Rightarrow> True | Some e \<Rightarrow> AzIsNotFound e))"

text \<open>
  The status that is reported: Programmed is true with the address and the identifier that Azure has
  answered, false for an error of the user, and unknown for an error that is retried.
\<close>

definition reportsAzure :: "trace \<Rightarrow> TrafficManagerProfile \<Rightarrow> Condition \<Rightarrow> bool" where
  "reportsAzure h p c \<longleftrightarrow> c_Type c = TrafficManagerProfileConditionProgrammed \<and> c_ObservedGeneration c = om_Generation (tmp_ObjectMeta p) \<and>
     (case c_Status c of
        ConditionTrue \<Rightarrow> (\<exists>q a. (q, RProfile a) \<in> set h \<and> p = reportedProfile p (Some a) \<and>
           (\<exists>rg nm d. q = ProfilesGet rg nm \<or> q = ProfilesCreateOrUpdate rg nm d))
      | ConditionFalse \<Rightarrow> tmp_DNSName p = None \<and> (\<exists>q e. (q, RErr e) \<in> set h \<and> AzIsClientError e \<and> \<not> AzIsThrottled e)
      | ConditionUnknown \<Rightarrow> tmp_DNSName p = None \<and> (\<exists>q e. (q, RErr e) \<in> set h \<and> (AzIsClientError e \<longrightarrow> AzIsThrottled e)))"

definition TMP_guard :: "Lib \<Rightarrow> trace \<Rightarrow> request \<Rightarrow> bool" where
  "TMP_guard L h q \<longleftrightarrow>
     (case q of
        ProfilesCreateOrUpdate rg nm req \<Rightarrow> recorded hasTMPFinalizer h \<and>
          (\<exists>p d. answered (OTMP p) h \<and> nm = GenerateAzureTrafficManagerProfileName p \<and> desiredOf p = Some d \<and> manages req d) \<and>
          (\<exists>p. (answered (OTMP p) h \<and> rg = tmp_ResourceGroup p))
      | ProfilesDelete rg nm \<Rightarrow> (\<exists>p. answered (OTMP p) h \<and> om_DeletionTimestamp (tmp_ObjectMeta p) \<noteq> None \<and> hasTMPFinalizer (OTMP p) \<and>
          rg = tmp_ResourceGroup p \<and> nm = GenerateAzureTrafficManagerProfileName p)
      | Update cl x \<Rightarrow> cl = Hub \<and> (\<exists>p0 p. answered (OTMP p0) h \<and> x = OTMP p \<and>
          (hasTMPFinalizer (OTMP p0) \<longrightarrow> hasTMPFinalizer x \<or> azureGone p h \<and> om_DeletionTimestamp (tmp_ObjectMeta p0) \<noteq> None))
      | StatusUpdate cl x \<Rightarrow> cl = Hub \<and> (\<exists>p cs c. x = OTMP p \<and> tmp_Conditions p = LibSetStatusCondition L cs c \<and> reportsAzure h p c)
      | Create cl x \<Rightarrow> False
      | Delete cl kd n \<Rightarrow> False
      | _ \<Rightarrow> True)"

text \<open>What a panic needs.\<close>

definition panicCause :: "trace \<Rightarrow> bool" where
  "panicCause h \<longleftrightarrow> (\<exists>p. answered (OTMP p) h \<and> \<not> admitted p) \<or> (\<exists>rg nm a. (ProfilesGet rg nm, RProfile a) \<in> set h \<and> namelessHeader a)"

text \<open>Objects and answers for the examples.\<close>

definition demoProfile :: TrafficManagerProfile where
  "demoProfile = \<lparr>tmp_ObjectMeta = (metaOf ''work'' ''app'')\<lparr>om_UID := ''u1'', om_Generation := 2, om_Finalizers := [MetricsFinalizer]\<rparr>,
     tmp_ResourceGroup = ''rg'', tmp_MonitorConfig = Some (zeroMonitorConfig\<lparr>mcf_IntervalInSeconds := Some 10,
       mcf_CustomHeaders := [\<lparr>mch_Name = ''X-B'', mch_Value = ''2''\<rparr>, \<lparr>mch_Name = ''Host'', mch_Value = ''a''\<rparr>]\<rparr>),
     tmp_DNSName = None, tmp_ResourceID = [], tmp_Conditions = []\<rparr>"

definition demoAzure :: AzureProfile where
  "demoAzure = \<lparr>ap_ID = Some ''id1'', ap_Name = None, ap_Type = None, ap_Location = None, ap_Properties = None, ap_Tags = None\<rparr>"

text \<open>What Azure stores of a request: with an address, and the headers in another order.\<close>

definition demoStored :: "AzureProfile \<Rightarrow> AzureProfile" where
  "demoStored a = a\<lparr>ap_ID := Some ''id1'', ap_Properties := map_option (\<lambda>q. q\<lparr>
     app_DNSConfig := map_option (\<lambda>d. d\<lparr>adc_Fqdn := Some ''work-app.trafficmanager.net''\<rparr>) (app_DNSConfig q),
     app_MonitorConfig := map_option (\<lambda>m. m\<lparr>amc_CustomHeaders := rev (amc_CustomHeaders m)\<rparr>) (app_MonitorConfig q)\<rparr>) (ap_Properties a)\<rparr>"

definition demoAzureAnswers :: "response list" where
  "demoAzureAnswers = [RObj (OTMP demoProfile), RProfile demoAzure, RObj (OTMP demoProfile), RProfile (demoStored demoAzure), ROk, RObj (OTMP demoProfile)]"

text \<open>An interval that is not admitted, without a timeout.\<close>

definition demoPanicAnswers :: "response list" where
  "demoPanicAnswers = [RObj (OTMP (demoProfile\<lparr>tmp_MonitorConfig := Some (zeroMonitorConfig\<lparr>mcf_IntervalInSeconds := Some 20\<rparr>)\<rparr>)),
     RProfile (demoAzure\<lparr>ap_Properties := Some \<lparr>app_DNSConfig = Some \<lparr>adc_RelativeName = None, adc_TTL = None, adc_Fqdn = None\<rparr>,
       app_MonitorConfig = Some \<lparr>amc_IntervalInSeconds = Some 20, amc_Path = Some ''/'', amc_Port = Some 80, amc_Protocol = Some ProtocolHTTP,
         amc_TimeoutInSeconds = Some 5, amc_ToleratedNumberOfFailures = Some 3, amc_CustomHeaders = [], amc_ProfileMonitorStatus = None\<rparr>,
       app_ProfileStatus = Some ''Enabled'', app_TrafficRoutingMethod = Some ''Weighted'', app_Endpoints = [], app_MaxReturn = None\<rparr>\<rparr>)]"

section \<open>Lemmas\<close>

interpretation tmpf: finalized OTMP tmp_ObjectMeta "\<lambda>om p. p\<lparr>tmp_ObjectMeta := om\<rparr>" TrafficManagerProfileFinalizer hasTMPFinalizer KTrafficManagerProfile
  by unfold_locales (simp_all add: hasTMPFinalizer_def)

subsection \<open>The comparison\<close>

lemma sortHeaders_Some:
  assumes "sort_laws L" and "sortHeaders L hs = Some ss"
  shows "mset ss = mset hs" and "sorted (map (\<lambda>x. case ah_Name x of None \<Rightarrow> [] | Some n \<Rightarrow> n) ss)"
proof -
  let ?key = "\<lambda>x. case ah_Name x of None \<Rightarrow> [] | Some n \<Rightarrow> n"
  let ?is = "LibSortSlice L (map ?key hs)"
  have ss: "ss = map (\<lambda>i. hs ! i) ?is" using assms(2) by (auto simp: sortHeaders_def split: if_splits)
  have m: "mset ?is = mset [0..<length hs]" and s: "sorted (map (\<lambda>i. map ?key hs ! i) ?is)"
    using assms(1) unfolding sort_laws_def by (metis length_map, blast)
  have "mset ss = image_mset (\<lambda>i. hs ! i) (mset ?is)" by (simp add: ss)
  also have "\<dots> = mset (map (\<lambda>i. hs ! i) [0..<length hs])" by (simp only: m mset_map)
  finally show "mset ss = mset hs" by (simp add: map_nth)
  have "set ?is = {0..<length hs}" using mset_eq_setD [OF m] by simp
  then have "map (\<lambda>i. map ?key hs ! i) ?is = map ?key ss" by (simp add: ss)
  with s show "sorted (map ?key ss)" by simp
qed

lemma sortHeaders_named: "None \<notin> ah_Name ` set hs \<Longrightarrow> \<exists>ss. sortHeaders L hs = Some ss"
  unfolding sortHeaders_def by (auto simp: list_ex_iff) (metis image_eqI not_None_eq)

lemma equalHeaders_iff_mset:
  assumes "sort_laws L" and "None \<notin> ah_Name ` set des" and "distinct (map ah_Name des)" and "mset cur = mset des"
  shows "\<exists>ds. equalMonitorConfigWithCustomHeaders L cur des = Some (True, ds)"
proof -
  let ?key = "\<lambda>x. case ah_Name x of None \<Rightarrow> [] | Some n \<Rightarrow> n"
  have set: "set cur = set des" using mset_eq_setD [OF assms(4)] .
  obtain cs where cs: "sortHeaders L cur = Some cs" using sortHeaders_named assms(2) set by metis
  obtain ds where ds: "sortHeaders L des = Some ds" using sortHeaders_named assms(2) by metis
  note c = sortHeaders_Some [OF assms(1) cs] and d = sortHeaders_Some [OF assms(1) ds]
  have "mset (map ?key cs) = mset (map ?key ds)" using c(1) d(1) assms(4) by simp
  then have keys: "map ?key cs = map ?key ds"
    using c(2) d(2) by (metis properties_for_sort)
  have inj: "inj_on ?key (set des)"
  proof (rule inj_onI)
    fix x y assume *: "x \<in> set des" "y \<in> set des" "?key x = ?key y"
    with assms(2) have "ah_Name x = ah_Name y" by (auto simp: image_iff split: option.splits)
    with assms(3) * show "x = y" by (simp add: distinct_map inj_on_def)
  qed
  have "set cs = set des" "set ds = set des" using c(1) d(1) assms(4) by (metis mset_eq_setD)+
  with inj keys have "cs = ds" by (metis Un_absorb map_inj_on)
  then show ?thesis by (simp add: equalMonitorConfigWithCustomHeaders_def cs ds)
qed

lemma equalMonitorConfig_headers:
  assumes "sort_laws L" and "equalMonitorConfig L c d = Some (b, hs)"
  shows "mset hs = mset (amc_CustomHeaders d)"
proof -
  have "mset hs = mset (amc_CustomHeaders d)" if "equalMonitorConfigWithCustomHeaders L x (amc_CustomHeaders d) = Some (b, hs)" for x
    using that sortHeaders_Some(1) [OF assms(1)]
    by (auto simp: equalMonitorConfigWithCustomHeaders_def split: option.splits)
  with assms(2) show ?thesis
    by (auto simp: equalMonitorConfig_def split: if_splits option.splits bool.splits)
qed

lemma sameMonitor_trans: "sameMonitor a b \<Longrightarrow> sameMonitor b c \<Longrightarrow> sameMonitor a c"
  by (simp add: sameMonitor_def)

text \<open>The request carries the managed values of the desired profile.\<close>

lemma sameMonitor_reset: "mset hs = mset (amc_CustomHeaders n) \<Longrightarrow> sameMonitor (resetMonitorConfig m (n\<lparr>amc_CustomHeaders := hs\<rparr>)) n"
  by (simp add: sameMonitor_def resetMonitorConfig_def)

lemma mget_fold_update:
  "mget (Some (fold (\<lambda>(k, v). AList.update k v) dl al)) k = (case map_of (rev dl) k of Some v \<Rightarrow> Some v | None \<Rightarrow> map_of al k)"
  by (induction dl arbitrary: al) (auto simp: update_conv' map_add_def split: option.splits)

lemma manages_build:
  assumes "ap_Properties d = Some r" and "app_MonitorConfig r = Some n" and "app_DNSConfig r = Some f" and "ap_Tags d = Some [(k, v)]"
    and "mset hs = mset (amc_CustomHeaders n)"
  shows "manages (buildAzureTrafficManagerProfileRequest c (withHeaders hs d)) d"
proof -
  let ?b = "buildAzureTrafficManagerProfileRequest c (withHeaders hs d)"
  let ?m = "case ap_Properties c of None \<Rightarrow> n\<lparr>amc_CustomHeaders := hs\<rparr>
    | Some q \<Rightarrow> (case app_MonitorConfig q of None \<Rightarrow> n\<lparr>amc_CustomHeaders := hs\<rparr> | Some m \<Rightarrow> resetMonitorConfig m (n\<lparr>amc_CustomHeaders := hs\<rparr>))"
  have m: "sameMonitor ?m n"
    using assms(5) sameMonitor_reset by (simp add: sameMonitor_def split: option.splits)
  have "\<exists>q. ap_Properties ?b = Some q \<and> app_MonitorConfig q = Some ?m \<and> app_DNSConfig q = Some f \<and>
      app_ProfileStatus q = app_ProfileStatus r \<and> app_TrafficRoutingMethod q = app_TrafficRoutingMethod r"
    using assms(1-3) by (cases "ap_Properties c") (auto simp: buildAzureTrafficManagerProfileRequest_def withHeaders_def split: option.splits)
  moreover have "ap_Tags ?b \<noteq> None \<and> mget (ap_Tags ?b) k = Some v"
    using assms(4) by (cases "ap_Tags c") (auto simp: buildAzureTrafficManagerProfileRequest_def withHeaders_def update_conv')
  ultimately show ?thesis
    unfolding manages_def using assms(1-4) m by (auto simp: mkeys_def)
qed

lemma manages_refl:
  assumes "ap_Properties d = Some r" and "app_MonitorConfig r = Some n" and "app_DNSConfig r = Some f" and "ap_Tags d \<noteq> None"
  shows "manages d d"
  using assms by (simp add: manages_def sameMonitor_def)

lemma manages_trans:
  assumes "manages a b" and "manages b c" and "\<forall>k \<in> set (mkeys (ap_Tags c)). mget (ap_Tags c) k \<noteq> None"
  shows "manages a c"
proof -
  have "k \<in> set (mkeys (ap_Tags b))" if "k \<in> set (mkeys (ap_Tags c))" for k
  proof -
    have "mget (ap_Tags b) k \<noteq> None" using assms(2,3) that by (auto simp: manages_def)
    then show ?thesis by (force simp: mget_def mkeys_def dest: map_of_SomeD split: option.splits)
  qed
  with assms(1,2) show ?thesis unfolding manages_def by (auto intro: sameMonitor_trans)
qed

text \<open>The shape of the desired profile.\<close>

lemma desiredOf_shape:
  assumes "desiredOf p = Some d"
  obtains r n f v where "ap_Properties d = Some r" "app_MonitorConfig r = Some n" "app_DNSConfig r = Some f" "adc_TTL f = Some DefaultDNSTTL"
    "app_ProfileStatus r = Some ''Enabled''" "app_TrafficRoutingMethod r = Some ''Weighted''" "ap_Tags d = Some [(AzureTrafficManagerProfileTagKey, Some v)]"
  using assms by (auto simp: desiredOf_def generateAzureTrafficManagerProfile_def split: option.splits)

lemma defaultMonitorConfig_fields [simp]:
  "mcf_IntervalInSeconds (defaultMonitorConfig c) = setDefault 30 (mcf_IntervalInSeconds c)"
  "mcf_Path (defaultMonitorConfig c) = setDefault ''/'' (mcf_Path c)"
  "mcf_Port (defaultMonitorConfig c) = setDefault 80 (mcf_Port c)"
  "mcf_Protocol (defaultMonitorConfig c) = setDefault ProtocolHTTP (mcf_Protocol c)"
  "mcf_TimeoutInSeconds (defaultMonitorConfig c) = (case mcf_TimeoutInSeconds c of Some t \<Rightarrow> Some t
     | None \<Rightarrow> if setDefault 30 (mcf_IntervalInSeconds c) = Some 30 then Some 10 else if setDefault 30 (mcf_IntervalInSeconds c) = Some 10 then Some 9 else None)"
  "mcf_ToleratedNumberOfFailures (defaultMonitorConfig c) = setDefault 3 (mcf_ToleratedNumberOfFailures c)"
  "mcf_CustomHeaders (defaultMonitorConfig c) = mcf_CustomHeaders c"
  by (simp_all add: defaultConfig_defs)

lemma setDefault_Some: "setDefault v x = Some (case x of None \<Rightarrow> v | Some y \<Rightarrow> y)"
  by (cases x) simp_all

text \<open>The monitor configuration of the desired profile.\<close>

definition desiredMonitor :: "MonitorConfig \<Rightarrow> AzureMonitorConfig" where
  "desiredMonitor c = \<lparr>amc_IntervalInSeconds = mcf_IntervalInSeconds c, amc_Path = mcf_Path c, amc_Port = mcf_Port c,
     amc_Protocol = mcf_Protocol c, amc_TimeoutInSeconds = mcf_TimeoutInSeconds c,
     amc_ToleratedNumberOfFailures = mcf_ToleratedNumberOfFailures c, amc_CustomHeaders = map azureHeader (mcf_CustomHeaders c), amc_ProfileMonitorStatus = None\<rparr>"

lemma desiredOf_monitor:
  obtains d where "desiredOf p = Some d"
    "monitorOf d = Some (desiredMonitor (defaultMonitorConfig (case tmp_MonitorConfig p of None \<Rightarrow> zeroMonitorConfig | Some c \<Rightarrow> c)))"
  by (auto simp: desiredOf_def generateAzureTrafficManagerProfile_def SetDefaultsTrafficManagerProfile_def setDefault_Some monitorOf_def desiredMonitor_def)

lemma admitted_timeout:
  assumes "admittedConfig c"
  shows "\<exists>i t. mcf_IntervalInSeconds (defaultMonitorConfig c) = Some i \<and> mcf_TimeoutInSeconds (defaultMonitorConfig c) = Some t \<and>
    i \<in> {10, 30} \<and> 5 \<le> t \<and> t \<le> 10 \<and> t < i"
  using assms
  by (cases "mcf_IntervalInSeconds c"; cases "mcf_TimeoutInSeconds c") (auto simp: admittedConfig_def setDefault_def)

lemma admitted_failures:
  assumes "admittedConfig c"
  shows "\<exists>n. mcf_ToleratedNumberOfFailures (defaultMonitorConfig c) = Some n \<and> 0 \<le> n \<and> n \<le> 9"
  using assms by (cases "mcf_ToleratedNumberOfFailures c") (auto simp: admittedConfig_def)

lemma admitted_zero: "admittedConfig zeroMonitorConfig"
  by (simp add: admittedConfig_def zeroMonitorConfig_def)

lemma desiredMonitor_wellTyped:
  assumes "admittedConfig c"
  shows "wellTyped (desiredMonitor (defaultMonitorConfig c))"
proof -
  have "distinct (map (ah_Name \<circ> azureHeader) (mcf_CustomHeaders c))" "None \<notin> ah_Name ` azureHeader ` set (mcf_CustomHeaders c)"
    using assms by (auto simp: admittedConfig_def azureHeader_def distinct_map inj_on_def comp_def)
  moreover have "length (mcf_CustomHeaders c) \<le> 8" using assms by (simp add: admittedConfig_def)
  moreover note admitted_timeout [OF assms] admitted_failures [OF assms]
  ultimately show ?thesis unfolding wellTyped_def desiredMonitor_def by (auto simp del: defaultMonitorConfig_fields(1,5,6))
qed

lemma desiredOf_wellTyped:
  assumes "admitted p" and "desiredOf p = Some d"
  shows "\<exists>m. monitorOf d = Some m \<and> wellTyped m"
proof -
  have "admittedConfig (case tmp_MonitorConfig p of None \<Rightarrow> zeroMonitorConfig | Some c \<Rightarrow> c)"
    using assms(1) admitted_zero by (auto simp: admitted_def split: option.splits)
  from desiredMonitor_wellTyped [OF this] show ?thesis
    using assms(2) by (rule_tac desiredOf_monitor [of p]) auto
qed

text \<open>A profile that carries the managed values of the desired one is taken for equal.\<close>

lemma anyDiffers_same: "list_all (\<lambda>x. x = Some False) cs \<Longrightarrow> anyDiffers cs = Some False"
  by (induction cs) auto

lemma derefNe_same: "x \<noteq> None \<Longrightarrow> derefNe x x = Some False"
  by (auto simp: derefNe_def)

lemma equalMonitorConfig_same:
  assumes "sort_laws L" and "sameMonitor m n" and "wellTyped n"
  shows "\<exists>hs. equalMonitorConfig L m n = Some (True, hs)"
proof -
  have n: "amc_IntervalInSeconds n \<noteq> None" "amc_Path n \<noteq> None" "amc_Port n \<noteq> None" "amc_Protocol n \<noteq> None" "amc_TimeoutInSeconds n \<noteq> None"
    "amc_ToleratedNumberOfFailures n \<noteq> None"
    using assms(3) by (auto simp: wellTyped_def)
  have "\<exists>hs. equalMonitorConfigWithCustomHeaders L (amc_CustomHeaders m) (amc_CustomHeaders n) = Some (True, hs)"
    by (rule equalHeaders_iff_mset [OF assms(1)]) (use assms(2,3) in \<open>simp_all add: wellTyped_def sameMonitor_def\<close>)
  with assms(2) n show ?thesis by (simp add: equalMonitorConfig_def sameMonitor_def derefNe_same)
qed

lemma equal_if_manages:
  assumes "sort_laws L" and "admitted p" and "desiredOf p = Some d" and "manages a d"
  shows "\<exists>d'. equalAzureTrafficManagerProfile L a d = Some (True, d')"
proof -
  obtain r n f v where d: "ap_Properties d = Some r" "app_MonitorConfig r = Some n" "app_DNSConfig r = Some f" "adc_TTL f = Some DefaultDNSTTL"
    "app_ProfileStatus r = Some ''Enabled''" "app_TrafficRoutingMethod r = Some ''Weighted''" "ap_Tags d = Some [(AzureTrafficManagerProfileTagKey, Some v)]"
    by (rule desiredOf_shape [OF assms(3)]) blast
  have "wellTyped n" using desiredOf_wellTyped [OF assms(2,3)] d(1,2) by (simp add: monitorOf_def)
  obtain q m e where a: "ap_Properties a = Some q" "app_MonitorConfig q = Some m" "sameMonitor m n" "app_DNSConfig q = Some e" "adc_TTL e = Some DefaultDNSTTL"
    "app_ProfileStatus q = Some ''Enabled''" "app_TrafficRoutingMethod q = Some ''Weighted''" "ap_Tags a \<noteq> None"
    "mget (ap_Tags a) AzureTrafficManagerProfileTagKey = Some (Some v)"
    using assms(4) d unfolding manages_def by (auto simp: mkeys_def)
  obtain hs where "equalMonitorConfig L m n = Some (True, hs)"
    using equalMonitorConfig_same [OF assms(1) a(3) \<open>wellTyped n\<close>] by blast
  moreover have "desiredTagsExistInCurrentTags (ap_Tags a) (ap_Tags d)"
    using a(8,9) d(7) by (auto simp: desiredTagsExistInCurrentTags_def mkeys_def)
  ultimately show ?thesis
    using a(1,2,4-7) d(1-6) by (simp add: equalAzureTrafficManagerProfile_def hasRequiredProperties_def derefNe_def Let_def)
qed

lemma equal_desired:
  assumes "sort_laws L" and "desiredOf p = Some d" and "equalAzureTrafficManagerProfile L c d = Some (b, d1)"
  shows "manages (buildAzureTrafficManagerProfileRequest c d1) d"
proof -
  obtain r n f v where d: "ap_Properties d = Some r" "app_MonitorConfig r = Some n" "app_DNSConfig r = Some f"
    "ap_Tags d = Some [(AzureTrafficManagerProfileTagKey, Some v)]"
    by (rule desiredOf_shape [OF assms(2)]) blast
  have same: "d = withHeaders (amc_CustomHeaders n) d" using d by (simp add: withHeaders_def)
  have "\<exists>hs. d1 = withHeaders hs d \<and> mset hs = mset (amc_CustomHeaders n)"
    using assms(3) d(1,2) same equalMonitorConfig_headers [OF assms(1)]
    by (fastforce simp: equalAzureTrafficManagerProfile_def Let_def split: if_splits option.splits bool.splits prod.splits)
  with manages_build [OF d] show ?thesis by blast
qed

subsection \<open>Panics\<close>

lemma anyDiffers_Some: "list_all (\<lambda>x. x \<noteq> None) cs \<Longrightarrow> anyDiffers cs \<noteq> None"
  by (induction cs) (auto split: bool.splits)

lemma derefNe_Some: "x \<noteq> None \<Longrightarrow> y \<noteq> None \<Longrightarrow> derefNe x y \<noteq> None"
  by (auto simp: derefNe_def)

lemma equalMonitorConfig_no_panic:
  assumes "wellTyped n" and "\<not> (2 \<le> length (amc_CustomHeaders m) \<and> None \<in> ah_Name ` set (amc_CustomHeaders m))"
  shows "equalMonitorConfig L m n \<noteq> None"
proof -
  have "sortHeaders L (amc_CustomHeaders m) \<noteq> None" using assms(2) by (auto simp: sortHeaders_def list_ex_iff) (metis image_eqI not_None_eq)
  moreover have "sortHeaders L (amc_CustomHeaders n) \<noteq> None" using assms(1) sortHeaders_named by (fastforce simp: wellTyped_def)
  ultimately have h: "equalMonitorConfigWithCustomHeaders L (amc_CustomHeaders m) (amc_CustomHeaders n) \<noteq> None"
    by (auto simp: equalMonitorConfigWithCustomHeaders_def split: option.splits)
  show ?thesis
  proof (cases "amc_IntervalInSeconds m = None \<or> amc_Path m = None \<or> amc_Port m = None \<or> amc_Protocol m = None \<or>
      amc_TimeoutInSeconds m = None \<or> amc_ToleratedNumberOfFailures m = None")
    case False
    have "anyDiffers [derefNe (amc_IntervalInSeconds m) (amc_IntervalInSeconds n),
            derefNe (amc_Path m) (amc_Path n), derefNe (amc_Port m) (amc_Port n),
            derefNe (amc_Protocol m) (amc_Protocol n), derefNe (amc_TimeoutInSeconds m) (amc_TimeoutInSeconds n),
            derefNe (amc_ToleratedNumberOfFailures m) (amc_ToleratedNumberOfFailures n)] \<noteq> None"
      by (rule anyDiffers_Some) (use False assms(1) in \<open>auto simp: wellTyped_def derefNe_def\<close>)
    then obtain b where b: "anyDiffers [derefNe (amc_IntervalInSeconds m) (amc_IntervalInSeconds n),
            derefNe (amc_Path m) (amc_Path n), derefNe (amc_Port m) (amc_Port n),
            derefNe (amc_Protocol m) (amc_Protocol n), derefNe (amc_TimeoutInSeconds m) (amc_TimeoutInSeconds n),
            derefNe (amc_ToleratedNumberOfFailures m) (amc_ToleratedNumberOfFailures n)] = Some b"
      by blast
    show ?thesis unfolding equalMonitorConfig_def if_not_P [OF False] b by (cases b) (use h in auto)
  qed (auto simp: equalMonitorConfig_def)
qed

lemma equal_no_panic:
  assumes "admitted p" and "desiredOf p = Some d" and "\<not> namelessHeader c"
  shows "equalAzureTrafficManagerProfile L c d \<noteq> None"
proof (cases "hasRequiredProperties c")
  case True
  obtain r n f v where d: "ap_Properties d = Some r" "app_MonitorConfig r = Some n" "app_DNSConfig r = Some f" "adc_TTL f = Some DefaultDNSTTL"
    "app_ProfileStatus r = Some ''Enabled''" "app_TrafficRoutingMethod r = Some ''Weighted''" "ap_Tags d = Some [(AzureTrafficManagerProfileTagKey, Some v)]"
    by (rule desiredOf_shape [OF assms(2)]) blast
  have n: "wellTyped n" using desiredOf_wellTyped [OF assms(1,2)] d(1,2) by (simp add: monitorOf_def)
  from True obtain q m e s t where c: "ap_Properties c = Some q" "app_MonitorConfig q = Some m" "app_DNSConfig q = Some e"
    "app_ProfileStatus q = Some s" "app_TrafficRoutingMethod q = Some t"
    by (auto simp: hasRequiredProperties_def split: option.splits)
  have "equalMonitorConfig L m n \<noteq> None"
    by (rule equalMonitorConfig_no_panic [OF n]) (use assms(3) c in \<open>simp add: namelessHeader_def monitorOf_def\<close>)
  with True c d show ?thesis
    by (auto simp: equalAzureTrafficManagerProfile_def derefNe_def Let_def split: option.splits bool.splits)
qed (simp add: equalAzureTrafficManagerProfile_def)

lemma nopanic_TMP [simp]:
  "nopanic (emitTrafficManagerProfileStatusMetric L p)" "nopanic (TMP_updateProfileStatus L p out)" "nopanic (TMP_createOrUpdate L nm d p)"
  "nopanic (TMP_register L nm d p)" "nopanic (TMP_handleDelete L p)"
proof -
  show u: "nopanic (TMP_updateProfileStatus L p out)" for p out by (auto simp: TMP_updateProfileStatus_def prog_simps decUpd_def Let_def split: sum.splits)
  show c: "nopanic (TMP_createOrUpdate L nm d p)" for nm d p by (auto simp: TMP_createOrUpdate_def prog_simps u split: sum.splits)
  show "nopanic (TMP_register L nm d p)" by (auto simp: TMP_register_def prog_simps decUpd_def c split: sum.splits)
  show "nopanic (emitTrafficManagerProfileStatusMetric L p)" by (auto simp: emitTrafficManagerProfileStatusMetric_def prog_simps Let_def split: option.splits)
  have f: "nopanic (TMP_finish L b p)" for b p by (auto simp: TMP_finish_def prog_simps decUpd_def split: sum.splits)
  have d: "nopanic (TMP_deleteAzure L b p)" for b p by (auto simp: TMP_deleteAzure_def prog_simps Let_def f split: option.splits)
  show "nopanic (TMP_handleDelete L p)" by (auto simp: TMP_handleDelete_def prog_simps d)
qed

lemma TMP_program_wpan:
  assumes "answered (OTMP p) h"
  shows "wpan panicCause (\<lambda>_ _. True) (TMP_program L p) h"
proof -
  obtain d where d: "desiredOf p = Some d" using desiredOf_monitor by blast
  have "panicCause (h @ [(ProfilesGet rg nm, RProfile a)])" if "equalAzureTrafficManagerProfile L a d = None" for rg nm a
    using equal_no_panic [OF _ d, of a L] that answered_mono [OF assms] unfolding panicCause_def by (metis UnCI list.set_intros(1) set_append)
  then show ?thesis
    using d unfolding TMP_program_def TMP_handleUpdate_def desiredOf_def
    by (auto simp: Let_def prog_simps wpan_bindP split: sum.splits option.splits prod.splits
        intro!: wpan_nopanicI)
qed


subsection \<open>The protocol\<close>

lemma TMP_guard_other [simp]:
  "TMP_guard L h (Get c kd n)" "TMP_guard L h (Eventf kd n t r m)" "TMP_guard L h (ProfilesGet rg nm)" "TMP_guard L h (MetricSet m ls)"
  "TMP_guard L h (MetricDeletePartial m a b)"
  by (simp_all add: TMP_guard_def)

lemma decProfile_error: "decProfile a = Inl e \<Longrightarrow> responseCode e = Some c \<Longrightarrow> a = RErr e"
  by (auto simp: decProfile_def decodeErr_def split: response.splits)

lemma reportedProfile_idem: "reportedProfile (reportedProfile p (Some a)\<lparr>tmp_Conditions := cs\<rparr>) (Some a) = reportedProfile p (Some a)\<lparr>tmp_Conditions := cs\<rparr>"
  by (simp add: reportedProfile_def)

lemma reportsAzure_programmed:
  assumes "(q, RProfile a) \<in> set h" and "q = ProfilesGet rg nm \<or> q = ProfilesCreateOrUpdate rg nm d"
  shows "reportsAzure h (reportedProfile p (Some a)\<lparr>tmp_Conditions := cs\<rparr>) (programmedCondition (reportedProfile p (Some a)) None)"
proof -
  have "\<exists>q a'. (q, RProfile a') \<in> set h \<and> reportedProfile p (Some a)\<lparr>tmp_Conditions := cs\<rparr> = reportedProfile (reportedProfile p (Some a)\<lparr>tmp_Conditions := cs\<rparr>) (Some a') \<and>
      (\<exists>rg nm d. q = ProfilesGet rg nm \<or> q = ProfilesCreateOrUpdate rg nm d)"
    using assms reportedProfile_idem by metis
  then show ?thesis unfolding reportsAzure_def programmedCondition_def Let_def by simp
qed

lemma reportsAzure_failed:
  assumes "(q, RErr e) \<in> set h"
  shows "reportsAzure h (reportedProfile p None\<lparr>tmp_Conditions := cs\<rparr>) (programmedCondition (reportedProfile p None) (Some e))"
proof -
  have c: "AzIsClientError e \<and> \<not> AzIsThrottled e" if "AzIsConflict e"
    using that by (simp add: AzIsConflict_def AzIsClientError_def AzIsThrottled_def)
  have n: "tmp_DNSName (reportedProfile p None\<lparr>tmp_Conditions := cs\<rparr>) = None" by (simp add: reportedProfile_def)
  show ?thesis
    unfolding reportsAzure_def programmedCondition_def Let_def n option.case
    using assms c by (cases "AzIsConflict e"; cases "AzIsClientError e \<and> \<not> AzIsThrottled e") auto
qed

lemma TMP_status_wp:
  assumes "case out of Inl e \<Rightarrow> \<exists>q. (q, RErr e) \<in> set h
    | Inr a \<Rightarrow> \<exists>q rg nm d. (q, RProfile a) \<in> set h \<and> (q = ProfilesGet rg nm \<or> q = ProfilesCreateOrUpdate rg nm d)"
  shows "wp (TMP_guard L) (\<lambda>_ _. True) (TMP_updateProfileStatus L p out) h"
proof -
  let ?e = "case out of Inl e \<Rightarrow> Some e | Inr _ \<Rightarrow> None"
  let ?p = "reportedProfile p (case out of Inl _ \<Rightarrow> None | Inr a \<Rightarrow> Some a)"
  have "reportsAzure h (?p\<lparr>tmp_Conditions := cs\<rparr>) (programmedCondition ?p ?e)" for cs
    using assms reportsAzure_programmed reportsAzure_failed by (auto split: sum.splits)
  then have "TMP_guard L h (StatusUpdate Hub (OTMP (?p\<lparr>tmp_Conditions := LibSetStatusCondition L (tmp_Conditions ?p) (programmedCondition ?p ?e)\<rparr>)))"
    unfolding TMP_guard_def by fastforce
  then show ?thesis by (auto simp: TMP_updateProfileStatus_def Let_def prog_simps decUpd_def split: sum.splits)
qed

lemma TMP_createOrUpdate_wp:
  assumes "recorded hasTMPFinalizer h" and "answered (OTMP p0) h" and "desiredOf p0 = Some d" and "manages req d"
    and "answered (OTMP p1) h" and "tmp_ResourceGroup p = tmp_ResourceGroup p1"
  shows "wp (TMP_guard L) (\<lambda>_ _. True) (TMP_createOrUpdate L (GenerateAzureTrafficManagerProfileName p0) req p) h"
proof -
  let ?q = "ProfilesCreateOrUpdate (tmp_ResourceGroup p) (GenerateAzureTrafficManagerProfileName p0) req"
  have g: "TMP_guard L h ?q" using assms by (auto simp: TMP_guard_def)
  have ok: "wp (TMP_guard L) (\<lambda>_ _. True) (TMP_updateProfileStatus L p (Inr a)) (h @ [(?q, RProfile a), x])" for a x
    by (rule TMP_status_wp) (auto intro!: exI [of _ ?q])
  have er: "wp (TMP_guard L) (\<lambda>_ _. True) (TMP_updateProfileStatus L p (Inl e)) (h @ [(?q, a), x])" if "decProfile a = Inl e" "responseCode e = Some c" for a e c x
    by (rule TMP_status_wp) (use decProfile_error [OF that] in auto)
  show ?thesis
    by (auto simp: TMP_createOrUpdate_def prog_simps g split: sum.splits intro!: ok er)
qed

lemma TMP_register_wp:
  assumes "finalizer_laws L" and "answered (OTMP p0) h" and "desiredOf p0 = Some d" and "manages req d"
    and "p = SetDefaultsTrafficManagerProfile p0" and "LibContainsFinalizer L (tmp_ObjectMeta p0) TrafficManagerProfileFinalizer \<Longrightarrow> recorded hasTMPFinalizer h"
  shows "wp (TMP_guard L) (\<lambda>_ _. True) (TMP_register L (GenerateAzureTrafficManagerProfileName p0) req p) h"
proof -
  let ?add = "p\<lparr>tmp_ObjectMeta := LibAddFinalizer L (tmp_ObjectMeta p) TrafficManagerProfileFinalizer\<rparr>"
  have p: "tmp_ObjectMeta p = tmp_ObjectMeta p0" "tmp_ResourceGroup p = tmp_ResourceGroup p0" by (simp_all add: assms(5) SetDefaultsTrafficManagerProfile_def)
  have add: "TMP_guard L h (Update Hub (OTMP ?add))"
    using assms(2) tmpf.added [OF assms(1), of p] unfolding TMP_guard_def by auto
  have go: "wp (TMP_guard L) (\<lambda>_ _. True) (TMP_createOrUpdate L (GenerateAzureTrafficManagerProfileName p0) req p1) (h @ [(Update Hub (OTMP ?add), RObj (OTMP p1))])" for p1
    by (rule TMP_createOrUpdate_wp [OF recorded_shown [OF tmpf.shown_added [OF assms(1), of _ p p1]] answered_mono [OF assms(2)] assms(3,4) answered_last refl]) simp
  have go': "wp (TMP_guard L) (\<lambda>_ _. True) (TMP_createOrUpdate L (GenerateAzureTrafficManagerProfileName p0) req p) h"
    if "LibContainsFinalizer L (tmp_ObjectMeta p) TrafficManagerProfileFinalizer"
    by (rule TMP_createOrUpdate_wp [OF assms(6) assms(2,3,4,2) p(2)]) (use that p in simp)
  show ?thesis
    by (auto simp: TMP_register_def prog_simps add decUpd_def split: sum.splits intro!: go go')
qed

lemma SetDefaults_fields [simp]:
  "tmp_ObjectMeta (SetDefaultsTrafficManagerProfile p) = tmp_ObjectMeta p" "tmp_ResourceGroup (SetDefaultsTrafficManagerProfile p) = tmp_ResourceGroup p"
  "GenerateAzureTrafficManagerProfileName (SetDefaultsTrafficManagerProfile p) = GenerateAzureTrafficManagerProfileName p"
  by (simp_all add: SetDefaultsTrafficManagerProfile_def GenerateAzureTrafficManagerProfileName_def)

lemma TMP_program_wp:
  assumes "finalizer_laws L" and "sort_laws L" and "answered (OTMP p) h"
    and "LibContainsFinalizer L (tmp_ObjectMeta p) TrafficManagerProfileFinalizer \<Longrightarrow> recorded hasTMPFinalizer h"
  shows "wp (TMP_guard L) (\<lambda>_ _. True) (TMP_program L p) h"
proof -
  obtain d where d: "desiredOf p = Some d" using desiredOf_monitor by blast
  let ?get = "ProfilesGet (tmp_ResourceGroup p) (GenerateAzureTrafficManagerProfileName p)"
  let ?p = "SetDefaultsTrafficManagerProfile p"
  have shape: "manages d d" by (rule desiredOf_shape [OF d], rule manages_refl) auto
  have em: "wp (TMP_guard L) (\<lambda>_ _. True) (bindP (emitTrafficManagerProfileStatusMetric L x) (\<lambda>_. Ret out)) h'" for x out h'
    by (auto simp: emitTrafficManagerProfileStatusMetric_def prog_simps Let_def split: option.splits)
  have reg: "wp (TMP_guard L) (\<lambda>_ _. True) (TMP_register L (GenerateAzureTrafficManagerProfileName p) req ?p) (h @ k)" if "manages req d" for req k
    by (rule TMP_register_wp [OF assms(1) answered_mono [OF assms(3)] d that refl]) (use assms(4) in simp)
  have st: "wp (TMP_guard L) (\<lambda>_ _. True) (TMP_updateProfileStatus L ?p (Inr a)) (h @ [(?get, RProfile a)])" for a
    by (rule TMP_status_wp) (auto intro!: exI [of _ ?get])
  have fb: "wp (TMP_guard L) (\<lambda>_ _. True) (TMP_updateProfileStatus L ?p (Inl e)) (h @ [(?get, a), x])" if "decProfile a = Inl e" "AzIsForbidden e" for a e x
    by (rule TMP_status_wp) (use that decProfile_error [of a e 403] in \<open>auto simp: AzIsForbidden_def\<close>)
  have "wp (TMP_guard L) (\<lambda>_ _. True) (TMP_handleUpdate L ?p) h"
    using d equal_desired [OF assms(2) d] unfolding TMP_handleUpdate_def desiredOf_def
    by (auto simp: Let_def prog_simps split: sum.splits option.splits prod.splits intro!: reg shape st fb)
  then show ?thesis unfolding TMP_program_def by (rule wp_bindI) (auto intro!: em split: prod.splits)
qed

lemma TMP_finalizers_differ [simp]: "MetricsFinalizer \<noteq> TrafficManagerProfileFinalizer" "TrafficManagerProfileFinalizer \<noteq> MetricsFinalizer"
  by (simp_all add: MetricsFinalizer_def TrafficManagerProfileFinalizer_def)

lemma TMP_finish_wp:
  assumes "answered (OTMP p0) h"
    and "hasTMPFinalizer (OTMP p0) \<longrightarrow> hasTMPFinalizer (OTMP p) \<or> azureGone p h \<and> om_DeletionTimestamp (tmp_ObjectMeta p0) \<noteq> None"
  shows "wp (TMP_guard L) (\<lambda>_ _. True) (TMP_finish L b p) h"
proof -
  have "TMP_guard L h (Update Hub (OTMP p))" using assms by (auto simp: TMP_guard_def)
  then show ?thesis by (auto simp: TMP_finish_def prog_simps decUpd_def split: sum.splits)
qed

lemma TMP_deleteAzure_wp:
  assumes "finalizer_laws L" and "answered (OTMP p0) h" and "om_DeletionTimestamp (tmp_ObjectMeta p0) \<noteq> None"
    and "hasTMPFinalizer (OTMP p) = hasTMPFinalizer (OTMP p0)" and "tmp_ResourceGroup p = tmp_ResourceGroup p0"
    and "GenerateAzureTrafficManagerProfileName p = GenerateAzureTrafficManagerProfileName p0"
  shows "wp (TMP_guard L) (\<lambda>_ _. True) (TMP_deleteAzure L b p) h"
proof -
  let ?q = "ProfilesDelete (tmp_ResourceGroup p) (GenerateAzureTrafficManagerProfileName p)"
  let ?rem = "p\<lparr>tmp_ObjectMeta := LibRemoveFinalizer L (tmp_ObjectMeta p) TrafficManagerProfileFinalizer\<rparr>"
  have del: "TMP_guard L h ?q" if "LibContainsFinalizer L (tmp_ObjectMeta p) TrafficManagerProfileFinalizer"
    using assms(2-6) that tmpf.contained [OF assms(1), of p] by (auto simp: TMP_guard_def)
  have fin: "wp (TMP_guard L) (\<lambda>_ _. True) (TMP_finish L True ?rem) (h @ [(?q, a), x])"
    if "case decOk a of None \<Rightarrow> True | Some e \<Rightarrow> AzIsNotFound e" for a x
  proof (rule TMP_finish_wp [OF answered_mono [OF assms(2)]], intro impI disjI2 conjI assms(3))
    show "azureGone ?rem (h @ [(?q, a), x])"
      using that by (auto simp: azureGone_def GenerateAzureTrafficManagerProfileName_def finalizer_laws_fields [OF assms(1)])
  qed
  have none: "wp (TMP_guard L) (\<lambda>_ _. True) (TMP_finish L b p) h"
    by (rule TMP_finish_wp [OF assms(2)]) (use assms(4) in simp)
  show ?thesis
    by (auto simp: TMP_deleteAzure_def Let_def prog_simps del split: option.splits intro!: fin none)
qed

lemma TMP_Reconcile_wp:
  assumes "finalizer_laws L" and "sort_laws L"
  shows "wp (TMP_guard L) (\<lambda>_ _. True) (TMP_Reconcile L n) []"
proof -
  let ?get = "\<lambda>p. (Get Hub KTrafficManagerProfile n, RObj (OTMP p))"
  let ?rem = "\<lambda>p. p\<lparr>tmp_ObjectMeta := LibRemoveFinalizer L (tmp_ObjectMeta p) MetricsFinalizer\<rparr>"
  let ?add = "\<lambda>p. p\<lparr>tmp_ObjectMeta := LibAddFinalizer L (tmp_ObjectMeta p) MetricsFinalizer\<rparr>"
  have keep: "hasTMPFinalizer (OTMP (?rem p)) = hasTMPFinalizer (OTMP p)" "hasTMPFinalizer (OTMP (?add p)) = hasTMPFinalizer (OTMP p)"
    "GenerateAzureTrafficManagerProfileName (?rem p) = GenerateAzureTrafficManagerProfileName p" for p
    by (simp_all add: hasTMPFinalizer_def finalizer_lawsD [OF assms(1)] GenerateAzureTrafficManagerProfileName_def finalizer_laws_fields [OF assms(1)])
  have del: "wp (TMP_guard L) (\<lambda>_ _. True) (TMP_handleDelete L p) [?get p]" if "om_DeletionTimestamp (tmp_ObjectMeta p) = Some t" for p t
    unfolding TMP_handleDelete_def
    by (auto simp: prog_simps intro!: TMP_deleteAzure_wp [OF assms(1), where ?p0.0 = p] simp: keep that answered_def)
  have add: "TMP_guard L [?get p] (Update Hub (OTMP (?add p)))" for p
    using keep(2) [of p] by (auto simp: TMP_guard_def answered_def)
  have go: "wp (TMP_guard L) (\<lambda>_ _. True) (TMP_program L p1) [?get p, (Update Hub (OTMP (?add p)), RObj (OTMP p1))]" for p p1
  proof (rule TMP_program_wp [OF assms])
    assume "LibContainsFinalizer L (tmp_ObjectMeta p1) TrafficManagerProfileFinalizer"
    then show "recorded hasTMPFinalizer [?get p, (Update Hub (OTMP (?add p)), RObj (OTMP p1))]"
      by (intro recorded_answered [of _ "OTMP p1" "Update Hub (OTMP (?add p))"]) (auto simp: tmpf.contained [OF assms(1)])
  qed (auto simp: answered_def)
  have go': "wp (TMP_guard L) (\<lambda>_ _. True) (TMP_program L p) [?get p]" for p
    by (rule TMP_program_wp [OF assms _ recorded_shown [OF tmpf.shown_read [OF assms(1), of p _ n]]]) (auto simp: answered_def)
  show ?thesis
    by (auto simp: TMP_Reconcile_def prog_simps decUpd_def add split: sum.splits option.splits intro!: del go go')
qed

section \<open>Properties\<close>



text \<open>C20. The controller settles: when Azure stores the request that a pass builds from the current profile,
  whatever other values it adds and in whatever order it keeps the headers, the next pass over the same
  TrafficManagerProfile finds nothing to change and goes on to report the status.\<close>

theorem TMP_settles:
  assumes "sort_laws L" and "admitted p" and "desiredOf p = Some d"
    and "om_DeletionTimestamp (tmp_ObjectMeta p) = None" and "LibContainsFinalizer L (tmp_ObjectMeta p) MetricsFinalizer"
    and "equalAzureTrafficManagerProfile L current d = Some (False, d1)"
    and "manages stored (buildAzureTrafficManagerProfileRequest current d1)"
  shows "\<exists>s. nextCall (snd (play [RObj (OTMP p), RProfile stored] (TMP_Reconcile L n))) = Some (StatusUpdate Hub (OTMP s))"
proof -
  have "manages stored d"
  proof (rule manages_trans [OF assms(7) equal_desired [OF assms(1,3,6)]])
    show "\<forall>k \<in> set (mkeys (ap_Tags d)). mget (ap_Tags d) k \<noteq> None"
      by (rule desiredOf_shape [OF assms(3)]) (simp add: mkeys_def)
  qed
  from equal_if_manages [OF assms(1-3) this] obtain d' where "equalAzureTrafficManagerProfile L stored d = Some (True, d')" by blast
  with assms(3-5) show ?thesis
    by (simp add: TMP_Reconcile_def TMP_program_def TMP_handleUpdate_def desiredOf_def TMP_updateProfileStatus_def Let_def prog_simps
        decTMP_def decProfile_def nextCall_def)
qed

theorem TMP_settles_witness:
  "\<exists>d d1 s. desiredOf demoProfile = Some d \<and> equalAzureTrafficManagerProfile refLib demoAzure d = Some (False, d1) \<and>
     nextCall (snd (play [RObj (OTMP demoProfile), RProfile (demoStored (buildAzureTrafficManagerProfileRequest demoAzure d1))]
       (TMP_Reconcile refLib (metaKey (tmp_ObjectMeta demoProfile))))) = Some (StatusUpdate Hub (OTMP s))"
proof -
  obtain d where d: "desiredOf demoProfile = Some d" using desiredOf_monitor by blast
  have e: "equalAzureTrafficManagerProfile refLib demoAzure d = Some (False, d)"
    by (simp add: equalAzureTrafficManagerProfile_def hasRequiredProperties_def demoAzure_def)
  obtain r m f v where s: "ap_Properties d = Some r" "app_MonitorConfig r = Some m" "app_DNSConfig r = Some f"
    "ap_Tags d = Some [(AzureTrafficManagerProfileTagKey, Some v)]"
    by (rule desiredOf_shape [OF d]) blast
  have "manages (demoStored (buildAzureTrafficManagerProfileRequest demoAzure d)) (buildAzureTrafficManagerProfileRequest demoAzure d)"
    using s by (simp add: manages_def sameMonitor_def demoStored_def buildAzureTrafficManagerProfileRequest_def demoAzure_def)
  moreover have "admitted demoProfile" by (simp add: admitted_def admittedConfig_def demoProfile_def zeroMonitorConfig_def)
  moreover have "om_DeletionTimestamp (tmp_ObjectMeta demoProfile) = None" "LibContainsFinalizer refLib (tmp_ObjectMeta demoProfile) MetricsFinalizer"
    by (simp_all add: demoProfile_def metaOf_def zeroMeta_def refLib_def)
  ultimately show ?thesis using TMP_settles [OF refLib_sort_laws _ d] d e by blast
qed

text \<open>C35. The only panics: a pass panics only over a TrafficManagerProfile that the validation rules of the
  resource definition do not admit, or when Azure answers with two or more custom headers of which one has
  no name.\<close>

theorem TMP_panics_only:
  assumes "steps (TMP_Reconcile L n) tr (Panic m)"
  shows "panicCause tr"
proof -
  have g: "wpan panicCause (\<lambda>_ _. True) (TMP_program L p1) [x, (q, RObj (OTMP p1))]" for p1 x q
    by (rule TMP_program_wpan) (auto simp: answered_def)
  have g': "wpan panicCause (\<lambda>_ _. True) (TMP_program L p1) [(q, RObj (OTMP p1))]" for p1 q
    by (rule TMP_program_wpan) (auto simp: answered_def)
  have "wpan panicCause (\<lambda>_ _. True) (TMP_Reconcile L n) []"
    by (auto simp: TMP_Reconcile_def prog_simps decUpd_def split: sum.splits option.splits intro!: wpan_nopanicI g g')
  from wpan_panic [OF assms refl this] show ?thesis by simp
qed

theorem TMP_panics_only_witness:
  "isPanic (snd (play demoPanicAnswers (TMP_Reconcile refLib (metaKey (tmp_ObjectMeta demoProfile))))) \<and>
   panicCause (fst (play demoPanicAnswers (TMP_Reconcile refLib (metaKey (tmp_ObjectMeta demoProfile)))))"
proof -
  let ?p = "TMP_Reconcile refLib (metaKey (tmp_ObjectMeta demoProfile))"
  have st: "steps ?p (fst (play demoPanicAnswers ?p)) (snd (play demoPanicAnswers ?p))" by (rule play_trace_steps) simp
  have p: "isPanic (snd (play demoPanicAnswers ?p))" by code_simp
  then obtain m where "snd (play demoPanicAnswers ?p) = Panic m" by (auto simp: isPanic_def split: prog.splits)
  with TMP_panics_only [of refLib "metaKey (tmp_ObjectMeta demoProfile)" _ m] st p show ?thesis by simp
qed

text \<open>C21. What Azure is asked for is well typed: for every TrafficManagerProfile that is admitted the desired
  Azure profile exists and has a complete monitor configuration, whose interval is 10 or 30 seconds, whose
  timeout is between 5 and 10 seconds and below the interval, which tolerates 0 to 9 failures, and which has
  at most eight headers with distinct names.\<close>

theorem TMP_desired_well_typed:
  assumes "admitted p"
  shows "\<exists>d m. desiredOf p = Some d \<and> monitorOf d = Some m \<and> wellTyped m"
  using desiredOf_monitor [of p] desiredOf_wellTyped [OF assms] by metis

theorem TMP_desired_well_typed_witness:
  "\<exists>d m. desiredOf demoProfile = Some d \<and> monitorOf d = Some m \<and> wellTyped m \<and> amc_TimeoutInSeconds m = Some 9"
proof -
  have "admitted demoProfile" by (simp add: admitted_def admittedConfig_def demoProfile_def zeroMonitorConfig_def)
  from TMP_desired_well_typed [OF this] obtain d m where d: "desiredOf demoProfile = Some d" "monitorOf d = Some m" "wellTyped m" by blast
  have "amc_TimeoutInSeconds m = Some 9"
    using d(1,2) by (rule_tac desiredOf_monitor [of demoProfile]) (auto simp: desiredMonitor_def demoProfile_def zeroMonitorConfig_def)
  with d show ?thesis by blast
qed

end
