(* ===== verification/Float64.thy ===== *)
theory Float64
  imports Complex_Main "HOL-Library.Log_Nat"
begin

text \<open>
  The \<open>float64\<close> arithmetic of Go on numbers that come from 64-bit integers: an operation gives the exact
  result rounded to 53 significant bits, to the nearest and on a tie to the even one. The numbers are so
  far from the ends of the range of exponents that neither overflow nor denormal numbers occur, so a
  value that is not an infinity or a NaN is its rational number.
\<close>

definition roundHalfEven :: "rat \<Rightarrow> int" where
  "roundHalfEven x =
     (let f = \<lfloor>x\<rfloor>; d = x - of_int f in
      if d < 1 / 2 then f else if 1 / 2 < d then f + 1 else if even f then f else f + 1)"

text \<open>The exponent of a positive rational number: \<open>2 powi e \<le> x < 2 powi (e + 1)\<close>.\<close>

definition exponentOf :: "rat \<Rightarrow> int" where
  "exponentOf x =
     (let (p, q) = quotient_of x; k = int (floorlog 2 (nat p)) - int (floorlog 2 (nat q)) in
      if 2 powi k \<le> x then k else k - 1)"

definition roundFloat :: "rat \<Rightarrow> rat" where
  "roundFloat x =
     (if x = 0 then 0
      else let u = 2 powi (exponentOf \<bar>x\<bar> - 52) in sgn x * of_int (roundHalfEven (\<bar>x\<bar> / u)) * u)"

text \<open>
  \<open>int64(math.Ceil(float64(p) / float64(q)))\<close>. A quotient by zero is an infinity or a NaN; the result of its
  conversion, and of one that is out of range, depends on the implementation and is the parameter.
\<close>

definition ceilQuotient :: "int \<Rightarrow> int \<Rightarrow> int \<Rightarrow> int" where
  "ceilQuotient indefinite p q =
     (if q = 0 then indefinite
      else let c = \<lceil>roundFloat (roundFloat (of_int p) / roundFloat (of_int q))\<rceil> in
           if - (2 ^ 63) \<le> c \<and> c < 2 ^ 63 then c else indefinite)"

section \<open>Lemmas\<close>

lemma roundHalfEven_error: "\<bar>of_int (roundHalfEven x) - x\<bar> \<le> 1 / 2"
proof -
  have "0 \<le> x - of_int \<lfloor>x\<rfloor>" "x - of_int \<lfloor>x\<rfloor> < 1" by linarith+
  then show ?thesis by (auto simp: roundHalfEven_def Let_def)
qed

lemma roundHalfEven_of_int [simp]: "roundHalfEven (of_int n) = n"
  by (simp add: roundHalfEven_def)

lemma quotient_of_pos:
  assumes "0 < x" and "quotient_of x = (p, q)"
  shows "0 < p" and "0 < q" and "x = of_int p / of_int q"
proof -
  show q: "0 < q" using quotient_of_denom_pos [OF assms(2)] .
  show x: "x = of_int p / of_int q" using quotient_of_div [OF assms(2)] .
  show "0 < p" using assms(1) q by (simp add: x zero_less_divide_iff)
qed

lemma floorlog_rat:
  assumes "0 < p"
  shows "2 powi (int (floorlog 2 (nat p)) - 1) \<le> (of_int p :: rat)" and "(of_int p :: rat) < 2 powi (int (floorlog 2 (nat p)))"
proof -
  define k where "k = floorlog 2 (nat p)"
  have np: "0 < nat p" using assms by simp
  have b: "2 ^ (k - 1) \<le> nat p" "nat p < 2 ^ k"
    using floorlog_bounds [OF np, of 2] by (simp_all add: k_def)
  have k: "0 < k"
  proof (rule ccontr)
    assume "\<not> 0 < k"
    with b(2) np show False by simp
  qed
  have "int (2 ^ (k - 1)) \<le> p" using b(1) np by linarith
  moreover have "p < int (2 ^ k)" using b(2) np by linarith
  ultimately have "(of_int (2 ^ (k - 1)) :: rat) \<le> of_int p" "(of_int p :: rat) < of_int (2 ^ k)"
    by (simp_all only: of_int_le_iff of_int_less_iff of_nat_power of_nat_numeral)
  moreover have "int k - 1 = int (k - 1)" using k by simp
  ultimately have "2 powi (int k - 1) \<le> (of_int p :: rat)" "(of_int p :: rat) < 2 powi (int k)"
    by (simp_all only: power_int_of_nat of_int_power of_int_numeral)
  then show "2 powi (int (floorlog 2 (nat p)) - 1) \<le> (of_int p :: rat)" "(of_int p :: rat) < 2 powi (int (floorlog 2 (nat p)))"
    by (simp_all only: k_def)
qed

lemma exponentOf_bounds:
  assumes "0 < x"
  shows "2 powi (exponentOf x) \<le> x" and "x < 2 powi (exponentOf x + 1)"
proof -
  obtain p q where pq: "quotient_of x = (p, q)" by (cases "quotient_of x")
  note pos = quotient_of_pos [OF assms pq]
  define a where "a = int (floorlog 2 (nat p))"
  define b where "b = int (floorlog 2 (nat q))"
  have lp: "2 powi (a - 1) \<le> (of_int p :: rat)" "(of_int p :: rat) < 2 powi a" using floorlog_rat [OF pos(1)] by (simp_all add: a_def)
  have lq: "2 powi (b - 1) \<le> (of_int q :: rat)" "(of_int q :: rat) < 2 powi b" using floorlog_rat [OF pos(2)] by (simp_all add: b_def)
  have q0: "(0 :: rat) < of_int q" using pos(2) by simp
  have up: "x < 2 powi (a - b + 1)"
  proof -
    have "x < 2 powi a / of_int q" using lp(2) q0 by (simp add: pos(3) divide_strict_right_mono)
    also have "\<dots> \<le> 2 powi a / 2 powi (b - 1)" using lq(1) q0 by (intro divide_left_mono) simp_all
    also have "\<dots> = 2 powi (a - b + 1)" by (simp add: power_int_diff power_int_add)
    finally show ?thesis .
  qed
  have lo: "2 powi (a - b - 1) \<le> x"
  proof -
    have "2 powi (a - b - 1) = 2 powi (a - 1) / (2 powi b :: rat)" by (simp add: power_int_diff)
    also have "\<dots> \<le> 2 powi (a - 1) / of_int q" using lq(2) q0 by (intro divide_left_mono) simp_all
    also have "\<dots> \<le> x" using lp(1) q0 by (simp add: pos(3) divide_right_mono)
    finally show ?thesis .
  qed
  have "exponentOf x = (if 2 powi (a - b) \<le> x then a - b else a - b - 1)"
    by (simp add: exponentOf_def pq a_def b_def Let_def)
  with up lo show "2 powi (exponentOf x) \<le> x" "x < 2 powi (exponentOf x + 1)" by (auto split: if_splits)
qed

text \<open>The error is at most the part \<open>1 / 2 ^ 53\<close> of the number.\<close>

lemma roundFloat_error:
  assumes "0 < x"
  shows "\<bar>roundFloat x - x\<bar> \<le> x / 2 ^ 53"
proof -
  define u :: rat where "u = 2 powi (exponentOf x - 52)"
  have u: "0 < u" by (simp add: u_def)
  have "roundFloat x = of_int (roundHalfEven (x / u)) * u" using assms by (simp add: roundFloat_def u_def Let_def)
  then have "\<bar>roundFloat x - x\<bar> = \<bar>of_int (roundHalfEven (x / u)) - x / u\<bar> * u"
    using u by (simp add: abs_mult_pos left_diff_distrib)
  also have "\<dots> \<le> 1 / 2 * u" using roundHalfEven_error [of "x / u"] u by (intro mult_right_mono) simp_all
  also have "\<dots> = 2 powi (exponentOf x) / 2 ^ 53" by (simp add: u_def power_int_diff)
  also have "\<dots> \<le> x / 2 ^ 53" using exponentOf_bounds(1) [OF assms] by (simp add: divide_right_mono)
  finally show ?thesis .
qed

text \<open>An integer of at most 53 bits is exact.\<close>

lemma roundFloat_of_int:
  assumes "0 \<le> n" and "n < 2 ^ 53"
  shows "roundFloat (of_int n) = of_int n"
proof (cases "n = 0")
  case False
  with assms(1) have n: "(0 :: rat) < of_int n" by simp
  define e where "e = exponentOf (of_int n) - 52"
  have "e \<le> 0"
  proof (rule ccontr)
    assume "\<not> e \<le> 0"
    then have "(2 :: rat) powi 53 \<le> 2 powi (exponentOf (of_int n))" by (intro power_int_increasing) (simp_all add: e_def)
    also have "\<dots> \<le> of_int n" by (rule exponentOf_bounds(1) [OF n])
    finally have "(of_int (2 ^ 53) :: rat) \<le> of_int n" by simp
    with assms(2) show False by (simp only: of_int_le_iff)
  qed
  then have "(of_int n :: rat) / 2 powi e = of_int (n * 2 ^ nat (- e))" by (simp add: power_int_def field_simps)
  then have "roundHalfEven (of_int n / 2 powi e) = n * 2 ^ nat (- e)" by (simp only: roundHalfEven_of_int)
  moreover have "(of_int (n * 2 ^ nat (- e)) :: rat) * 2 powi e = of_int n" using \<open>e \<le> 0\<close> by (simp add: power_int_def field_simps)
  ultimately show ?thesis using n by (simp add: roundFloat_def e_def [symmetric] Let_def)
qed (simp add: roundFloat_def)

text \<open>The rounded quotient of two integers of at most 53 bits has the ceiling of the exact one.\<close>

lemma ceiling_roundFloat:
  fixes p q :: int
  assumes "0 \<le> p" and "p < 2 ^ 53" and "0 < q"
  shows "\<lceil>roundFloat (of_int p / of_int q)\<rceil> = \<lceil>(of_int p :: rat) / of_int q\<rceil>"
proof (cases "q dvd p")
  case True
  then obtain n where n: "p = q * n" by blast
  have "0 \<le> n" using assms(1,3) by (simp add: n zero_le_mult_iff)
  moreover from this have "n \<le> p" using assms(3) mult_right_mono [of 1 q n] by (simp add: n)
  moreover have "(of_int p :: rat) / of_int q = of_int n" using assms(3) by (simp add: n)
  ultimately show ?thesis using assms(2) by (simp add: roundFloat_of_int)
next
  case False
  define x :: rat where "x = of_int p / of_int q"
  have q: "(0 :: rat) < of_int q" using assms(3) by simp
  have "p \<noteq> 0" using False by auto
  with assms have x: "0 < x" by (simp add: x_def)
  have "x / 2 ^ 53 < 1 / of_int q"
  proof -
    have "(of_int p :: rat) < of_int (2 ^ 53)" using assms(2) by (simp only: of_int_less_iff)
    then show ?thesis using q by (simp add: x_def field_simps)
  qed
  with roundFloat_error [OF x] have err: "\<bar>roundFloat x - x\<bar> < 1 / of_int q" by linarith
  define n where "n = p div q"
  have pq: "p = q * n + p mod q" by (simp add: n_def)
  have m: "1 \<le> p mod q" "p mod q \<le> q - 1"
  proof -
    have "p mod q \<noteq> 0" using False by (simp add: dvd_eq_mod_eq_0)
    then show "1 \<le> p mod q" "p mod q \<le> q - 1" using pos_mod_bound [OF assms(3), of p] pos_mod_sign [OF assms(3), of p] by linarith+
  qed
  have xe: "x = of_int n + of_int (p mod q) / of_int q"
    unfolding x_def by (subst pq) (use q in \<open>simp add: field_simps\<close>)
  have lo: "of_int n + 1 / of_int q \<le> x" unfolding xe using m(1) q by (simp add: divide_right_mono)
  have hi: "x \<le> of_int (n + 1) - 1 / of_int q"
  proof -
    have "(of_int (p mod q) :: rat) \<le> of_int q - 1" using m(2) by (metis of_int_1 of_int_diff of_int_le_iff)
    then have "(of_int (p mod q) :: rat) / of_int q \<le> 1 - 1 / of_int q" using q by (simp add: field_simps)
    then show ?thesis unfolding xe by simp
  qed
  have "\<lceil>roundFloat x\<rceil> = n + 1" 
  proof (rule ceiling_unique)
    show "of_int (n + 1) - 1 < roundFloat x" using err lo by (simp add: abs_less_iff)
    show "roundFloat x \<le> of_int (n + 1)" using err hi by (simp add: abs_less_iff)
  qed
  moreover have "\<lceil>x\<rceil> = n + 1"
  proof (rule ceiling_unique)
    define i :: rat where "i = 1 / of_int q"
    have i: "0 < i" using q by (simp add: i_def)
    show "of_int (n + 1) - 1 < x" using lo i by (simp add: i_def [symmetric])
    show "x \<le> of_int (n + 1)" using hi i by (simp add: i_def [symmetric])
  qed
  ultimately show ?thesis by (simp add: x_def)
qed

lemma ceilQuotient_exact:
  assumes "0 \<le> p" and "p < 2 ^ 53" and "0 < q" and "q < 2 ^ 53"
  shows "ceilQuotient indefinite p q = \<lceil>(of_int p :: rat) / of_int q\<rceil>"
proof -
  have "(0 :: rat) \<le> of_int p / of_int q" using assms(1,3) by simp
  then have lo: "0 \<le> \<lceil>(of_int p :: rat) / of_int q\<rceil>" by (metis ceiling_mono ceiling_zero)
  have "(of_int p :: rat) / of_int q \<le> of_int p" using assms(1,3) by (simp add: divide_le_eq mult_le_cancel_left1)
  then have "\<lceil>(of_int p :: rat) / of_int q\<rceil> \<le> p" by (simp add: ceiling_le_iff)
  then have hi: "\<lceil>(of_int p :: rat) / of_int q\<rceil> < 2 ^ 63" by (rule order_le_less_trans) (use assms(2) in simp)
  have "roundFloat (of_int p) = of_int p" "roundFloat (of_int q) = of_int q" using assms by (simp_all add: roundFloat_of_int)
  with assms(3) lo hi ceiling_roundFloat [OF assms(1-3)] show ?thesis by (simp add: ceilQuotient_def Let_def)
qed

text \<open>The same for evaluation: in the exact range no rounding is computed.\<close>

lemma ceilQuotient_code [code]:
  "ceilQuotient indefinite p q =
     (if 0 \<le> p \<and> p < 2 ^ 53 \<and> 0 < q \<and> q < 2 ^ 53 then - (- p div q)
      else if q = 0 then indefinite
      else let c = \<lceil>roundFloat (roundFloat (of_int p) / roundFloat (of_int q))\<rceil> in
           if - (2 ^ 63) \<le> c \<and> c < 2 ^ 63 then c else indefinite)"
proof (cases "0 \<le> p \<and> p < 2 ^ 53 \<and> 0 < q \<and> q < 2 ^ 53")
  case True
  then show ?thesis using ceilQuotient_exact [of p q indefinite] by (simp add: ceiling_divide_eq_div)
qed (simp only: ceilQuotient_def if_False)

end
