(* ===== verification/TrafficManagerEndpoints.thy ===== *)
theory TrafficManagerEndpoints
  imports Client Float64
begin

text \<open>
  The endpoints that a TrafficManagerBackend asks for (\<open>pkg/controllers/hub/trafficmanagerbackend/controller.go\<close>):
  their names, which exported services can be endpoints, how the weight of the backend is divided among
  them, and when an endpoint of Azure is the desired one.
\<close>

section \<open>The model\<close>

definition AzureResourceEndpointNamePrefix :: "string \<Rightarrow> string" where
  "AzureResourceEndpointNamePrefix uid = ''fleet-'' @ uid @ ''#''"

definition AzureResourceEndpointNameFormat :: "string \<Rightarrow> string \<Rightarrow> string \<Rightarrow> string" where
  "AzureResourceEndpointNameFormat prefix serviceImport clusterName = prefix @ serviceImport @ ''#'' @ clusterName"

definition generateAzureTrafficManagerEndpointNamePrefix :: "TrafficManagerBackend \<Rightarrow> string" where
  "generateAzureTrafficManagerEndpointNamePrefix b = AzureResourceEndpointNamePrefix (om_UID (tmb_ObjectMeta b))"

definition isEndpointOwnedByBackend :: "TrafficManagerBackend \<Rightarrow> string \<Rightarrow> bool" where
  "isEndpointOwnedByBackend b endpoint = HasPrefix endpoint (generateAzureTrafficManagerEndpointNamePrefix b)"

record desiredEndpoint =
  de_Endpoint :: AzureEndpoint
  de_FromCluster :: FromCluster

definition isValidTrafficManagerEndpoint :: "InternalServiceExport \<Rightarrow> err option" where
  "isValidTrafficManagerEndpoint export =
     (let spec = ise_Spec export in
      if ises_Type spec \<noteq> ''LoadBalancer'' then Some (PlainErr (''unsupported service type '' @ goQuote (ises_Type spec)))
      else if ises_IsInternalLoadBalancer spec then Some (PlainErr ''internal load balancer is not supported'')
      else if ises_PublicIPResourceID spec = None then Some (PlainErr ''in the processing of configuring public IP'')
      else if \<not> ises_IsDNSLabelConfigured spec then Some (PlainErr ''DNS label is not configured to the public IP'')
      else None)"

definition azureEndpointType :: string where
  "azureEndpointType = ''Microsoft.Network/trafficManagerProfiles/AzureEndpoints''"

definition endpointNameOf :: "TrafficManagerBackend \<Rightarrow> string \<Rightarrow> string" where
  "endpointNameOf b clusterName = AzureResourceEndpointNameFormat (generateAzureTrafficManagerEndpointNamePrefix b) (tmb_Backend b) clusterName"

definition exportWeight :: "InternalServiceExport \<Rightarrow> int" where
  "exportWeight e = (case ises_Weight (ise_Spec e) of None \<Rightarrow> 1 | Some w \<Rightarrow> w)"

definition generateAzureTrafficManagerEndpoint :: "TrafficManagerBackend \<Rightarrow> InternalServiceExport \<Rightarrow> AzureEndpoint" where
  "generateAzureTrafficManagerEndpoint b e =
     \<lparr>ae_ID = None, ae_Name = Some (endpointNameOf b (eor_ClusterID (ises_ServiceReference (ise_Spec e)))), ae_Type = Some azureEndpointType,
      ae_Properties = Some \<lparr>aep_Target = None, aep_TargetResourceID = ises_PublicIPResourceID (ise_Spec e), aep_EndpointStatus = Some ''Enabled'',
        aep_Weight = Some (exportWeight e), aep_Priority = None\<rparr>\<rparr>"

text \<open>The exports by cluster; a later one replaces an earlier one of the same cluster.\<close>

definition internalServiceExportMap :: "InternalServiceExport list \<Rightarrow> InternalServiceExport gomap" where
  "internalServiceExportMap items = fold (\<lambda>e m. mapPut (eor_ClusterID (ises_ServiceReference (ise_Spec e))) e m) items (Some [])"

text \<open>
  The loop over the clusters of the service import: the desired endpoints by name, the invalid services
  by cluster, and the sum of the weights; or a cluster without export.
\<close>

record collected =
  cl_desired :: "desiredEndpoint gomap"
  cl_invalid :: "err gomap"
  cl_total :: int

definition desiredFor :: "TrafficManagerBackend \<Rightarrow> string \<Rightarrow> InternalServiceExport \<Rightarrow> desiredEndpoint" where
  "desiredFor b clusterName e =
     \<lparr>de_Endpoint = generateAzureTrafficManagerEndpoint b e, de_FromCluster = \<lparr>fc_Cluster = clusterName, fc_Weight = Some (exportWeight e)\<rparr>\<rparr>"

fun TMB_collect :: "TrafficManagerBackend \<Rightarrow> InternalServiceExport gomap \<Rightarrow> ClusterStatus list \<Rightarrow> collected \<Rightarrow> string + collected" where
  "TMB_collect b exports [] st = Inr st"
| "TMB_collect b exports (c # cs) st =
     (case mget exports (cs_Cluster c) of
        None \<Rightarrow> Inl (cs_Cluster c)
      | Some e \<Rightarrow>
          (case isValidTrafficManagerEndpoint e of
             Some er \<Rightarrow> TMB_collect b exports cs (st\<lparr>cl_invalid := mapPut (cs_Cluster c) er (cl_invalid st)\<rparr>)
           | None \<Rightarrow>
               TMB_collect b exports cs (st\<lparr>
                 cl_desired := mapPut (endpointNameOf b (eor_ClusterID (ises_ServiceReference (ise_Spec e)))) (desiredFor b (cs_Cluster c) e) (cl_desired st),
                 cl_total := wrap64 (cl_total st + exportWeight e)\<rparr>)))"

text \<open>
  The weight of an endpoint is its part of the weight of the backend. The code updates the endpoints
  through pointers, in the order of the map, and keeps the weight of the export in the status.
\<close>

definition reweighed :: "int \<Rightarrow> int \<Rightarrow> int \<Rightarrow> desiredEndpoint \<Rightarrow> desiredEndpoint" where
  "reweighed indefinite weight totalWeight d =
     d\<lparr>de_Endpoint := (de_Endpoint d)\<lparr>ae_Properties := map_option (\<lambda>q. q\<lparr>aep_Weight :=
         map_option (\<lambda>w. ceilQuotient indefinite (wrap64 (weight * w)) totalWeight) (aep_Weight q)\<rparr>) (ae_Properties (de_Endpoint d))\<rparr>\<rparr>"

definition TMB_desired :: "int \<Rightarrow> TrafficManagerBackend \<Rightarrow> int \<Rightarrow> InternalServiceExport list \<Rightarrow> ClusterStatus list \<Rightarrow> string + (desiredEndpoint gomap \<times> err gomap)" where
  "TMB_desired indefinite b weight items cs =
     (case TMB_collect b (internalServiceExportMap items) cs \<lparr>cl_desired = Some [], cl_invalid = Some [], cl_total = 0\<rparr> of
        Inl c \<Rightarrow> Inl c
      | Inr st \<Rightarrow> Inr (map_option (map (\<lambda>(k, d). (k, reweighed indefinite weight (cl_total st) d))) (cl_desired st), cl_invalid st))"

text \<open>
  The comparison of an endpoint with the desired one, \<open>None\<close> for the panic on a nil pointer of the desired
  endpoint.
\<close>

definition equalAzureTrafficManagerEndpoint :: "AzureEndpoint \<Rightarrow> AzureEndpoint \<Rightarrow> bool option" where
  "equalAzureTrafficManagerEndpoint current desired =
     (case ae_Type current of
        None \<Rightarrow> Some False
      | Some ct \<Rightarrow>
          (case ae_Type desired of
             None \<Rightarrow> None
           | Some dt \<Rightarrow>
               if \<not> EqualFold ct dt then Some False
               else
                 (case ae_Properties current of
                    None \<Rightarrow> Some False
                  | Some c \<Rightarrow>
                      (case (aep_TargetResourceID c, aep_Weight c, aep_EndpointStatus c) of
                         (Some ci, Some cw, Some cst) \<Rightarrow>
                           (case ae_Properties desired of
                              None \<Rightarrow> None
                            | Some d \<Rightarrow>
                                (case aep_TargetResourceID d of
                                   None \<Rightarrow> None
                                 | Some di \<Rightarrow>
                                     if \<not> EqualFold ci di then Some False
                                     else
                                       (case aep_Weight d of
                                          None \<Rightarrow> None
                                        | Some dw \<Rightarrow>
                                            if cw \<noteq> dw then Some False
                                            else (case aep_EndpointStatus d of None \<Rightarrow> None | Some dst \<Rightarrow> Some (cst = dst)))))
                       | _ \<Rightarrow> Some False))))"

text \<open>The entry of the status, \<open>None\<close> for the panic on an endpoint without name or properties.\<close>

definition buildAcceptedEndpointStatus :: "AzureEndpoint \<Rightarrow> desiredEndpoint \<Rightarrow> TrafficManagerEndpointStatus option" where
  "buildAcceptedEndpointStatus e d =
     (case (ae_Name e, ae_Properties e) of
        (Some nm, Some q) \<Rightarrow> Some \<lparr>tes_Name = ToLower nm, tes_ResourceID = (case ae_ID e of None \<Rightarrow> [] | Some i \<Rightarrow> i),
            tes_Weight = aep_Weight q, tes_Target = aep_Target q, tes_From = Some (de_FromCluster d)\<rparr>
      | _ \<Rightarrow> None)"

section \<open>What is said of the endpoints\<close>

text \<open>The exports that become endpoints, in the order of the clusters.\<close>

definition servedBy :: "InternalServiceExport list \<Rightarrow> ClusterStatus list \<Rightarrow> (string \<times> InternalServiceExport) list" where
  "servedBy items cs = [(cs_Cluster c, e). c \<leftarrow> cs, Some e \<leftarrow> [mget (internalServiceExportMap items) (cs_Cluster c)], isValidTrafficManagerEndpoint e = None]"

text \<open>The part of the weight that the documentation of the resource promises.\<close>

definition share :: "int \<Rightarrow> int list \<Rightarrow> int \<Rightarrow> int" where
  "share weight ws w = \<lceil>(of_int (weight * w) :: rat) / of_int (sum_list ws)\<rceil>"

definition weightIn :: "desiredEndpoint \<Rightarrow> int option" where
  "weightIn d = (case ae_Properties (de_Endpoint d) of None \<Rightarrow> None | Some q \<Rightarrow> aep_Weight q)"

text \<open>The example of the documentation: the weights 100 and 200 behind a backend of weight 500.\<close>

definition demoBackend :: TrafficManagerBackend where
  "demoBackend = \<lparr>tmb_ObjectMeta = (metaOf ''work'' ''be'')\<lparr>om_UID := ''u2''\<rparr>, tmb_Profile = ''app'', tmb_Backend = ''svc'', tmb_Weight = Some 500,
     tmb_Endpoints = [], tmb_Conditions = []\<rparr>"

definition demoEndpointExport :: "string \<Rightarrow> int \<Rightarrow> InternalServiceExport" where
  "demoEndpointExport c w = \<lparr>ise_ObjectMeta = metaOf ''fleet-member'' c, ise_Spec = zeroISESpec\<lparr>ises_ServiceReference := zeroRef\<lparr>eor_ClusterID := c\<rparr>,
     ises_Type := ''LoadBalancer'', ises_IsDNSLabelConfigured := True, ises_PublicIPResourceID := Some ''pip'', ises_Weight := Some w\<rparr>, ise_Conditions = []\<rparr>"

definition demoExports :: "InternalServiceExport list" where
  "demoExports = [demoEndpointExport ''c1'' 100, demoEndpointExport ''c2'' 200]"

definition demoClusters :: "ClusterStatus list" where
  "demoClusters = [\<lparr>cs_Cluster = ''c1''\<rparr>, \<lparr>cs_Cluster = ''c2''\<rparr>]"

section \<open>Lemmas\<close>

lemma fold_mapPut:
  "mget (fold (\<lambda>e m. mapPut (f e) e m) items m) c = Some e \<Longrightarrow> (f e = c \<and> e \<in> set items) \<or> mget m c = Some e"
proof (induction items arbitrary: m)
  case (Cons x items)
  from Cons.IH [of "mapPut (f x) x m"] Cons.prems show ?case by (auto split: if_splits)
qed simp

lemma internalServiceExportMap_key:
  assumes "mget (internalServiceExportMap items) c = Some e"
  shows "eor_ClusterID (ises_ServiceReference (ise_Spec e)) = c" and "e \<in> set items"
  using fold_mapPut [OF assms [unfolded internalServiceExportMap_def]] by simp_all

lemma endpointNameOf_inject [simp]: "endpointNameOf b c = endpointNameOf b d \<longleftrightarrow> c = d"
  by (simp add: endpointNameOf_def AzureResourceEndpointNameFormat_def)

lemma owned_endpointNameOf: "isEndpointOwnedByBackend b (endpointNameOf b c)"
  by (simp add: isEndpointOwnedByBackend_def endpointNameOf_def AzureResourceEndpointNameFormat_def HasPrefix_def)

lemma update_fresh: "k \<notin> fst ` set al \<Longrightarrow> AList.update k v al = al @ [(k, v)]"
  by (induction al) auto

text \<open>What the loop collects, as long as the sum does not overflow.\<close>

lemma TMB_collect_served:
  assumes "TMB_collect b (internalServiceExportMap items) cs st = Inr st'" and "cl_desired st = Some al"
    and "distinct (map cs_Cluster cs)" and "\<forall>c \<in> set cs. endpointNameOf b (cs_Cluster c) \<notin> fst ` set al"
    and "\<forall>(c, e) \<in> set (servedBy items cs). 1 \<le> exportWeight e \<and> exportWeight e \<le> 1000"
    and "0 \<le> cl_total st" and "cl_total st + 1000 * int (length cs) < 2 ^ 63"
  shows "cl_desired st' = Some (al @ map (\<lambda>(c, e). (endpointNameOf b c, desiredFor b c e)) (servedBy items cs)) \<and>
    cl_total st' = cl_total st + sum_list (map (exportWeight \<circ> snd) (servedBy items cs))"
  using assms
proof (induction cs arbitrary: st al)
  case (Cons c cs)
  obtain e where e: "mget (internalServiceExportMap items) (cs_Cluster c) = Some e"
    using Cons.prems(1) by (auto split: option.splits)
  have id: "eor_ClusterID (ises_ServiceReference (ise_Spec e)) = cs_Cluster c" by (rule internalServiceExportMap_key [OF e])
  show ?case
  proof (cases "isValidTrafficManagerEndpoint e")
    case None
    have sv: "servedBy items (c # cs) = (cs_Cluster c, e) # servedBy items cs" by (simp add: servedBy_def e None)
    let ?st = "st\<lparr>cl_desired := mapPut (endpointNameOf b (cs_Cluster c)) (desiredFor b (cs_Cluster c) e) (cl_desired st), cl_total := wrap64 (cl_total st + exportWeight e)\<rparr>"
    have w: "1 \<le> exportWeight e" "exportWeight e \<le> 1000" using Cons.prems(5) by (simp_all add: sv)
    have t: "wrap64 (cl_total st + exportWeight e) = cl_total st + exportWeight e"
      by (rule wrap64_id) (use w Cons.prems(6,7) in simp_all)
    have d: "cl_desired ?st = Some (al @ [(endpointNameOf b (cs_Cluster c), desiredFor b (cs_Cluster c) e)])"
      using Cons.prems(2,4) by (simp add: mapPut_def minit_def update_fresh)
    have "TMB_collect b (internalServiceExportMap items) cs ?st = Inr st'"
      using Cons.prems(1) by (simp add: e None id)
    note step = Cons.IH [OF this d]
    have "\<forall>x \<in> set cs. cs_Cluster x \<noteq> cs_Cluster c" using Cons.prems(3) by simp (metis image_eqI)
    moreover note Cons.prems(3-7) w
    ultimately have "cl_desired st' = Some ((al @ [(endpointNameOf b (cs_Cluster c), desiredFor b (cs_Cluster c) e)]) @
        map (\<lambda>(c, e). (endpointNameOf b c, desiredFor b c e)) (servedBy items cs)) \<and>
      cl_total st' = cl_total ?st + sum_list (map (exportWeight \<circ> snd) (servedBy items cs))"
      by (intro step) (auto simp: sv t)
    then show ?thesis by (simp add: sv t comp_def)
  next
    case (Some er)
    have sv: "servedBy items (c # cs) = servedBy items cs" by (simp add: servedBy_def e Some)
    from Cons.IH [of "st\<lparr>cl_invalid := mapPut (cs_Cluster c) er (cl_invalid st)\<rparr>" al] Cons.prems show ?thesis
      by (simp add: e Some sv)
  qed
qed (simp add: servedBy_def)

lemma length_servedBy: "length (servedBy items cs) \<le> length cs"
proof (induction cs)
  case (Cons c cs)
  then show ?case
    by (cases "mget (internalServiceExportMap items) (cs_Cluster c)"; cases "isValidTrafficManagerEndpoint (the (mget (internalServiceExportMap items) (cs_Cluster c)))")
      (auto simp: servedBy_def)
qed (simp add: servedBy_def)

text \<open>The shares.\<close>

lemma share_bounds:
  assumes "1 \<le> weight" and "w \<in> set ws" and "\<forall>v \<in> set ws. 1 \<le> v"
  shows "1 \<le> share weight ws w" and "share weight ws w \<le> weight"
proof -
  have le: "w \<le> sum_list ws" using assms(2,3) by (intro member_le_sum_list) auto
  have w: "1 \<le> w" using assms(2,3) by blast
  have t: "(0 :: rat) < of_int (sum_list ws)" using le w by simp
  have "(0 :: rat) < of_int (weight * w) / of_int (sum_list ws)" using assms(1) w t by simp
  then show "1 \<le> share weight ws w" unfolding share_def by linarith
  have "(of_int (weight * w) :: rat) \<le> of_int (weight * sum_list ws)" using assms(1) le by (simp only: of_int_le_iff) (simp add: mult_left_mono)
  then have "(of_int (weight * w) :: rat) / of_int (sum_list ws) \<le> of_int weight" using t by (simp add: divide_le_eq)
  then show "share weight ws w \<le> weight" unfolding share_def by (simp add: ceiling_le_iff)
qed

lemma sum_share:
  assumes "ws \<noteq> []" and "\<forall>v \<in> set ws. 1 \<le> v"
  shows "weight \<le> sum_list (map (share weight ws) ws)" and "sum_list (map (share weight ws) ws) < weight + int (length ws)"
proof -
  let ?t = "of_int (sum_list ws) :: rat"
  let ?x = "\<lambda>w. (of_int (weight * w) :: rat) / ?t"
  have "hd ws \<le> sum_list ws" using assms by (intro member_le_sum_list) auto
  moreover have "1 \<le> hd ws" using assms by simp
  ultimately have "0 < sum_list ws" by linarith
  then have t: "0 < ?t" by simp
  have s: "sum_list (map ?x vs) = of_int (weight * sum_list vs) / ?t" for vs
    by (induction vs) (simp_all add: distrib_left add_divide_distrib)
  have lo: "sum_list (map ?x vs) \<le> of_int (sum_list (map (share weight ws) vs))" for vs
    by (induction vs) (auto simp: share_def intro!: add_mono)
  have hi: "vs \<noteq> [] \<Longrightarrow> of_int (sum_list (map (share weight ws) vs)) < sum_list (map ?x vs) + of_nat (length vs)" for vs
  proof (induction vs)
    case (Cons v vs)
    have v: "of_int (share weight ws v) < ?x v + 1" unfolding share_def by linarith
    show ?case
    proof (cases "vs = []")
      case False
      from Cons.IH [OF this] v show ?thesis by simp
    qed (use v in simp)
  qed simp
  have e: "sum_list (map ?x ws) = of_int weight" by (subst s) (use t in simp)
  show "weight \<le> sum_list (map (share weight ws) ws)" using lo [of ws] e by simp
  have "(of_int (sum_list (map (share weight ws) ws)) :: rat) < of_int (weight + int (length ws))" using hi [OF assms(1)] e by simp
  then show "sum_list (map (share weight ws) ws) < weight + int (length ws)" by (simp only: of_int_less_iff)
qed

lemma sum_list_le: "\<forall>v \<in> set ws. v \<le> (n :: int) \<Longrightarrow> sum_list ws \<le> n * int (length ws)"
  by (induction ws) (auto simp: distrib_left)

lemma TMB_desired_served:
  assumes "TMB_desired indefinite b weight items cs = Inr (desired, invalid)" and "distinct (map cs_Cluster cs)" and "length cs < 2 ^ 40"
    and "0 \<le> weight" and "weight \<le> 1000" and "\<forall>(c, e) \<in> set (servedBy items cs). 1 \<le> exportWeight e \<and> exportWeight e \<le> 1000"
  shows "desired = Some (map (\<lambda>(c, e). (endpointNameOf b c, (desiredFor b c e)\<lparr>de_Endpoint := (generateAzureTrafficManagerEndpoint b e)\<lparr>ae_Properties :=
      Some \<lparr>aep_Target = None, aep_TargetResourceID = ises_PublicIPResourceID (ise_Spec e), aep_EndpointStatus = Some ''Enabled'',
        aep_Weight = Some (share weight (map (exportWeight \<circ> snd) (servedBy items cs)) (exportWeight e)), aep_Priority = None\<rparr>\<rparr>\<rparr>)) (servedBy items cs))"
proof -
  let ?sv = "servedBy items cs"
  let ?ws = "map (exportWeight \<circ> snd) ?sv"
  obtain st where st: "TMB_collect b (internalServiceExportMap items) cs \<lparr>cl_desired = Some [], cl_invalid = Some [], cl_total = 0\<rparr> = Inr st"
    "desired = map_option (map (\<lambda>(k, d). (k, reweighed indefinite weight (cl_total st) d))) (cl_desired st)"
    using assms(1) by (auto simp: TMB_desired_def split: sum.splits)
  have c: "cl_desired st = Some (map (\<lambda>(c, e). (endpointNameOf b c, desiredFor b c e)) ?sv)" "cl_total st = sum_list ?ws"
    using TMB_collect_served [OF st(1) _ assms(2) _ assms(6)] assms(3) by simp_all
  have ws: "\<forall>v \<in> set ?ws. 1 \<le> v \<and> v \<le> 1000" using assms(6) by auto
  have "sum_list ?ws \<le> 1000 * int (length ?ws)" by (rule sum_list_le) (use ws in blast)
  moreover have "int (length ?ws) < 2 ^ 40" using length_servedBy [of items cs] assms(3) by simp
  ultimately have up: "sum_list ?ws < 2 ^ 53" by simp
  have q: "ceilQuotient indefinite (wrap64 (weight * exportWeight e)) (cl_total st) = share weight ?ws (exportWeight e)" if "(c, e) \<in> set ?sv" for c e
  proof -
    have w: "1 \<le> exportWeight e" "exportWeight e \<le> 1000" using assms(6) that by auto
    have "weight * exportWeight e \<le> 1000 * 1000" using assms(4,5) w by (intro mult_mono) simp_all
    then have p: "0 \<le> weight * exportWeight e" "weight * exportWeight e < 2 ^ 53" using assms(4) w by simp_all
    then have "wrap64 (weight * exportWeight e) = weight * exportWeight e" by (intro wrap64_id) simp_all
    moreover have "exportWeight e \<in> set ?ws" using that by force
    then have "exportWeight e \<le> sum_list ?ws" using ws by (intro member_le_sum_list) auto
    then have "0 < sum_list ?ws" using w by simp
    ultimately show ?thesis using ceilQuotient_exact [OF p _ up] by (simp add: c(2) share_def)
  qed
  show ?thesis
    unfolding st(2) c(1) using q
    by (auto simp: reweighed_def desiredFor_def generateAzureTrafficManagerEndpoint_def)
qed

lemma TMB_shares:
  assumes "TMB_desired indefinite b weight items cs = Inr (desired, invalid)" and "distinct (map cs_Cluster cs)" and "length cs < 2 ^ 40"
    and "1 \<le> weight" and "weight \<le> 1000" and "\<forall>(c, e) \<in> set (servedBy items cs). 1 \<le> exportWeight e \<and> exportWeight e \<le> 1000"
    and "servedBy items cs \<noteq> []"
  defines "ws \<equiv> map (exportWeight \<circ> snd) (servedBy items cs)"
  shows "(\<forall>(c, e) \<in> set (servedBy items cs). \<exists>d. mget desired (endpointNameOf b c) = Some d \<and>
      weightIn d = Some (share weight ws (exportWeight e)) \<and> 1 \<le> share weight ws (exportWeight e) \<and> share weight ws (exportWeight e) \<le> weight) \<and>
    mkeys desired = map (endpointNameOf b \<circ> fst) (servedBy items cs) \<and> (\<forall>k \<in> set (mkeys desired). isEndpointOwnedByBackend b k) \<and>
    weight \<le> sum_list (map (share weight ws) ws) \<and> sum_list (map (share weight ws) ws) < weight + int (length ws)"
proof -
  let ?sv = "servedBy items cs"
  have "0 \<le> weight" using assms(4) by simp
  note d = TMB_desired_served [OF assms(1-3) this assms(5,6), folded ws_def]
  have ws: "ws \<noteq> []" "\<forall>v \<in> set ws. 1 \<le> v" using assms(6,7) by (auto simp: ws_def)
  have dist: "distinct (map fst ?sv)"
    using assms(2) unfolding servedBy_def
    by (induction cs) (auto split: option.splits)
  then have dn: "distinct (map (endpointNameOf b \<circ> fst) ?sv)" by (simp add: distinct_map inj_on_def)
  have keys: "mkeys desired = map (endpointNameOf b \<circ> fst) ?sv"
    using dn by (simp add: d mkeys_def comp_def case_prod_unfold distinct_remdups_id)
  have one: "\<exists>d. mget desired (endpointNameOf b c) = Some d \<and> weightIn d = Some (share weight ws (exportWeight e))" if "(c, e) \<in> set ?sv" for c e
  proof -
    let ?f = "\<lambda>(c, e). (endpointNameOf b c, (desiredFor b c e)\<lparr>de_Endpoint := (generateAzureTrafficManagerEndpoint b e)\<lparr>ae_Properties :=
      Some \<lparr>aep_Target = None, aep_TargetResourceID = ises_PublicIPResourceID (ise_Spec e), aep_EndpointStatus = Some ''Enabled'',
        aep_Weight = Some (share weight ws (exportWeight e)), aep_Priority = None\<rparr>\<rparr>\<rparr>)"
    have "map_of (map ?f ?sv) (endpointNameOf b c) = Some (snd (?f (c, e)))"
      by (rule map_of_is_SomeI) (use dn that in \<open>force simp: comp_def case_prod_unfold\<close>)+
    then show ?thesis by (simp add: d weightIn_def)
  qed
  have "1 \<le> share weight ws (exportWeight e) \<and> share weight ws (exportWeight e) \<le> weight" if "(c, e) \<in> set ?sv" for c e
    using share_bounds [OF assms(4) _ ws(2), of "exportWeight e"] that by (force simp: ws_def)
  with one keys owned_endpointNameOf sum_share [OF ws] show ?thesis by (auto simp: ws_def)
qed

section \<open>Properties\<close>

text \<open>C16. How the weight of a backend is divided: for distinct clusters and weights in the ranges that the
  resources allow, every exported service that can be an endpoint gets an endpoint of its own, under a name
  that the backend owns, with the ceiling of its exact share of the weight; every share is between 1 and the
  weight, and the shares add up to the weight or exceed it by less than the number of endpoints. The
  floating point arithmetic of the code computes exactly this.\<close>

theorem TMB_weights:
  assumes "TMB_desired indefinite b weight items cs = Inr (desired, invalid)" and "distinct (map cs_Cluster cs)" and "length cs < 2 ^ 40"
    and "1 \<le> weight" and "weight \<le> 1000" and "\<forall>(c, e) \<in> set (servedBy items cs). 1 \<le> exportWeight e \<and> exportWeight e \<le> 1000"
    and "servedBy items cs \<noteq> []"
  defines "ws \<equiv> map (exportWeight \<circ> snd) (servedBy items cs)"
  shows "(\<forall>(c, e) \<in> set (servedBy items cs). \<exists>d. mget desired (endpointNameOf b c) = Some d \<and>
      weightIn d = Some (share weight ws (exportWeight e)) \<and> 1 \<le> share weight ws (exportWeight e) \<and> share weight ws (exportWeight e) \<le> weight) \<and>
    mkeys desired = map (endpointNameOf b \<circ> fst) (servedBy items cs) \<and> (\<forall>k \<in> set (mkeys desired). isEndpointOwnedByBackend b k) \<and>
    weight \<le> sum_list (map (share weight ws) ws) \<and> sum_list (map (share weight ws) ws) < weight + int (length ws)"
  unfolding ws_def by (rule TMB_shares [OF assms(1-7)])

theorem TMB_weights_witness:
  "\<exists>desired invalid d1 d2. TMB_desired 0 demoBackend 500 demoExports demoClusters = Inr (desired, invalid) \<and>
     mget desired ''fleet-u2#svc#c1'' = Some d1 \<and> weightIn d1 = Some 167 \<and> mget desired ''fleet-u2#svc#c2'' = Some d2 \<and> weightIn d2 = Some 334"
proof -
  have sv: "servedBy demoExports demoClusters = [(''c1'', demoEndpointExport ''c1'' 100), (''c2'', demoEndpointExport ''c2'' 200)]" by code_simp
  have w: "exportWeight (demoEndpointExport c v) = v" for c v by (simp add: exportWeight_def demoEndpointExport_def)
  have "\<not> isl (TMB_desired 0 demoBackend 500 demoExports demoClusters)"
    by (simp add: TMB_desired_def demoExports_def demoClusters_def internalServiceExportMap_def demoEndpointExport_def isValidTrafficManagerEndpoint_def Let_def)
  then obtain desired invalid where d: "TMB_desired 0 demoBackend 500 demoExports demoClusters = Inr (desired, invalid)"
    by (metis isl_def prod.exhaust sumE)
  have s: "share 500 [100, 200] 100 = 167" "share 500 [100, 200] 200 = 334" by code_simp+
  have n: "endpointNameOf demoBackend ''c1'' = ''fleet-u2#svc#c1''" "endpointNameOf demoBackend ''c2'' = ''fleet-u2#svc#c2''" by code_simp+
  have "distinct (map cs_Cluster demoClusters)" "length demoClusters < 2 ^ 40" by (simp_all add: demoClusters_def)
  from TMB_weights [OF d this] have "\<forall>(c, e) \<in> set (servedBy demoExports demoClusters). \<exists>d. mget desired (endpointNameOf demoBackend c) = Some d \<and>
      weightIn d = Some (share 500 [100, 200] (exportWeight e))"
    by (simp add: sv w) blast
  then show ?thesis using d by (auto simp: sv w s n)
qed

end
