(* ===== verification/Hub_TrafficManagerBackend.thy ===== *)
theory Hub_TrafficManagerBackend
  imports Hub_TrafficManagerProfile TrafficManagerEndpoints Hub_ServiceImport Hub_MemberCluster
begin

text \<open>
  The TrafficManagerBackend controller (\<open>pkg/controllers/hub/trafficmanagerbackend/controller.go\<close>): it keeps the
  endpoints of an Azure Traffic Manager profile in step with the services exported behind a ServiceImport.
  Every function that changes the backend returns it; a dereference of a nil pointer is a panic. The
  metric that the deferred function writes while a panic unwinds is left out.
\<close>

section \<open>The model\<close>

definition trafficManagerBackendProfileFieldKey :: string where
  "trafficManagerBackendProfileFieldKey = ''.spec.profile.name''"

definition trafficManagerBackendBackendFieldKey :: string where
  "trafficManagerBackendBackendFieldKey = ''.spec.backend.name''"

definition backendEventReasonAzureAPIError :: string where
  "backendEventReasonAzureAPIError = ''AzureAPIError''"

definition backendEventReasonAccepted :: string where
  "backendEventReasonAccepted = ''Accepted''"

definition backendEventReasonDeleted :: string where
  "backendEventReasonDeleted = ''Deleted''"

definition TrafficManagerBackendConditionAccepted :: string where
  "TrafficManagerBackendConditionAccepted = ''Accepted''"

definition TrafficManagerBackendReasonAccepted :: string where
  "TrafficManagerBackendReasonAccepted = ''Accepted''"

definition TrafficManagerBackendReasonInvalid :: string where
  "TrafficManagerBackendReasonInvalid = ''Invalid''"

definition TrafficManagerBackendReasonPending :: string where
  "TrafficManagerBackendReasonPending = ''Pending''"

definition trafficManagerBackendStatusLastTimestampSeconds :: string where
  "trafficManagerBackendStatusLastTimestampSeconds = ''fleet_networking_traffic_manager_backend_status_last_timestamp_seconds''"

abbreviation tmbMeta :: "TrafficManagerBackend \<Rightarrow> ObjectMeta" where
  "tmbMeta b \<equiv> tmb_ObjectMeta b"

subsection \<open>The conditions\<close>

definition acceptedCondition :: "TrafficManagerBackend \<Rightarrow> ConditionStatus \<Rightarrow> string \<Rightarrow> string \<Rightarrow> Condition" where
  "acceptedCondition b s r m = \<lparr>c_Type = TrafficManagerBackendConditionAccepted, c_Status = s, c_ObservedGeneration = om_Generation (tmbMeta b),
     c_LastTransitionTime = None, c_Reason = r, c_Message = m\<rparr>"

definition setFalseCondition :: "Lib \<Rightarrow> TrafficManagerBackend \<Rightarrow> TrafficManagerEndpointStatus list \<Rightarrow> string \<Rightarrow> TrafficManagerBackend" where
  "setFalseCondition L b acceptedEndpoints message =
     b\<lparr>tmb_Endpoints := acceptedEndpoints,
       tmb_Conditions := LibSetStatusCondition L (tmb_Conditions b) (acceptedCondition b ConditionFalse TrafficManagerBackendReasonInvalid message)\<rparr>"

definition setUnknownCondition :: "Lib \<Rightarrow> TrafficManagerBackend \<Rightarrow> string \<Rightarrow> TrafficManagerBackend" where
  "setUnknownCondition L b message =
     b\<lparr>tmb_Endpoints := [],
       tmb_Conditions := LibSetStatusCondition L (tmb_Conditions b) (acceptedCondition b ConditionUnknown TrafficManagerBackendReasonPending message)\<rparr>"

definition setTrueCondition :: "Lib \<Rightarrow> TrafficManagerBackend \<Rightarrow> TrafficManagerEndpointStatus list \<Rightarrow> TrafficManagerBackend" where
  "setTrueCondition L b acceptedEndpoints =
     b\<lparr>tmb_Endpoints := acceptedEndpoints,
       tmb_Conditions := LibSetStatusCondition L (tmb_Conditions b) (acceptedCondition b ConditionTrue TrafficManagerBackendReasonAccepted
         (FormatInt (int (length acceptedEndpoints)) @ '' service(s) exported from clusters have been accepted as Traffic Manager endpoints''))\<rparr>"

definition TMB_updateStatus :: "Lib \<Rightarrow> TrafficManagerBackend \<Rightarrow> (err option \<times> TrafficManagerBackend) op" where
  "TMB_updateStatus L b =
     bindP (doStatusUpdate Hub OTMB decTMB b) (\<lambda>(er, b1).
       case er of Some x \<Rightarrow> Ret (LibNewUpdateIgnoreConflictError L x, b1) | None \<Rightarrow> Ret (None, b1))"

text \<open>Report a condition, and return the error (if any) to be retried.\<close>

definition TMB_reportThen :: "Lib \<Rightarrow> TrafficManagerBackend \<Rightarrow> err option \<Rightarrow> (err option \<times> TrafficManagerBackend) op" where
  "TMB_reportThen L b er =
     bindP (TMB_updateStatus L b) (\<lambda>(uer, b1). case uer of Some x \<Rightarrow> Ret (Some x, b1) | None \<Rightarrow> Ret (er, b1))"

subsection \<open>The clean-up of endpoints\<close>

definition TMB_deleteEndpoint :: "string \<Rightarrow> string \<Rightarrow> string \<Rightarrow> err option op" where
  "TMB_deleteEndpoint resourceGroup atmProfileName endpointName =
     bindP (call (EndpointsDelete resourceGroup atmProfileName endpointName) decOk) (\<lambda>er.
       case er of Some x \<Rightarrow> if AzIsNotFound x then Ret None else Ret (Some x) | None \<Rightarrow> Ret None)"

definition ownedNames :: "TrafficManagerBackend \<Rightarrow> AzureEndpoint list \<Rightarrow> string list" where
  "ownedNames b es = [nm. e \<leftarrow> es, Some nm \<leftarrow> [ae_Name e], isEndpointOwnedByBackend b nm]"

definition TMB_cleanupEndpoints :: "Lib \<Rightarrow> string \<Rightarrow> TrafficManagerBackend \<Rightarrow> AzureProfile \<Rightarrow> err option op" where
  "TMB_cleanupEndpoints L resourceGroup b atmProfile =
     (case ap_Properties atmProfile of
        None \<Rightarrow> Ret None
      | Some q \<Rightarrow>
          (case ap_Name atmProfile of
             None \<Rightarrow> Panic ''nil pointer dereference''
           | Some atmProfileName \<Rightarrow>
               LibErrGroup L (map (TMB_deleteEndpoint resourceGroup atmProfileName) (ownedNames b (app_Endpoints q)))))"

definition profileKey :: "TrafficManagerBackend \<Rightarrow> NamespacedName" where
  "profileKey b = \<lparr>nn_Namespace = om_Namespace (tmbMeta b), nn_Name = tmb_Profile b\<rparr>"

definition TMB_deleteAzureTrafficManagerEndpoints :: "Lib \<Rightarrow> TrafficManagerBackend \<Rightarrow> err option op" where
  "TMB_deleteAzureTrafficManagerEndpoints L b =
     bindP (getTMP Hub (profileKey b)) (\<lambda>g.
       case g of
         Inl x \<Rightarrow> if IsNotFound x then Ret None else Ret (Some (LibNewAPIServerError L True x))
       | Inr p \<Rightarrow>
           bindP (call (ProfilesGet (tmp_ResourceGroup p) (GenerateAzureTrafficManagerProfileName p)) decProfile) (\<lambda>a.
             case a of
               Inl x \<Rightarrow> if \<not> AzIsNotFound x then Ret (Some x) else Ret None
             | Inr az \<Rightarrow> TMB_cleanupEndpoints L (tmp_ResourceGroup p) b az))"

definition TMB_finish :: "Lib \<Rightarrow> bool \<Rightarrow> TrafficManagerBackend \<Rightarrow> outcome op" where
  "TMB_finish L needUpdate b =
     (if \<not> needUpdate then Ret (emptyResult, None)
      else bindP (doUpdate Hub OTMB decTMB b) (\<lambda>(er, _).
        case er of Some x \<Rightarrow> Ret (emptyResult, LibNewUpdateIgnoreConflictError L x) | None \<Rightarrow> Ret (emptyResult, None)))"

definition TMB_release :: "Lib \<Rightarrow> bool \<Rightarrow> TrafficManagerBackend \<Rightarrow> outcome op" where
  "TMB_release L needUpdate b =
     (if LibContainsFinalizer L (tmbMeta b) TrafficManagerBackendFinalizer then
        bindP (TMB_deleteAzureTrafficManagerEndpoints L b) (\<lambda>er.
          case er of
            Some x \<Rightarrow>
              bindP (eventf KTrafficManagerBackend (tmbMeta b) ''Warning'' backendEventReasonAzureAPIError
                       (''Failed to delete Azure Traffic Manager endpoints: '' @ errString x)) (\<lambda>_. Ret (emptyResult, Some x))
          | None \<Rightarrow>
              bindP (eventf KTrafficManagerBackend (tmbMeta b) ''Normal'' backendEventReasonDeleted ''Deleted Azure Traffic Manager endpoints'') (\<lambda>_.
                TMB_finish L True (b\<lparr>tmb_ObjectMeta := LibRemoveFinalizer L (tmbMeta b) TrafficManagerBackendFinalizer\<rparr>)))
      else TMB_finish L needUpdate b)"

definition TMB_handleDelete :: "Lib \<Rightarrow> TrafficManagerBackend \<Rightarrow> outcome op" where
  "TMB_handleDelete L b =
     (if LibContainsFinalizer L (tmbMeta b) MetricsFinalizer then
        bindP (call (MetricDeletePartial trafficManagerBackendStatusLastTimestampSeconds (om_Namespace (tmbMeta b)) (om_Name (tmbMeta b))) (\<lambda>_. ())) (\<lambda>_.
          TMB_release L True (b\<lparr>tmb_ObjectMeta := LibRemoveFinalizer L (tmbMeta b) MetricsFinalizer\<rparr>))
      else TMB_release L False b)"

subsection \<open>The validations\<close>

text \<open>
  A validation returns what it has found, or the reason to stop: an error to be retried, or nil when
  there is nothing to do but to wait for an event.
\<close>

definition TMB_validateTrafficManagerProfile ::
    "Lib \<Rightarrow> TrafficManagerBackend \<Rightarrow> ((err option + TrafficManagerProfile) \<times> TrafficManagerBackend) op" where
  "TMB_validateTrafficManagerProfile L b =
     bindP (getTMP Hub (profileKey b)) (\<lambda>g.
       case g of
         Inl x \<Rightarrow>
           if IsNotFound x then
             bindP (TMB_updateStatus L (setFalseCondition L b [] (''TrafficManagerProfile '' @ goQuote (tmb_Profile b) @ '' is not found''))) (\<lambda>(er, b1). Ret (Inl er, b1))
           else
             bindP (TMB_reportThen L (setUnknownCondition L b (''Failed to get the trafficManagerProfile '' @ goQuote (tmb_Profile b) @ '': '' @ errString x)) (Some x))
               (\<lambda>(er, b1). Ret (Inl er, b1))
       | Inr p \<Rightarrow>
           let c = LibFindStatusCondition L (tmp_Conditions p) TrafficManagerProfileConditionProgrammed; gen = om_Generation (tmp_ObjectMeta p) in
           if LibIsConditionStatusTrue L c gen then Ret (Inr p, b)
           else
             bindP (TMB_updateStatus L
                 (if LibIsConditionStatusFalse L c gen
                  then setFalseCondition L b [] (''Invalid trafficManagerProfile '' @ goQuote (tmb_Profile b) @ '', please check the trafficManagerProfile status'')
                  else setUnknownCondition L b (''In the processing of trafficManagerProfile '' @ goQuote (tmb_Profile b)))) (\<lambda>(er, b1). Ret (Inl er, b1)))"

definition TMB_validateAzureTrafficManagerProfile ::
    "Lib \<Rightarrow> TrafficManagerBackend \<Rightarrow> TrafficManagerProfile \<Rightarrow> ((err option + AzureProfile) \<times> TrafficManagerBackend) op" where
  "TMB_validateAzureTrafficManagerProfile L b p =
     (let nm = GenerateAzureTrafficManagerProfileName p; rg = tmp_ResourceGroup p; under = goQuote nm @ '' under '' @ goQuote rg in
      bindP (call (ProfilesGet rg nm) decProfile) (\<lambda>g.
        case g of
          Inl x \<Rightarrow>
            bindP (eventf KTrafficManagerBackend (tmbMeta b) ''Warning'' backendEventReasonAzureAPIError
                     (''Failed to get Azure Traffic Manager profile '' @ under @ '': '' @ errString x)) (\<lambda>_.
              if AzIsNotFound x then
                bindP (TMB_updateStatus L (setFalseCondition L b [] (''Azure Traffic Manager profile '' @ under @ '' is not found''))) (\<lambda>(er, b1). Ret (Inl er, b1))
              else
                bindP (TMB_reportThen L (setUnknownCondition L b (''Failed to get the Azure Traffic Manager profile '' @ under @ '': '' @ errString x)) (Some x))
                  (\<lambda>(er, b1). Ret (Inl er, b1)))
        | Inr az \<Rightarrow> Ret (Inr az, b)))"

definition serviceImportKey :: "TrafficManagerBackend \<Rightarrow> NamespacedName" where
  "serviceImportKey b = \<lparr>nn_Namespace = om_Namespace (tmbMeta b), nn_Name = tmb_Backend b\<rparr>"

definition TMB_validateServiceImport ::
    "Lib \<Rightarrow> string \<Rightarrow> TrafficManagerBackend \<Rightarrow> AzureProfile \<Rightarrow> ((err option + ServiceImport) \<times> TrafficManagerBackend) op" where
  "TMB_validateServiceImport L resourceGroup b az =
     bindP (getSI Hub (serviceImportKey b)) (\<lambda>g.
       case g of
         Inl x \<Rightarrow>
           if IsNotFound x then
             bindP (TMB_cleanupEndpoints L resourceGroup b az) (\<lambda>cer.
               case cer of
                 Some y \<Rightarrow>
                   bindP (eventf KTrafficManagerBackend (tmbMeta b) ''Warning'' backendEventReasonAzureAPIError
                            (''Failed to delete stale endpoints for an invalid serviceImport: '' @ errString y)) (\<lambda>_. Ret (Inl (Some y), b))
               | None \<Rightarrow>
                   bindP (TMB_updateStatus L (setFalseCondition L b [] (''ServiceImport '' @ goQuote (tmb_Backend b) @ '' is not found''))) (\<lambda>(er, b1). Ret (Inl er, b1)))
           else
             bindP (TMB_reportThen L (setUnknownCondition L b (''Failed to get the serviceImport '' @ goQuote (tmb_Profile b) @ '': '' @ errString x)) (Some x))
               (\<lambda>(er, b1). Ret (Inl er, b1))
       | Inr s \<Rightarrow> Ret (Inr s, b))"

definition exportsOf :: "ServiceImport \<Rightarrow> selector" where
  "exportsOf s = selAll\<lparr>sel_Field := Some (exportedServiceFieldNamespacedName, nnString (om_Namespace (si_ObjectMeta s)) (om_Name (si_ObjectMeta s)))\<rparr>"

definition TMB_processServiceImport ::
    "Lib \<Rightarrow> TrafficManagerBackend \<Rightarrow> int \<Rightarrow> ServiceImport \<Rightarrow> ((err option + desiredEndpoint gomap \<times> err gomap) \<times> TrafficManagerBackend) op" where
  "TMB_processServiceImport L b weight s =
     (let key = nnString (om_Namespace (si_ObjectMeta s)) (om_Name (si_ObjectMeta s)) in
      if sis_Clusters (si_Status s) = [] then
        bindP (TMB_updateStatus L (setUnknownCondition L b ''In the process of exporting the services'')) (\<lambda>(er, b1). Ret (Inl er, b1))
      else
        bindP (doList Hub KInternalServiceExport decISE (exportsOf s)) (\<lambda>l.
          case l of
            Inl x \<Rightarrow>
              bindP (TMB_reportThen L (setUnknownCondition L b (''Failed to list the exported service '' @ goQuote key @ '': '' @ errString x)) (Some x))
                (\<lambda>(er, b1). Ret (Inl er, b1))
          | Inr items \<Rightarrow>
              (case TMB_desired (LibIndefiniteInt L) b weight items (sis_Clusters (si_Status s)) of
                 Inl c \<Rightarrow>
                   bindP (TMB_updateStatus L (setUnknownCondition L b (''Failed to find the exported service '' @ goQuote key @ '' for '' @ goQuote c @
                       '': failed to find the internalServiceExport for the cluster '' @ goQuote c))) (\<lambda>(er, b1). Ret (Inl er, b1))
               | Inr maps \<Rightarrow> Ret (Inr maps, b))))"

subsection \<open>The update of endpoints\<close>

text \<open>
  The loop over the endpoints of the profile: delete those that are not desired, and accept those that
  are as desired. The state is the desired endpoints that remain and those accepted.
\<close>

type_synonym endpointState = "desiredEndpoint gomap \<times> TrafficManagerEndpointStatus list"
type_synonym stopped = "err option \<times> TrafficManagerBackend"

definition TMB_dropEndpoint :: "Lib \<Rightarrow> string \<Rightarrow> TrafficManagerBackend \<Rightarrow> AzureProfile \<Rightarrow> string \<Rightarrow> endpointState \<Rightarrow> (stopped + endpointState) op" where
  "TMB_dropEndpoint L resourceGroup b az nm st =
     (case ap_Name az of
        None \<Rightarrow> Panic ''nil pointer dereference''
      | Some profileName \<Rightarrow>
          bindP (call (EndpointsDelete resourceGroup profileName nm) decOk) (\<lambda>er.
            case er of
              None \<Rightarrow> Ret (Inr st)
            | Some x \<Rightarrow>
                if AzIsNotFound x then Ret (Inr st)
                else
                  bindP (eventf KTrafficManagerBackend (tmbMeta b) ''Warning'' backendEventReasonAzureAPIError
                           (''Failed to delete Azure Traffic Manager endpoint '' @ goQuote (ToLower nm) @ '': '' @ errString x)) (\<lambda>_.
                  bindP (TMB_reportThen L (setUnknownCondition L b (''Failed to cleanup the existing '' @ goQuote (ToLower nm) @ '' for '' @ goQuote profileName @
                           '': '' @ errString x)) (Some x)) (\<lambda>r. Ret (Inl r)))))"

definition TMB_visitEndpoint ::
    "Lib \<Rightarrow> string \<Rightarrow> TrafficManagerBackend \<Rightarrow> AzureProfile \<Rightarrow> AzureEndpoint \<Rightarrow> endpointState \<Rightarrow> (stopped + endpointState) op" where
  "TMB_visitEndpoint L resourceGroup b az e st =
     (case ae_Name e of
        None \<Rightarrow> Ret (Inr st)
      | Some nm \<Rightarrow>
          if \<not> isEndpointOwnedByBackend b (ToLower nm) then Ret (Inr st)
          else
            (case mget (fst st) (ToLower nm) of
               None \<Rightarrow> TMB_dropEndpoint L resourceGroup b az nm st
             | Some d \<Rightarrow>
                 (case equalAzureTrafficManagerEndpoint e (de_Endpoint d) of
                    None \<Rightarrow> Panic ''nil pointer dereference''
                  | Some eq \<Rightarrow>
                      if eq then
                        (case buildAcceptedEndpointStatus e d of
                           None \<Rightarrow> Panic ''nil pointer dereference''
                         | Some x \<Rightarrow> Ret (Inr (mdel (ToLower nm) (fst st), snd st @ [x])))
                      else Ret (Inr st))))"

text \<open>The loop over the desired endpoints that remain; the state is those accepted and the errors of the user.\<close>

definition TMB_programEndpoint ::
    "Lib \<Rightarrow> string \<Rightarrow> TrafficManagerBackend \<Rightarrow> AzureProfile \<Rightarrow> desiredEndpoint gomap \<Rightarrow> string \<Rightarrow> TrafficManagerEndpointStatus list \<times> err list
      \<Rightarrow> (stopped + TrafficManagerEndpointStatus list \<times> err list) op" where
  "TMB_programEndpoint L resourceGroup b az desired k st =
     (case mget desired k of
        None \<Rightarrow> Ret (Inr st)
      | Some d \<Rightarrow>
          (case (ae_Name (de_Endpoint d), ap_Name az) of
             (Some endpointName, Some profileName) \<Rightarrow>
               bindP (call (EndpointsCreateOrUpdate resourceGroup profileName endpointName (de_Endpoint d)) decEndpoint) (\<lambda>r.
                 case r of
                   Inl x \<Rightarrow>
                     bindP (eventf KTrafficManagerBackend (tmbMeta b) ''Warning'' backendEventReasonAzureAPIError
                              (''Failed to create or update Azure Traffic Manager endpoint '' @ goQuote endpointName @ '': '' @ errString x)) (\<lambda>_.
                       if responseCode x = None then Ret (Inl (Some x, b))
                       else if AzIsClientError x \<and> \<not> AzIsThrottled x then Ret (Inr (fst st, snd st @ [x]))
                       else
                         bindP (TMB_reportThen L (setUnknownCondition L b (''Failed to create or update '' @ goQuote endpointName @ '' for '' @ goQuote profileName @
                                  '': '' @ errString x)) (Some x)) (\<lambda>s. Ret (Inl s)))
                 | Inr e \<Rightarrow>
                     bindP (eventf KTrafficManagerBackend (tmbMeta b) ''Normal'' backendEventReasonAccepted
                              (''Successfully created or updated Azure Traffic Manager endpoint '' @ goQuote endpointName)) (\<lambda>_.
                       case buildAcceptedEndpointStatus e d of
                         None \<Rightarrow> Panic ''nil pointer dereference''
                       | Some x \<Rightarrow> Ret (Inr (fst st @ [x], snd st))))
           | _ \<Rightarrow> Panic ''nil pointer dereference''))"

definition TMB_updateEndpoints ::
    "Lib \<Rightarrow> string \<Rightarrow> TrafficManagerBackend \<Rightarrow> AzureProfile \<Rightarrow> desiredEndpoint gomap \<Rightarrow> (stopped + TrafficManagerEndpointStatus list \<times> err list) op" where
  "TMB_updateEndpoints L resourceGroup b az desired =
     (case ap_Properties az of
        None \<Rightarrow> Panic ''nil pointer dereference''
      | Some q \<Rightarrow>
          bindP (forP (app_Endpoints q) (desired, []) (TMB_visitEndpoint L resourceGroup b az)) (\<lambda>r.
            case r of
              Inl s \<Rightarrow> Ret (Inl s)
            | Inr st \<Rightarrow> forP (LibMapOrder L (mkeys (fst st))) (snd st, []) (TMB_programEndpoint L resourceGroup b az (fst st))))"

subsection \<open>The controller\<close>

text \<open>The message for the endpoints and services that are not accepted; the map has no order.\<close>

definition invalidMessage :: "Lib \<Rightarrow> err list \<Rightarrow> err gomap \<Rightarrow> string" where
  "invalidMessage L bad invalid =
     (if bad \<noteq> [] then FormatInt (int (length bad)) @ '' endpoint(s) failed to be created/updated in the Azure Traffic Manager, for example, '' @ errString (hd bad) @ ''; '' else []) @
     (case LibMapOrder L (mkeys invalid) of
        [] \<Rightarrow> []
      | c # _ \<Rightarrow> FormatInt (int (mlen invalid)) @
          '' service(s) exported from clusters cannot be exposed as the Azure Traffic Manager, for example, service exported from '' @ c @ '' is invalid: '' @
          (case mget invalid c of None \<Rightarrow> [] | Some e \<Rightarrow> errString e))"

definition TMB_conclude :: "Lib \<Rightarrow> TrafficManagerBackend \<Rightarrow> err gomap \<Rightarrow> TrafficManagerEndpointStatus list \<Rightarrow> err list \<Rightarrow> stopped op" where
  "TMB_conclude L b invalid acceptedEndpoints bad =
     TMB_reportThen L
       (if mlen invalid = 0 \<and> bad = [] then setTrueCondition L b acceptedEndpoints
        else setFalseCondition L b acceptedEndpoints (invalidMessage L bad invalid)) (errorsJoin bad)"

definition TMB_applyEndpoints ::
    "Lib \<Rightarrow> string \<Rightarrow> AzureProfile \<Rightarrow> desiredEndpoint gomap \<Rightarrow> err gomap \<Rightarrow> TrafficManagerBackend \<Rightarrow> stopped op" where
  "TMB_applyEndpoints L resourceGroup az desired invalid b =
     bindP (TMB_updateEndpoints L resourceGroup b az desired) (\<lambda>r.
       case r of Inl s \<Rightarrow> Ret s | Inr (acceptedEndpoints, bad) \<Rightarrow> TMB_conclude L b invalid acceptedEndpoints bad)"

definition TMB_registerThenApply ::
    "Lib \<Rightarrow> string \<Rightarrow> AzureProfile \<Rightarrow> desiredEndpoint gomap \<Rightarrow> err gomap \<Rightarrow> TrafficManagerBackend \<Rightarrow> stopped op" where
  "TMB_registerThenApply L resourceGroup az desired invalid b =
     (if \<not> LibContainsFinalizer L (tmbMeta b) TrafficManagerBackendFinalizer then
        bindP (doUpdate Hub OTMB decTMB (b\<lparr>tmb_ObjectMeta := LibAddFinalizer L (tmbMeta b) TrafficManagerBackendFinalizer\<rparr>)) (\<lambda>(er, b1).
          case er of
            Some x \<Rightarrow> Ret (LibNewUpdateIgnoreConflictError L x, b1)
          | None \<Rightarrow> TMB_applyEndpoints L resourceGroup az desired invalid b1)
      else TMB_applyEndpoints L resourceGroup az desired invalid b)"

definition TMB_zeroWeight :: "Lib \<Rightarrow> string \<Rightarrow> TrafficManagerBackend \<Rightarrow> AzureProfile \<Rightarrow> stopped op" where
  "TMB_zeroWeight L resourceGroup b az =
     bindP (TMB_cleanupEndpoints L resourceGroup b az) (\<lambda>cer.
       case cer of
         Some x \<Rightarrow>
           bindP (eventf KTrafficManagerBackend (tmbMeta b) ''Warning'' backendEventReasonAzureAPIError
                    (''Failed to delete Azure Traffic Manager endpoints: '' @ errString x)) (\<lambda>_. Ret (Some x, b))
       | None \<Rightarrow>
           bindP (eventf KTrafficManagerBackend (tmbMeta b) ''Normal'' backendEventReasonAccepted
                    ''Successfully removed all endpoints from Azure Traffic Manager due to zero weight'') (\<lambda>_.
             TMB_updateStatus L (setTrueCondition L b [])))"

definition TMB_serve :: "Lib \<Rightarrow> string \<Rightarrow> AzureProfile \<Rightarrow> ServiceImport \<Rightarrow> TrafficManagerBackend \<Rightarrow> stopped op" where
  "TMB_serve L resourceGroup az s b =
     (case tmb_Weight b of
        None \<Rightarrow> Panic ''nil pointer dereference''
      | Some weight \<Rightarrow>
          if weight = 0 then TMB_zeroWeight L resourceGroup b az
          else
            bindP (TMB_processServiceImport L b weight s) (\<lambda>(r, b1).
              case r of
                Inl er \<Rightarrow> Ret (er, b1)
              | Inr (desired, invalid) \<Rightarrow> TMB_registerThenApply L resourceGroup az desired invalid b1))"

definition TMB_handleUpdate :: "Lib \<Rightarrow> TrafficManagerBackend \<Rightarrow> stopped op" where
  "TMB_handleUpdate L b =
     bindP (TMB_validateTrafficManagerProfile L b) (\<lambda>(r, b1).
       case r of
         Inl er \<Rightarrow> Ret (er, b1)
       | Inr p \<Rightarrow>
           bindP (TMB_validateAzureTrafficManagerProfile L b1 p) (\<lambda>(r2, b2).
             case r2 of
               Inl er \<Rightarrow> Ret (er, b2)
             | Inr az \<Rightarrow>
                 bindP (TMB_validateServiceImport L (tmp_ResourceGroup p) b2 az) (\<lambda>(r3, b3).
                   case r3 of
                     Inl er \<Rightarrow> Ret (er, b3)
                   | Inr s \<Rightarrow> TMB_serve L (tmp_ResourceGroup p) az s b3)))"

definition emitTrafficManagerBackendStatusMetric :: "Lib \<Rightarrow> TrafficManagerBackend \<Rightarrow> unit op" where
  "emitTrafficManagerBackendStatusMetric L b =
     (let om = tmbMeta b in
      case LibFindStatusCondition L (tmb_Conditions b) TrafficManagerBackendConditionAccepted of
        None \<Rightarrow> Ret ()
      | Some c \<Rightarrow>
          if c_ObservedGeneration c = om_Generation om then
            call (MetricSet trafficManagerBackendStatusLastTimestampSeconds
                    [om_Namespace om, om_Name om, FormatInt (om_Generation om), TrafficManagerBackendConditionAccepted,
                     conditionStatusString (c_Status c), c_Reason c]) (\<lambda>_. ())
          else Ret ())"

definition TMB_program :: "Lib \<Rightarrow> TrafficManagerBackend \<Rightarrow> outcome op" where
  "TMB_program L b =
     bindP (TMB_handleUpdate L (SetDefaultsTrafficManagerBackend b)) (\<lambda>(er, b1).
       bindP (emitTrafficManagerBackendStatusMetric L b1) (\<lambda>_. Ret (emptyResult, er)))"

definition TMB_Reconcile :: "Lib \<Rightarrow> NamespacedName \<Rightarrow> outcome op" where
  "TMB_Reconcile L name =
     bindP (getTMB Hub name) (\<lambda>g.
       case g of
         Inl x \<Rightarrow> if IsNotFound x then Ret (emptyResult, None) else Ret (emptyResult, Some (LibNewAPIServerError L True x))
       | Inr b \<Rightarrow>
           if om_DeletionTimestamp (tmbMeta b) \<noteq> None then TMB_handleDelete L b
           else if \<not> LibContainsFinalizer L (tmbMeta b) MetricsFinalizer then
             bindP (doUpdate Hub OTMB decTMB (b\<lparr>tmb_ObjectMeta := LibAddFinalizer L (tmbMeta b) MetricsFinalizer\<rparr>)) (\<lambda>(er, b1).
               case er of Some x \<Rightarrow> Ret (emptyResult, Some x) | None \<Rightarrow> TMB_program L b1)
           else TMB_program L b)"

subsection \<open>The watches\<close>

definition TMB_profileIndexer :: "kobj \<Rightarrow> string list" where
  "TMB_profileIndexer x = (case x of OTMB b \<Rightarrow> [tmb_Profile b] | _ \<Rightarrow> [])"

definition TMB_backendIndexer :: "kobj \<Rightarrow> string list" where
  "TMB_backendIndexer x = (case x of OTMB b \<Rightarrow> [tmb_Backend b] | _ \<Rightarrow> [])"

definition TMB_exportIndexer :: "kobj \<Rightarrow> string list" where
  "TMB_exportIndexer x = (case x of OISE e \<Rightarrow> [eor_NamespacedName (ises_ServiceReference (ise_Spec e))] | _ \<Rightarrow> [])"

definition shouldHandleTrafficManagerProfileUpdateEvent :: "Lib \<Rightarrow> TrafficManagerProfile \<Rightarrow> TrafficManagerProfile \<Rightarrow> bool" where
  "shouldHandleTrafficManagerProfileUpdateEvent L old new =
     (\<not> LibEqualConditionIgnoreReason L (LibFindStatusCondition L (tmp_Conditions old) TrafficManagerProfileConditionProgrammed)
          (LibFindStatusCondition L (tmp_Conditions new) TrafficManagerProfileConditionProgrammed))"

definition shouldHandleServiceImportUpateEvent :: "ServiceImport \<Rightarrow> ServiceImport \<Rightarrow> bool" where
  "shouldHandleServiceImportUpateEvent old new = (sis_Clusters (si_Status old) \<noteq> sis_Clusters (si_Status new))"

definition shouldHandleInternalServiceExportUpdateEvent :: "InternalServiceExport \<Rightarrow> InternalServiceExport \<Rightarrow> bool" where
  "shouldHandleInternalServiceExportUpdateEvent old new =
     (let o1 = ise_Spec old; n = ise_Spec new in
      ises_Type o1 \<noteq> ises_Type n \<or> ises_IsDNSLabelConfigured o1 \<noteq> ises_IsDNSLabelConfigured n \<or>
      ises_IsInternalLoadBalancer o1 \<noteq> ises_IsInternalLoadBalancer n \<or> ises_PublicIPResourceID o1 \<noteq> ises_PublicIPResourceID n \<or>
      ises_Weight o1 \<noteq> ises_Weight n)"

primrec TMB_enqueue :: "TrafficManagerBackend list \<Rightarrow> unit op" where
  "TMB_enqueue [] = Ret ()"
| "TMB_enqueue (b # bs) = bindP (call (Enqueue (metaKey (tmbMeta b))) (\<lambda>_. ())) (\<lambda>_. TMB_enqueue bs)"

definition TMB_listAndEnqueue :: "string \<Rightarrow> ObjectMeta \<Rightarrow> unit op" where
  "TMB_listAndEnqueue field om =
     bindP (doList Hub KTrafficManagerBackend decTMB \<lparr>sel_Namespace = Some (om_Namespace om), sel_Field = Some (field, om_Name om), sel_Label = None\<rparr>) (\<lambda>l.
       case l of Inl _ \<Rightarrow> Ret () | Inr bs \<Rightarrow> TMB_enqueue bs)"

definition TMB_handleTrafficManagerProfileEvent :: "ObjectMeta \<Rightarrow> unit op" where
  "TMB_handleTrafficManagerProfileEvent om = TMB_listAndEnqueue trafficManagerBackendProfileFieldKey om"

definition TMB_handleServiceImportEvent :: "ObjectMeta \<Rightarrow> unit op" where
  "TMB_handleServiceImportEvent om = TMB_listAndEnqueue trafficManagerBackendBackendFieldKey om"

primrec TMB_forClusters :: "string \<Rightarrow> ServiceImport \<Rightarrow> ClusterStatus list \<Rightarrow> unit op" where
  "TMB_forClusters clusterID s [] = Ret ()"
| "TMB_forClusters clusterID s (c # cs) =
     bindP (if cs_Cluster c = clusterID then TMB_handleServiceImportEvent (si_ObjectMeta s) else Ret ()) (\<lambda>_. TMB_forClusters clusterID s cs)"

definition TMB_handleInternalServiceExportEvent :: "InternalServiceExport \<Rightarrow> unit op" where
  "TMB_handleInternalServiceExportEvent e =
     (let ref = ises_ServiceReference (ise_Spec e) in
      bindP (getSI Hub \<lparr>nn_Namespace = eor_Namespace ref, nn_Name = eor_Name ref\<rparr>) (\<lambda>g.
        case g of Inl _ \<Rightarrow> Ret () | Inr s \<Rightarrow> TMB_forClusters (eor_ClusterID ref) s (sis_Clusters (si_Status s))))"

text \<open>The handlers of the three watches; the events that \<open>handler.Funcs\<close> leaves out are dropped.\<close>

definition TMB_onProfile :: "Lib \<Rightarrow> TrafficManagerProfile watchEvent \<Rightarrow> unit op" where
  "TMB_onProfile L ev =
     (case ev of
        UpdateEvent old new \<Rightarrow> if shouldHandleTrafficManagerProfileUpdateEvent L old new then TMB_handleTrafficManagerProfileEvent (tmp_ObjectMeta new) else Ret ()
      | DeleteEvent p \<Rightarrow> TMB_handleTrafficManagerProfileEvent (tmp_ObjectMeta p)
      | GenericEvent p \<Rightarrow> TMB_handleTrafficManagerProfileEvent (tmp_ObjectMeta p)
      | CreateEvent p \<Rightarrow> Ret ())"

definition TMB_onServiceImport :: "ServiceImport watchEvent \<Rightarrow> unit op" where
  "TMB_onServiceImport ev =
     (case ev of
        UpdateEvent old new \<Rightarrow> if shouldHandleServiceImportUpateEvent old new then TMB_handleServiceImportEvent (si_ObjectMeta new) else Ret ()
      | DeleteEvent s \<Rightarrow> TMB_handleServiceImportEvent (si_ObjectMeta s)
      | GenericEvent s \<Rightarrow> TMB_handleServiceImportEvent (si_ObjectMeta s)
      | CreateEvent s \<Rightarrow> Ret ())"

definition TMB_onInternalServiceExport :: "InternalServiceExport watchEvent \<Rightarrow> unit op" where
  "TMB_onInternalServiceExport ev =
     (case ev of
        UpdateEvent old new \<Rightarrow> if shouldHandleInternalServiceExportUpdateEvent old new then TMB_handleInternalServiceExportEvent new else Ret ()
      | GenericEvent e \<Rightarrow> TMB_handleInternalServiceExportEvent e
      | DeleteEvent e \<Rightarrow> Ret ()
      | CreateEvent e \<Rightarrow> Ret ())"

section \<open>What is said of the controller\<close>

definition hasTMBFinalizer :: "kobj \<Rightarrow> bool" where
  "hasTMBFinalizer x = (case x of OTMB b \<Rightarrow> TrafficManagerBackendFinalizer \<in> set (om_Finalizers (tmbMeta b)) | _ \<Rightarrow> False)"

definition endpointsOf :: "AzureProfile \<Rightarrow> AzureEndpoint list" where
  "endpointsOf az = (case ap_Properties az of None \<Rightarrow> [] | Some q \<Rightarrow> app_Endpoints q)"

text \<open>Azure treats the names of endpoints as case-insensitive.\<close>

definition distinctNames :: "AzureProfile \<Rightarrow> bool" where
  "distinctNames az = distinct [ToLower nm. e \<leftarrow> endpointsOf az, Some nm \<leftarrow> [ae_Name e]]"

text \<open>The backend as the controller works on it: as the hub has sent it, apart from the finalizers and the default of the weight.\<close>

definition viewed :: "TrafficManagerBackend \<Rightarrow> trace \<Rightarrow> bool" where
  "viewed b h \<longleftrightarrow> (\<exists>b0. answered (OTMB b0) h \<and> om_UID (tmbMeta b) = om_UID (tmbMeta b0) \<and> om_Namespace (tmbMeta b) = om_Namespace (tmbMeta b0) \<and>
     om_DeletionTimestamp (tmbMeta b) = om_DeletionTimestamp (tmbMeta b0) \<and> tmb_Profile b = tmb_Profile b0 \<and> tmb_Backend b = tmb_Backend b0 \<and>
     tmb_Weight b \<in> {tmb_Weight b0, setDefault 1 (tmb_Weight b0)})"

definition programmed :: "Lib \<Rightarrow> TrafficManagerProfile \<Rightarrow> bool" where
  "programmed L p = LibIsConditionStatusTrue L (LibFindStatusCondition L (tmp_Conditions p) TrafficManagerProfileConditionProgrammed) (om_Generation (tmp_ObjectMeta p))"

definition azureRead :: "TrafficManagerProfile \<Rightarrow> AzureProfile \<Rightarrow> trace \<Rightarrow> bool" where
  "azureRead p az h \<longleftrightarrow> answered (OTMP p) h \<and> (ProfilesGet (tmp_ResourceGroup p) (GenerateAzureTrafficManagerProfileName p), RProfile az) \<in> set h"

definition azureDeleted :: "response \<Rightarrow> bool" where
  "azureDeleted a = (case decOk a of None \<Rightarrow> True | Some e \<Rightarrow> AzIsNotFound e)"

text \<open>
  The naming convention of the endpoints of a backend, \<open>fleet-{UID}#{service}#{cluster}\<close>: a name is the backend's own
  if it begins with \<open>fleet-{UID}#\<close> in exactly these letters, also with regard to their case.
\<close>

definition namedAfter :: "TrafficManagerBackend \<Rightarrow> string \<Rightarrow> bool" where
  "namedAfter b nm \<longleftrightarrow> (\<exists>rest. nm = ''fleet-'' @ om_UID (tmbMeta b) @ ''#'' @ rest)"

text \<open>Every endpoint that Azure has reported under a name of the backend was deleted since, or found to be gone.\<close>

definition removedAll :: "TrafficManagerBackend \<Rightarrow> TrafficManagerProfile \<Rightarrow> AzureProfile \<Rightarrow> trace \<Rightarrow> bool" where
  "removedAll b p az h \<longleftrightarrow> (\<forall>e \<in> set (endpointsOf az). \<forall>nm. ae_Name e = Some nm \<and> namedAfter b nm \<longrightarrow> (\<exists>prof a.
     ap_Name az = Some prof \<and> (EndpointsDelete (tmp_ResourceGroup p) prof nm, a) \<in> set h \<and> azureDeleted a))"

text \<open>
  Nothing is left in Azure under a name of the backend: there is no profile, or every endpoint with such a name is
  deleted. An endpoint whose name differs in the case of a letter does not count: the clean-up leaves it
  (\<open>TMB_cleanup_is_case_sensitive\<close>).
\<close>

definition endpointsGone :: "TrafficManagerBackend \<Rightarrow> trace \<Rightarrow> bool" where
  "endpointsGone b h \<longleftrightarrow> absent Hub KTrafficManagerProfile (profileKey b) h \<or>
     (\<exists>p e. answered (OTMP p) h \<and> (ProfilesGet (tmp_ResourceGroup p) (GenerateAzureTrafficManagerProfileName p), RErr e) \<in> set h \<and> AzIsNotFound e) \<or>
     (\<exists>p az. azureRead p az h \<and> removedAll b p az h)"

text \<open>What the exports behind the service import ask for.\<close>

definition planned :: "Lib \<Rightarrow> trace \<Rightarrow> TrafficManagerBackend \<Rightarrow> ServiceImport \<Rightarrow> InternalServiceExport list \<Rightarrow> desiredEndpoint gomap \<Rightarrow> err gomap \<Rightarrow> bool" where
  "planned L h b s items desired invalid \<longleftrightarrow> viewed b h \<and> answered (OSI s) h \<and> listed Hub KInternalServiceExport (exportsOf s) (map OISE items) h \<and>
     (\<exists>w. tmb_Weight b = Some w \<and> w \<noteq> 0 \<and> TMB_desired (LibIndefiniteInt L) b w items (sis_Clusters (si_Status s)) = Inr (desired, invalid))"

text \<open>An endpoint of the status: Azure has answered with it, and it is as desired or is the answer to the desired one.\<close>

definition confirmed :: "trace \<Rightarrow> TrafficManagerEndpointStatus \<Rightarrow> bool" where
  "confirmed h t \<longleftrightarrow> (\<exists>e d. buildAcceptedEndpointStatus e d = Some t \<and>
     ((\<exists>p az. azureRead p az h \<and> e \<in> set (endpointsOf az) \<and> equalAzureTrafficManagerEndpoint e (de_Endpoint d) = Some True) \<or>
      (\<exists>rg prof nm. (EndpointsCreateOrUpdate rg prof nm (de_Endpoint d), REndpoint e) \<in> set h)))"

definition behind :: "TrafficManagerEndpointStatus list \<Rightarrow> string \<Rightarrow> bool" where
  "behind ts c \<longleftrightarrow> (\<exists>t \<in> set ts. \<exists>f. tes_From t = Some f \<and> fc_Cluster f = c)"

text \<open>
  The status that is reported: every endpoint in it is confirmed, none is in it while the state is unknown,
  and Accepted is true only when the weight is zero and all endpoints are deleted, or when every cluster of the
  service import is behind an endpoint.
\<close>

definition reportsEndpoints :: "Lib \<Rightarrow> trace \<Rightarrow> TrafficManagerBackend \<Rightarrow> Condition \<Rightarrow> bool" where
  "reportsEndpoints L h b c \<longleftrightarrow> c_Type c = TrafficManagerBackendConditionAccepted \<and> c_ObservedGeneration c = om_Generation (tmbMeta b) \<and>
     (\<forall>t \<in> set (tmb_Endpoints b). confirmed h t) \<and>
     (case c_Status c of
        ConditionUnknown \<Rightarrow> tmb_Endpoints b = []
      | ConditionFalse \<Rightarrow> True
      | ConditionTrue \<Rightarrow>
          (\<exists>b0 p az. tmb_Endpoints b = [] \<and> viewed b0 h \<and> tmb_Weight b0 = Some 0 \<and> azureRead p az h \<and> removedAll b0 p az h) \<or>
          (\<exists>b0 s items desired invalid. planned L h b0 s items desired invalid \<and> mlen invalid = 0 \<and>
             (\<forall>x \<in> set (sis_Clusters (si_Status s)). behind (tmb_Endpoints b) (cs_Cluster x))))"

text \<open>Why an endpoint is deleted.\<close>

definition unwanted :: "Lib \<Rightarrow> trace \<Rightarrow> TrafficManagerBackend \<Rightarrow> AzureProfile \<Rightarrow> string \<Rightarrow> bool" where
  "unwanted L h b az nm \<longleftrightarrow> om_DeletionTimestamp (tmbMeta b) \<noteq> None \<or> absent Hub KServiceImport (serviceImportKey b) h \<or> tmb_Weight b = Some 0 \<or>
     (\<exists>b0 s items desired invalid. planned L h b0 s items desired invalid \<and> (mget desired (ToLower nm) = None \<or> \<not> distinctNames az))"

definition TMB_guard :: "Lib \<Rightarrow> trace \<Rightarrow> request \<Rightarrow> bool" where
  "TMB_guard L h q \<longleftrightarrow>
     (case q of
        EndpointsCreateOrUpdate rg prof nm ep \<Rightarrow> recorded hasTMBFinalizer h \<and>
          (\<exists>p az. azureRead p az h \<and> programmed L p \<and> rg = tmp_ResourceGroup p \<and> ap_Name az = Some prof) \<and>
          (\<exists>b s items desired invalid k d c e. planned L h b s items desired invalid \<and> mget desired k = Some d \<and> ep = de_Endpoint d \<and>
             (c, e) \<in> set (servedBy items (sis_Clusters (si_Status s))) \<and> nm = ''fleet-'' @ om_UID (tmbMeta b) @ ''#'' @ tmb_Backend b @ ''#'' @ c \<and> ae_Name ep = Some nm \<and>
             map_option aep_TargetResourceID (ae_Properties ep) = Some (ises_PublicIPResourceID (ise_Spec e)))
      | EndpointsDelete rg prof nm \<Rightarrow>
          (\<exists>b p az. viewed b h \<and> azureRead p az h \<and> rg = tmp_ResourceGroup p \<and> ap_Name az = Some prof \<and> Some nm \<in> ae_Name ` set (endpointsOf az) \<and>
             (namedAfter b nm \<or> namedAfter b (ToLower nm)) \<and> unwanted L h b az nm)
      | Update cl x \<Rightarrow> cl = Hub \<and> (\<exists>b0 b. answered (OTMB b0) h \<and> x = OTMB b \<and>
          (hasTMBFinalizer (OTMB b0) \<longrightarrow> hasTMBFinalizer x \<or> endpointsGone b h \<and> om_DeletionTimestamp (tmbMeta b0) \<noteq> None))
      | StatusUpdate cl x \<Rightarrow> cl = Hub \<and> (\<exists>b cs c. x = OTMB b \<and> tmb_Conditions b = LibSetStatusCondition L cs c \<and> reportsEndpoints L h b c)
      | Create cl x \<Rightarrow> False
      | Delete cl kd n \<Rightarrow> False
      | ProfilesCreateOrUpdate rg nm a \<Rightarrow> False
      | ProfilesDelete rg nm \<Rightarrow> False
      | _ \<Rightarrow> True)"

text \<open>What a panic needs: an incomplete answer of Azure.\<close>

definition incompleteAnswer :: "trace \<Rightarrow> bool" where
  "incompleteAnswer h \<longleftrightarrow>
     (\<exists>rg nm az. (ProfilesGet rg nm, RProfile az) \<in> set h \<and> (ap_Properties az = None \<or> ap_Name az = None)) \<or>
     (\<exists>rg prof nm ep e. (EndpointsCreateOrUpdate rg prof nm ep, REndpoint e) \<in> set h \<and> (ae_Name e = None \<or> ae_Properties e = None))"

text \<open>Objects and answers for the examples: an exported service, and an endpoint of a cluster that is gone.\<close>

definition demoRegistered :: "string list \<Rightarrow> TrafficManagerBackend" where
  "demoRegistered fs = demoBackend\<lparr>tmb_ObjectMeta := (tmbMeta demoBackend)\<lparr>om_Finalizers := fs\<rparr>\<rparr>"

definition demoProgrammed :: TrafficManagerProfile where
  "demoProgrammed = demoProfile\<lparr>tmp_Conditions := [programmedCondition demoProfile None]\<rparr>"

definition demoStale :: AzureEndpoint where
  "demoStale = \<lparr>ae_ID = None, ae_Name = Some ''Fleet-u2#svc#old'', ae_Type = None, ae_Properties = None\<rparr>"

definition demoAzureProfile :: AzureProfile where
  "demoAzureProfile = demoAzure\<lparr>ap_Name := Some ''fleet-u1'', ap_Properties := Some \<lparr>app_DNSConfig = None, app_MonitorConfig = None, app_ProfileStatus = None,
     app_TrafficRoutingMethod = None, app_Endpoints = [demoStale], app_MaxReturn = None\<rparr>\<rparr>"

definition demoServed :: ServiceImport where
  "demoServed = demoImport\<lparr>si_Status := zeroSIStatus\<lparr>sis_Clusters := [\<lparr>cs_Cluster = ''c1''\<rparr>]\<rparr>\<rparr>"

definition demoEndpoint :: "string \<Rightarrow> response" where
  "demoEndpoint c = REndpoint ((generateAzureTrafficManagerEndpoint demoBackend (demoEndpointExport c 1))\<lparr>ae_ID := Some c\<rparr>)"

definition demoBackendAnswers :: "AzureProfile \<Rightarrow> response list" where
  "demoBackendAnswers az = [RObj (OTMB (demoRegistered [MetricsFinalizer])), RObj (OTMP demoProgrammed), RProfile az, RObj (OSI demoServed),
     RObjs (map OISE demoExports), RObj (OTMB (demoRegistered [MetricsFinalizer, TrafficManagerBackendFinalizer])), ROk, demoEndpoint ''c1'', ROk,
     RObj (OTMB demoBackend)]"

definition demoLeaving :: TrafficManagerBackend where
  "demoLeaving = demoBackend\<lparr>tmb_ObjectMeta := (tmbMeta demoBackend)\<lparr>om_Finalizers := [TrafficManagerBackendFinalizer], om_DeletionTimestamp := Some 1\<rparr>\<rparr>"

definition demoLeavingRun :: trace where
  "demoLeavingRun = fst (play [RObj (OTMB demoLeaving), RObj (OTMP demoProgrammed), RProfile demoAzureProfile, ROk, ROk, ROk, ROk] (TMB_Reconcile refLib (metaKey (tmbMeta demoBackend))))"

section \<open>Lemmas\<close>

interpretation tmbf: finalized OTMB tmb_ObjectMeta "\<lambda>om b. b\<lparr>tmb_ObjectMeta := om\<rparr>" TrafficManagerBackendFinalizer hasTMBFinalizer KTrafficManagerBackend
  by unfold_locales (simp_all add: hasTMBFinalizer_def)

lemma observed_mono [simp]:
  "viewed b h \<Longrightarrow> viewed b (h @ k)" "azureRead p az h \<Longrightarrow> azureRead p az (h @ k)"
  "planned L h b s items desired invalid \<Longrightarrow> planned L (h @ k) b s items desired invalid"
  by (auto simp: viewed_def azureRead_def planned_def intro: answered_mono listed_mono)

lemma confirmed_mono [simp]: "confirmed h t \<Longrightarrow> confirmed (h @ k) t"
  unfolding confirmed_def by (metis UnCI observed_mono(2) set_append)

subsection \<open>The desired endpoints\<close>

lemma TMB_collect_origin:
  assumes "TMB_collect b (internalServiceExportMap items) cs st = Inr st'" and "mget (cl_desired st') k = Some d"
  shows "mget (cl_desired st) k = Some d \<or> (\<exists>(c, e) \<in> set (servedBy items cs). k = endpointNameOf b c \<and> d = desiredFor b c e)"
  using assms
proof (induction cs arbitrary: st)
  case (Cons c cs)
  obtain e where e: "mget (internalServiceExportMap items) (cs_Cluster c) = Some e" using Cons.prems(1) by (auto split: option.splits)
  note [simp] = e internalServiceExportMap_key(1) [OF e]
  show ?case
  proof (cases "isValidTrafficManagerEndpoint e")
    case None
    then show ?thesis using Cons.prems Cons.IH [OF _ Cons.prems(2)] by (fastforce simp: servedBy_def split: if_splits)
  next
    case (Some er)
    then show ?thesis using Cons.prems Cons.IH [OF _ Cons.prems(2)] by (fastforce simp: servedBy_def)
  qed
qed simp

lemma TMB_collect_covers:
  assumes "TMB_collect b (internalServiceExportMap items) cs st = Inr st'"
  shows "(\<forall>k d. mget (cl_desired st) k = Some d \<longrightarrow> (\<exists>d'. mget (cl_desired st') k = Some d')) \<and> (mlen (cl_invalid st') = 0 \<longrightarrow> mlen (cl_invalid st) = 0) \<and>
    (mlen (cl_invalid st') = 0 \<longrightarrow> (\<forall>c \<in> set cs. \<exists>d. mget (cl_desired st') (endpointNameOf b (cs_Cluster c)) = Some d))"
  using assms
proof (induction cs arbitrary: st)
  case (Cons c cs)
  obtain e where e: "mget (internalServiceExportMap items) (cs_Cluster c) = Some e" using Cons.prems(1) by (auto split: option.splits)
  note [simp] = e internalServiceExportMap_key(1) [OF e]
  show ?case
  proof (cases "isValidTrafficManagerEndpoint e")
    case None
    let ?st = "st\<lparr>cl_desired := mapPut (endpointNameOf b (cs_Cluster c)) (desiredFor b (cs_Cluster c) e) (cl_desired st), cl_total := wrap64 (cl_total st + exportWeight e)\<rparr>"
    have "TMB_collect b (internalServiceExportMap items) cs ?st = Inr st'" using Cons.prems None by simp
    from Cons.IH [OF this] show ?thesis by (auto split: if_splits)
  next
    case (Some er)
    then have "TMB_collect b (internalServiceExportMap items) cs (st\<lparr>cl_invalid := mapPut (cs_Cluster c) er (cl_invalid st)\<rparr>) = Inr st'" using Cons.prems by simp
    from Cons.IH [OF this] show ?thesis by (auto simp: mlen_0 split: if_splits)
  qed
qed simp

lemma mget_map_value: "mget (map_option (map (\<lambda>(k, v). (k, f v))) m) k = map_option f (mget m k)"
  by (cases m) (simp_all add: map_of_map)

lemma TMB_desired_origin:
  assumes "TMB_desired i b w items cs = Inr (desired, invalid)" and "mget desired k = Some d"
  obtains c e n q where "(c, e) \<in> set (servedBy items cs)" "k = endpointNameOf b c" "de_FromCluster d = \<lparr>fc_Cluster = c, fc_Weight = Some (exportWeight e)\<rparr>"
    "ae_Name (de_Endpoint d) = Some k" "ae_Type (de_Endpoint d) = Some azureEndpointType"
    "ae_Properties (de_Endpoint d) = Some \<lparr>aep_Target = None, aep_TargetResourceID = Some q, aep_EndpointStatus = Some ''Enabled'', aep_Weight = Some n, aep_Priority = None\<rparr>"
    "ises_PublicIPResourceID (ise_Spec e) = Some q"
proof -
  from assms(1) obtain st where st: "TMB_collect b (internalServiceExportMap items) cs \<lparr>cl_desired = Some [], cl_invalid = Some [], cl_total = 0\<rparr> = Inr st"
    "desired = map_option (map (\<lambda>(k, d). (k, reweighed i w (cl_total st) d))) (cl_desired st)"
    by (auto simp: TMB_desired_def split: sum.splits)
  obtain d0 where d0: "mget (cl_desired st) k = Some d0" "d = reweighed i w (cl_total st) d0" using assms(2) by (auto simp: st(2) mget_map_value)
  from TMB_collect_origin [OF st(1) d0(1)] obtain c e where ce: "(c, e) \<in> set (servedBy items cs)" "k = endpointNameOf b c" "d0 = desiredFor b c e" by auto
  have e: "mget (internalServiceExportMap items) c = Some e" "isValidTrafficManagerEndpoint e = None" using ce(1) by (auto simp: servedBy_def split: option.splits if_splits)
  then obtain q where "ises_PublicIPResourceID (ise_Spec e) = Some q" by (auto simp: isValidTrafficManagerEndpoint_def Let_def split: if_splits)
  with e(1) show ?thesis
    by (intro that [OF ce(1,2)]) (simp_all add: d0 ce reweighed_def desiredFor_def generateAzureTrafficManagerEndpoint_def internalServiceExportMap_key(1))
qed

lemma TMB_desired_covers:
  assumes "TMB_desired i b w items cs = Inr (desired, invalid)" and "mlen invalid = 0" and "c \<in> set cs"
  obtains d where "mget desired (endpointNameOf b (cs_Cluster c)) = Some d" "fc_Cluster (de_FromCluster d) = cs_Cluster c"
proof -
  from assms(1) obtain st where st: "TMB_collect b (internalServiceExportMap items) cs \<lparr>cl_desired = Some [], cl_invalid = Some [], cl_total = 0\<rparr> = Inr st"
    "desired = map_option (map (\<lambda>(k, d). (k, reweighed i w (cl_total st) d))) (cl_desired st)" "invalid = cl_invalid st"
    by (auto simp: TMB_desired_def split: sum.splits)
  with TMB_collect_covers [OF st(1)] assms(2,3) obtain d0 where "mget (cl_desired st) (endpointNameOf b (cs_Cluster c)) = Some d0" by auto
  then have d: "mget desired (endpointNameOf b (cs_Cluster c)) = Some (reweighed i w (cl_total st) d0)" by (simp add: st(2) mget_map_value)
  with TMB_desired_origin [OF assms(1) this] show ?thesis by (metis endpointNameOf_inject that FromCluster.select_convs(1))
qed

subsection \<open>The status\<close>

lemma TMB_guard_other [simp]:
  "TMB_guard L h (Get c kd n)" "TMB_guard L h (ListObjs c kd sel)" "TMB_guard L h (Eventf kd n t r m)" "TMB_guard L h (ProfilesGet rg nm)"
  "TMB_guard L h (MetricSet m ls)" "TMB_guard L h (MetricDeletePartial m a b)"
  by (simp_all add: TMB_guard_def)

lemma guard_status:
  assumes "tmb_Conditions b = LibSetStatusCondition L cs c" and "reportsEndpoints L h b c"
  shows "TMB_guard L h (StatusUpdate Hub (OTMB b))"
  using assms unfolding TMB_guard_def by auto

lemmas status_simps = setUnknownCondition_def setFalseCondition_def setTrueCondition_def reportsEndpoints_def acceptedCondition_def

lemma guard_unknown [simp]: "TMB_guard L h (StatusUpdate Hub (OTMB (setUnknownCondition L b m)))"
  by (rule guard_status [where cs = "tmb_Conditions b" and c = "acceptedCondition b ConditionUnknown TrafficManagerBackendReasonPending m"]) (simp_all add: status_simps)

lemma guard_false:
  assumes "\<forall>t \<in> set ts. confirmed h t"
  shows "TMB_guard L h (StatusUpdate Hub (OTMB (setFalseCondition L b ts m)))"
  by (rule guard_status [where cs = "tmb_Conditions b" and c = "acceptedCondition b ConditionFalse TrafficManagerBackendReasonInvalid m"])
    (use assms in \<open>simp_all add: status_simps\<close>)

lemma guard_true:
  assumes "\<forall>t \<in> set ts. confirmed h t"
    and "(\<exists>b0 p az. ts = [] \<and> viewed b0 h \<and> tmb_Weight b0 = Some 0 \<and> azureRead p az h \<and> removedAll b0 p az h) \<or>
      (\<exists>b0 s items desired invalid. planned L h b0 s items desired invalid \<and> mlen invalid = 0 \<and> (\<forall>x \<in> set (sis_Clusters (si_Status s)). behind ts (cs_Cluster x)))"
  shows "TMB_guard L h (StatusUpdate Hub (OTMB (setTrueCondition L b ts)))"
  by (rule guard_status [where cs = "tmb_Conditions b" and c = "acceptedCondition b ConditionTrue TrafficManagerBackendReasonAccepted
      (FormatInt (int (length ts)) @ '' service(s) exported from clusters have been accepted as Traffic Manager endpoints'')"])
    (use assms in \<open>simp_all add: status_simps\<close>)

lemma TMB_updateStatus_wp:
  assumes "TMB_guard L h (StatusUpdate Hub (OTMB b))"
  shows "wp (TMB_guard L) (\<lambda>_ _. True) (TMB_updateStatus L b) h" and "wp (TMB_guard L) (\<lambda>_ _. True) (TMB_reportThen L b er) h"
  using assms by (auto simp: TMB_updateStatus_def TMB_reportThen_def prog_simps decUpd_def split: sum.splits option.splits)

lemma TMB_stop_wp:
  assumes "TMB_guard L h (StatusUpdate Hub (OTMB b))" and "\<And>h' r. Q h' (f r)"
  shows "wp (TMB_guard L) Q (bindP (TMB_updateStatus L b) (\<lambda>r. Ret (f r))) h"
    and "wp (TMB_guard L) Q (bindP (TMB_reportThen L b er) (\<lambda>r. Ret (f r))) h"
  by (rule wp_bindI [OF TMB_updateStatus_wp(1) [OF assms(1)]], simp add: assms(2))
    (rule wp_bindI [OF TMB_updateStatus_wp(2) [OF assms(1)]], simp add: assms(2))

subsection \<open>The clean-up\<close>

lemma owned_iff: "isEndpointOwnedByBackend b nm \<longleftrightarrow> namedAfter b nm"
  by (simp add: isEndpointOwnedByBackend_def generateAzureTrafficManagerEndpointNamePrefix_def AzureResourceEndpointNamePrefix_def namedAfter_def HasPrefix_iff)

lemma endpointNameOf_iff: "endpointNameOf b c = ''fleet-'' @ om_UID (tmbMeta b) @ ''#'' @ tmb_Backend b @ ''#'' @ c"
  by (simp add: endpointNameOf_def AzureResourceEndpointNameFormat_def generateAzureTrafficManagerEndpointNamePrefix_def AzureResourceEndpointNamePrefix_def)

lemma ownedNames_iff: "nm \<in> set (ownedNames b es) \<longleftrightarrow> (\<exists>e \<in> set es. ae_Name e = Some nm \<and> namedAfter b nm)"
  by (auto simp: ownedNames_def owned_iff split: option.splits if_splits) (metis option.inject)

lemma removedAll_iff:
  "removedAll b p az h \<longleftrightarrow> (\<forall>nm \<in> set (ownedNames b (endpointsOf az)). \<exists>prof a.
     ap_Name az = Some prof \<and> (EndpointsDelete (tmp_ResourceGroup p) prof nm, a) \<in> set h \<and> azureDeleted a)"
  unfolding removedAll_def Ball_def [of "set (ownedNames b (endpointsOf az))"] ownedNames_iff by blast

lemma guard_delete:
  assumes "viewed b h" and "azureRead p az h" and "ap_Name az = Some prof" and "Some nm \<in> ae_Name ` set (endpointsOf az)"
    and "namedAfter b nm \<or> namedAfter b (ToLower nm)" and "unwanted L h b az nm"
  shows "TMB_guard L h (EndpointsDelete (tmp_ResourceGroup p) prof nm)"
  unfolding TMB_guard_def request.case using assms by blast

lemma TMB_deleteEndpoint_wp:
  assumes "TMB_guard L h (EndpointsDelete rg prof nm)"
  shows "wp (TMB_guard L) (\<lambda>h' r. (\<exists>k. h' = h @ k) \<and> (r = None \<longrightarrow> (\<exists>a. (EndpointsDelete rg prof nm, a) \<in> set h' \<and> azureDeleted a))) (TMB_deleteEndpoint rg prof nm) h"
  using assms by (auto simp: TMB_deleteEndpoint_def prog_simps azureDeleted_def split: option.splits)

lemma TMB_cleanup_wp:
  assumes "errgroup_laws L" and "viewed b h" and "azureRead p az h" and "\<And>k nm. unwanted L (h @ k) b az nm"
  shows "wp (TMB_guard L) (\<lambda>h' r. (\<exists>k. h' = h @ k) \<and> (r = None \<longrightarrow> removedAll b p az h')) (TMB_cleanupEndpoints L (tmp_ResourceGroup p) b az) h"
proof (cases "ap_Properties az")
  case None
  then show ?thesis by (simp add: TMB_cleanupEndpoints_def removedAll_def endpointsOf_def)
next
  case (Some q)
  show ?thesis
  proof (cases "ap_Name az")
    case None
    with Some show ?thesis by (simp add: TMB_cleanupEndpoints_def)
  next
    case (Some prof)
    have eps: "endpointsOf az = app_Endpoints q" using \<open>ap_Properties az = Some q\<close> by (simp add: endpointsOf_def)
    have guard: "TMB_guard L (h @ k) (EndpointsDelete (tmp_ResourceGroup p) prof nm)" if "nm \<in> set (ownedNames b (app_Endpoints q))" for k nm
    proof -
      have "Some nm \<in> ae_Name ` set (endpointsOf az)" "namedAfter b nm" using that by (auto simp: ownedNames_iff eps intro: rev_image_eqI)
      then show ?thesis using assms Some by (intro guard_delete [of b]) simp_all
    qed
    have "wp (TMB_guard L) (\<lambda>h' r. (\<exists>k. h' = h @ k) \<and> (r = None \<longrightarrow> (\<forall>nm \<in> set (ownedNames b (app_Endpoints q)).
        None = (None :: err option) \<longrightarrow> (\<exists>a. (EndpointsDelete (tmp_ResourceGroup p) prof nm, a) \<in> set h' \<and> azureDeleted a))))
      (LibErrGroup L (map (TMB_deleteEndpoint (tmp_ResourceGroup p) prof) (ownedNames b (app_Endpoints q)))) h"
    proof (rule wp_errgroup_map [where I = "\<lambda>h'. \<exists>k. h' = h @ k" and
          R = "\<lambda>nm h' r. r = None \<longrightarrow> (\<exists>a. (EndpointsDelete (tmp_ResourceGroup p) prof nm, a) \<in> set h' \<and> azureDeleted a)", OF assms(1)])
      fix nm h'
      assume nm: "nm \<in> set (ownedNames b (app_Endpoints q))" and "\<exists>k. h' = h @ k"
      then obtain k where "h' = h @ k" by blast
      with TMB_deleteEndpoint_wp [OF guard [OF nm, of k]]
      show "wp (TMB_guard L) (\<lambda>h' r. (\<exists>k. h' = h @ k) \<and> (r = None \<longrightarrow> (\<exists>a. (EndpointsDelete (tmp_ResourceGroup p) prof nm, a) \<in> set h' \<and> azureDeleted a)))
        (TMB_deleteEndpoint (tmp_ResourceGroup p) prof nm) h'" by (auto elim!: wp_conseq)
    qed (auto intro: exI [of _ "[]"])
    then show ?thesis
      by (rule_tac wp_conseq) (auto simp: TMB_cleanupEndpoints_def \<open>ap_Properties az = Some q\<close> Some removedAll_iff eps)
  qed
qed

subsection \<open>The update of endpoints\<close>

text \<open>The first loop, after the endpoints \<open>pre\<close>: what is no longer to be written is accepted.\<close>

definition visited :: "desiredEndpoint gomap \<Rightarrow> AzureEndpoint list \<Rightarrow> trace \<Rightarrow> endpointState \<Rightarrow> bool" where
  "visited desired pre h st \<longleftrightarrow> (\<forall>t \<in> set (snd st). confirmed h t) \<and> (\<forall>k d. mget (fst st) k = Some d \<longrightarrow> mget desired k = Some d) \<and>
     (\<forall>k d. mget desired k = Some d \<and> mget (fst st) k = None \<longrightarrow>
        (\<exists>t \<in> set (snd st). tes_From t = Some (de_FromCluster d)) \<and> (\<exists>e \<in> set pre. \<exists>nm. ae_Name e = Some nm \<and> ToLower nm = k))"

lemma visited_mono: "visited desired pre h st \<Longrightarrow> visited desired (pre @ post) (h @ k) st"
  by (fastforce simp: visited_def)

lemma same_name_twice:
  assumes "endpointsOf az = pre @ e # post" and "ae_Name e = Some nm" and "e' \<in> set pre" and "ae_Name e' = Some nm'" and "ToLower nm' = ToLower nm"
  shows "\<not> distinctNames az"
proof -
  from assms(3) obtain p1 p2 where "pre = p1 @ e' # p2" by (meson split_list)
  with assms show ?thesis by (simp add: distinctNames_def)
qed

lemma buildAccepted_From: "buildAcceptedEndpointStatus e d = Some t \<Longrightarrow> tes_From t = Some (de_FromCluster d)"
  by (auto simp: buildAcceptedEndpointStatus_def split: option.splits)

lemma TMB_drop_wp:
  assumes "TMB_guard L h (EndpointsDelete rg prof nm)" and "ap_Name az = Some prof" and "visited desired pre h st"
  shows "wp (TMB_guard L) (\<lambda>h' r. case r of Inl _ \<Rightarrow> True | Inr st' \<Rightarrow> visited desired (pre @ [e]) h' st' \<and> (\<exists>k. h' = h @ k)) (TMB_dropEndpoint L rg b az nm st) h"
  using assms(1,2) visited_mono [OF assms(3)]
  by (auto simp: TMB_dropEndpoint_def prog_simps split: option.splits intro!: TMB_stop_wp(2))

lemma TMB_visit_wp:
  assumes plan: "planned L h b0 s items desired invalid" and b: "viewed b h" and az: "azureRead p az h"
    and split: "endpointsOf az = pre @ e # post" and st: "visited desired pre h st"
  shows "wp (TMB_guard L) (\<lambda>h' r. case r of Inl _ \<Rightarrow> True | Inr st' \<Rightarrow> visited desired (pre @ [e]) h' st' \<and> (\<exists>k. h' = h @ k))
    (TMB_visitEndpoint L (tmp_ResourceGroup p) b az e st) h"
proof (cases "ae_Name e")
  case None
  with visited_mono [OF st, of "[e]" "[]"] show ?thesis by (simp add: TMB_visitEndpoint_def)
next
  case (Some nm)
  have skip: "visited desired (pre @ [e]) h st" using visited_mono [OF st, of "[e]" "[]"] by simp
  have drop: "TMB_guard L h (EndpointsDelete (tmp_ResourceGroup p) prof nm)"
    if "isEndpointOwnedByBackend b (ToLower nm)" "mget (fst st) (ToLower nm) = None" "ap_Name az = Some prof" for prof
  proof -
    have "mget desired (ToLower nm) = None \<or> \<not> distinctNames az"
      using st that(2) same_name_twice [OF split Some] unfolding visited_def by (metis option.exhaust)
    with plan have "unwanted L h b az nm" unfolding unwanted_def by blast
    moreover have "Some nm \<in> ae_Name ` set (endpointsOf az)" using split Some by (auto simp: image_iff)
    ultimately show ?thesis using b az that by (intro guard_delete [of b]) (simp_all add: owned_iff)
  qed
  have accept: "visited desired (pre @ [e]) h (mdel (ToLower nm) (fst st), snd st @ [x])"
    if "mget (fst st) (ToLower nm) = Some d" "equalAzureTrafficManagerEndpoint e (de_Endpoint d) = Some True" "buildAcceptedEndpointStatus e d = Some x" for d x
  proof -
    have "e \<in> set (endpointsOf az)" using split by simp
    then have "confirmed h x" unfolding confirmed_def using that(2,3) az by blast
    moreover have "mget desired (ToLower nm) = Some d" using st that(1) by (simp add: visited_def)
    ultimately show ?thesis using st buildAccepted_From [OF that(3)] Some unfolding visited_def by (auto split: if_splits)
  qed
  have "wp (TMB_guard L) (\<lambda>h' r. case r of Inl _ \<Rightarrow> True | Inr st' \<Rightarrow> visited desired (pre @ [e]) h' st' \<and> (\<exists>k. h' = h @ k))
      (TMB_dropEndpoint L (tmp_ResourceGroup p) b az nm st) h"
    if "isEndpointOwnedByBackend b (ToLower nm)" "mget (fst st) (ToLower nm) = None"
    using TMB_drop_wp [OF drop [OF that] _ st, where e = e and b = b] by (cases "ap_Name az") (simp_all add: TMB_dropEndpoint_def)
  then show ?thesis
    using skip accept by (auto simp: TMB_visitEndpoint_def Some split: option.splits)
qed

text \<open>The second loop, after the keys \<open>pre\<close>: as long as no error of the user has been collected, what was to be written is accepted.\<close>

definition placed :: "desiredEndpoint gomap \<Rightarrow> desiredEndpoint gomap \<Rightarrow> string list \<Rightarrow> trace \<Rightarrow> TrafficManagerEndpointStatus list \<times> err list \<Rightarrow> bool" where
  "placed desired m pre h st \<longleftrightarrow> (\<forall>t \<in> set (fst st). confirmed h t) \<and>
     (snd st = [] \<longrightarrow> (\<forall>k d. mget desired k = Some d \<and> (mget m k = None \<or> k \<in> set pre) \<longrightarrow> (\<exists>t \<in> set (fst st). tes_From t = Some (de_FromCluster d))))"

lemma placed_bad: "placed desired m pre h st \<Longrightarrow> placed desired m (pre @ [k]) (h @ h1) (fst st, snd st @ [x])"
  by (simp add: placed_def)

lemma guard_create:
  assumes "recorded hasTMBFinalizer h" and "azureRead p az h" and "programmed L p" and "ap_Name az = Some prof"
    and plan: "planned L h b0 s items desired invalid" and k: "mget desired k = Some d"
  shows "TMB_guard L h (EndpointsCreateOrUpdate (tmp_ResourceGroup p) prof k (de_Endpoint d))" and "ae_Name (de_Endpoint d) = Some k"
proof -
  from plan obtain w where "TMB_desired (LibIndefiniteInt L) b0 w items (sis_Clusters (si_Status s)) = Inr (desired, invalid)" by (auto simp: planned_def)
  from TMB_desired_origin [OF this k] obtain c e n q where o: "(c, e) \<in> set (servedBy items (sis_Clusters (si_Status s)))" "k = endpointNameOf b0 c"
    "ae_Name (de_Endpoint d) = Some k" "ises_PublicIPResourceID (ise_Spec e) = Some q"
    "ae_Properties (de_Endpoint d) = Some \<lparr>aep_Target = None, aep_TargetResourceID = Some q, aep_EndpointStatus = Some ''Enabled'', aep_Weight = Some n, aep_Priority = None\<rparr>"
    by metis
  have "map_option aep_TargetResourceID (ae_Properties (de_Endpoint d)) = Some (ises_PublicIPResourceID (ise_Spec e))" using o by simp
  with o(1,3) o(2) [unfolded endpointNameOf_iff] plan k assms(1-4) show "TMB_guard L h (EndpointsCreateOrUpdate (tmp_ResourceGroup p) prof k (de_Endpoint d))"
    unfolding TMB_guard_def request.case by blast
  show "ae_Name (de_Endpoint d) = Some k" by (rule o(3))
qed

lemma TMB_programEndpoint_wp:
  assumes fin: "recorded hasTMBFinalizer h" and az: "azureRead p az h" and prog: "programmed L p" and plan: "planned L h b0 s items desired invalid"
    and m: "\<And>k d. mget m k = Some d \<Longrightarrow> mget desired k = Some d" and st: "placed desired m pre h st" and k: "mget m k \<noteq> None"
  shows "wp (TMB_guard L) (\<lambda>h' r. case r of Inl _ \<Rightarrow> True | Inr st' \<Rightarrow> placed desired m (pre @ [k]) h' st' \<and> (\<exists>k. h' = h @ k))
    (TMB_programEndpoint L (tmp_ResourceGroup p) b az m k st) h"
proof (cases "ap_Name az")
  case None
  then show ?thesis using k by (auto simp: TMB_programEndpoint_def split: option.splits)
next
  case (Some prof)
  obtain d where d: "mget m k = Some d" using k by blast
  note g = guard_create [OF fin az prog Some plan m [OF d]]
  have acc: "placed desired m (pre @ [k]) (h @ [(EndpointsCreateOrUpdate (tmp_ResourceGroup p) prof k (de_Endpoint d), REndpoint e), y]) (fst st @ [x], snd st)"
    if "buildAcceptedEndpointStatus e d = Some x" for e x y
  proof -
    have "confirmed (h @ [(EndpointsCreateOrUpdate (tmp_ResourceGroup p) prof k (de_Endpoint d), REndpoint e), y]) x"
      unfolding confirmed_def using that by fastforce
    then show ?thesis using st buildAccepted_From [OF that] m [OF d] by (auto simp: placed_def)
  qed
  show ?thesis
    using placed_bad [OF st, of k] acc
    by (auto simp: TMB_programEndpoint_def d g Some prog_simps split: option.splits sum.splits intro!: TMB_stop_wp(2))
qed

text \<open>What the update of the endpoints has achieved.\<close>

definition endpointsSettled :: "desiredEndpoint gomap \<Rightarrow> trace \<Rightarrow> TrafficManagerEndpointStatus list \<Rightarrow> err list \<Rightarrow> bool" where
  "endpointsSettled desired h ts bad \<longleftrightarrow> (\<forall>t \<in> set ts. confirmed h t) \<and>
     (bad = [] \<longrightarrow> (\<forall>k d. mget desired k = Some d \<longrightarrow> (\<exists>t \<in> set ts. tes_From t = Some (de_FromCluster d))))"

lemma TMB_programAll_wp:
  assumes rl: "range_laws L" and fin: "recorded hasTMBFinalizer h" and az: "azureRead p az h" and prog: "programmed L p"
    and plan: "planned L h b0 s items desired invalid" and st: "visited desired (endpointsOf az) h st"
  shows "wp (TMB_guard L) (\<lambda>h' r. case r of Inl _ \<Rightarrow> True | Inr st2 \<Rightarrow> endpointsSettled desired h' (fst st2) (snd st2))
      (forP (LibMapOrder L (mkeys (fst st))) (snd st, []) (TMB_programEndpoint L (tmp_ResourceGroup p) b az (fst st))) h"
proof -
  have m: "mget (fst st) k = Some d \<Longrightarrow> mget desired k = Some d" for k d using st by (simp add: visited_def)
  have keys: "set (LibMapOrder L (mkeys (fst st))) = {k. mget (fst st) k \<noteq> None}" using rl by (simp add: range_laws_def set_mkeys)
  show ?thesis
  proof (rule wp_forP_prefix [where I = "\<lambda>pre h' st2. placed desired (fst st) pre h' st2 \<and> (\<exists>k. h' = h @ k)"])
    show "placed desired (fst st) [] h (snd st, []) \<and> (\<exists>k. h = h @ k)" using st by (auto simp: placed_def visited_def)
  next
    fix pre x post st2 h'
    assume xs: "LibMapOrder L (mkeys (fst st)) = pre @ x # post" and "placed desired (fst st) pre h' st2 \<and> (\<exists>k. h' = h @ k)"
    then obtain k where k: "placed desired (fst st) pre h' st2" "h' = h @ k" by blast
    have "x \<in> set (LibMapOrder L (mkeys (fst st)))" unfolding xs by simp
    then have x: "mget (fst st) x \<noteq> None" unfolding keys by simp
    have now: "recorded hasTMBFinalizer h'" "azureRead p az h'" "planned L h' b0 s items desired invalid" unfolding k(2) using fin az plan by simp_all
    show "wp (TMB_guard L) (\<lambda>h' r. case r of Inl a \<Rightarrow> (case Inl a of Inl _ \<Rightarrow> True | Inr st2 \<Rightarrow> endpointsSettled desired h' (fst st2) (snd st2))
        | Inr s' \<Rightarrow> placed desired (fst st) (pre @ [x]) h' s' \<and> (\<exists>k. h' = h @ k)) (TMB_programEndpoint L (tmp_ResourceGroup p) b az (fst st) x st2) h'"
      by (rule wp_conseq [OF TMB_programEndpoint_wp [OF now(1,2) prog now(3) m k(1) x]]) (auto simp: k(2) split: sum.splits)
  next
    fix h' st2
    assume "placed desired (fst st) (LibMapOrder L (mkeys (fst st))) h' st2 \<and> (\<exists>k. h' = h @ k)"
    then show "case Inr st2 of Inl _ \<Rightarrow> True | Inr st2 \<Rightarrow> endpointsSettled desired h' (fst st2) (snd st2)" by (simp add: placed_def endpointsSettled_def keys del: not_None_eq)
  qed
qed

lemma TMB_visitAll_wp:
  assumes "viewed b h" and "azureRead p az h" and "planned L h b0 s items desired invalid"
  shows "wp (TMB_guard L) (\<lambda>h' r. case r of Inl _ \<Rightarrow> True | Inr st \<Rightarrow> visited desired (endpointsOf az) h' st \<and> (\<exists>k. h' = h @ k))
      (forP (endpointsOf az) (desired, []) (TMB_visitEndpoint L (tmp_ResourceGroup p) b az)) h"
proof (rule wp_forP_prefix [where I = "\<lambda>pre h' st. visited desired pre h' st \<and> (\<exists>k. h' = h @ k)"])
  show "visited desired [] h (desired, []) \<and> (\<exists>k. h = h @ k)" by (simp add: visited_def)
next
  fix pre x post st h'
  assume xs: "endpointsOf az = pre @ x # post" and "visited desired pre h' st \<and> (\<exists>k. h' = h @ k)"
  then obtain k where k: "visited desired pre h' st" "h' = h @ k" by blast
  have now: "viewed b h'" "azureRead p az h'" "planned L h' b0 s items desired invalid" unfolding k(2) using assms by simp_all
  show "wp (TMB_guard L) (\<lambda>h' r. case r of Inl a \<Rightarrow> (case Inl a of Inl _ \<Rightarrow> True | Inr st \<Rightarrow> visited desired (endpointsOf az) h' st \<and> (\<exists>k. h' = h @ k))
      | Inr s' \<Rightarrow> visited desired (pre @ [x]) h' s' \<and> (\<exists>k. h' = h @ k)) (TMB_visitEndpoint L (tmp_ResourceGroup p) b az x st) h'"
    by (rule wp_conseq [OF TMB_visit_wp [OF now(3,1,2) xs k(1)]]) (auto simp: k(2) split: sum.splits)
qed simp

lemma TMB_updateEndpoints_wp:
  assumes "range_laws L" and fin: "recorded hasTMBFinalizer h" and b: "viewed b h" and az: "azureRead p az h" and "programmed L p"
    and plan: "planned L h b0 s items desired invalid"
  shows "wp (TMB_guard L) (\<lambda>h' r. (case r of Inl _ \<Rightarrow> True | Inr st \<Rightarrow> endpointsSettled desired h' (fst st) (snd st)) \<and> (\<exists>k. h' = h @ k))
    (TMB_updateEndpoints L (tmp_ResourceGroup p) b az desired) h"
proof (rule wp_ext, cases "ap_Properties az")
  case None
  then show "wp (TMB_guard L) (\<lambda>h' r. case r of Inl _ \<Rightarrow> True | Inr st \<Rightarrow> endpointsSettled desired h' (fst st) (snd st)) (TMB_updateEndpoints L (tmp_ResourceGroup p) b az desired) h"
    by (simp add: TMB_updateEndpoints_def)
next
  case (Some q)
  have eps: "app_Endpoints q = endpointsOf az" by (simp add: endpointsOf_def Some)
  have go: "wp (TMB_guard L) (\<lambda>h' r. case r of Inl _ \<Rightarrow> True | Inr st \<Rightarrow> endpointsSettled desired h' (fst st) (snd st))
      (forP (LibMapOrder L (mkeys (fst st))) (snd st, []) (TMB_programEndpoint L (tmp_ResourceGroup p) b az (fst st))) (h @ k)"
    if "visited desired (endpointsOf az) (h @ k) st" for st k
    by (rule TMB_programAll_wp [OF assms(1) recorded_mono [OF fin] observed_mono(2) [OF az] assms(5) observed_mono(3) [OF plan] that])
  show "wp (TMB_guard L) (\<lambda>h' r. case r of Inl _ \<Rightarrow> True | Inr st \<Rightarrow> endpointsSettled desired h' (fst st) (snd st)) (TMB_updateEndpoints L (tmp_ResourceGroup p) b az desired) h"
    unfolding TMB_updateEndpoints_def Some option.case eps
    by (rule wp_bindI [OF TMB_visitAll_wp [OF b az plan]]) (auto split: sum.splits intro!: go [of _ "(m, acc)" for m acc, simplified])
qed

subsection \<open>The controller\<close>

lemma TMB_conclude_wp:
  assumes plan: "planned L h b0 s items desired invalid" and st: "endpointsSettled desired h ts bad"
  shows "wp (TMB_guard L) (\<lambda>_ _. True) (TMB_conclude L b invalid ts bad) h"
proof -
  from plan obtain w where d: "TMB_desired (LibIndefiniteInt L) b0 w items (sis_Clusters (si_Status s)) = Inr (desired, invalid)" by (auto simp: planned_def)
  have "behind ts (cs_Cluster c)" if "mlen invalid = 0" "bad = []" "c \<in> set (sis_Clusters (si_Status s))" for c
    by (rule TMB_desired_covers [OF d that(1,3)]) (use st that(2) in \<open>fastforce simp: endpointsSettled_def behind_def\<close>)
  then have "TMB_guard L h (StatusUpdate Hub (OTMB (setTrueCondition L b ts)))" if "mlen invalid = 0" "bad = []"
    using that plan st unfolding endpointsSettled_def by (intro guard_true disjI2) blast+
  moreover have "TMB_guard L h (StatusUpdate Hub (OTMB (setFalseCondition L b ts m)))" for m
    using st by (intro guard_false) (simp add: endpointsSettled_def)
  ultimately show ?thesis unfolding TMB_conclude_def by (auto intro!: TMB_updateStatus_wp(2))
qed

lemma TMB_apply_wp:
  assumes "range_laws L" and "recorded hasTMBFinalizer h" and "viewed b h" and "azureRead p az h" and "programmed L p"
    and plan: "planned L h b0 s items desired invalid"
  shows "wp (TMB_guard L) (\<lambda>_ _. True) (TMB_applyEndpoints L (tmp_ResourceGroup p) az desired invalid b) h"
  unfolding TMB_applyEndpoints_def
  by (rule wp_bindI [OF TMB_updateEndpoints_wp [OF assms]]) (auto split: sum.splits intro: TMB_conclude_wp [OF observed_mono(3) [OF plan]])

lemma viewed_answered: "answered (OTMB b) h \<Longrightarrow> viewed b h" "answered (OTMB b) h \<Longrightarrow> viewed (SetDefaultsTrafficManagerBackend b) h"
  by (auto simp: viewed_def SetDefaultsTrafficManagerBackend_def)

lemma TMB_register_wp:
  assumes fl: "finalizer_laws L" and rl: "range_laws L" and b0: "answered (OTMB b0) h" and b: "b = SetDefaultsTrafficManagerBackend b0"
    and az: "azureRead p az h" and prog: "programmed L p" and plan: "planned L h b s items desired invalid"
    and fin: "LibContainsFinalizer L (tmbMeta b0) TrafficManagerBackendFinalizer \<Longrightarrow> recorded hasTMBFinalizer h"
  shows "wp (TMB_guard L) (\<lambda>_ _. True) (TMB_registerThenApply L (tmp_ResourceGroup p) az desired invalid b) h"
proof -
  let ?add = "b\<lparr>tmb_ObjectMeta := LibAddFinalizer L (tmbMeta b) TrafficManagerBackendFinalizer\<rparr>"
  have m: "tmbMeta b = tmbMeta b0" by (simp add: b SetDefaultsTrafficManagerBackend_def)
  have add: "TMB_guard L h (Update Hub (OTMB ?add))" using b0 tmbf.added [OF fl, of b] unfolding TMB_guard_def by auto
  have go: "wp (TMB_guard L) (\<lambda>_ _. True) (TMB_applyEndpoints L (tmp_ResourceGroup p) az desired invalid b1) (h @ [(Update Hub (OTMB ?add), RObj (OTMB b1))])" for b1
    by (rule TMB_apply_wp [OF rl recorded_shown [OF tmbf.shown_added [OF fl, of _ b b1]] viewed_answered(1) observed_mono(2) [OF az] prog observed_mono(3) [OF plan]]) simp_all
  have go': "wp (TMB_guard L) (\<lambda>_ _. True) (TMB_applyEndpoints L (tmp_ResourceGroup p) az desired invalid b) h"
    if "LibContainsFinalizer L (tmbMeta b) TrafficManagerBackendFinalizer"
    by (rule TMB_apply_wp [OF rl fin _ az prog plan]) (use that m viewed_answered(2) [OF b0] b in simp_all)
  show ?thesis
    by (auto simp: TMB_registerThenApply_def prog_simps add decUpd_def split: sum.splits intro!: go go')
qed

lemma TMB_zeroWeight_wp:
  assumes "errgroup_laws L" and v: "viewed b h" and az: "azureRead p az h" and w: "tmb_Weight b = Some 0"
  shows "wp (TMB_guard L) (\<lambda>_ _. True) (TMB_zeroWeight L (tmp_ResourceGroup p) b az) h"
proof -
  have "wp (TMB_guard L) (\<lambda>_ _. True) (TMB_updateStatus L (setTrueCondition L b [])) (h @ k @ [x])" if "removedAll b p az (h @ k)" for k x
  proof (rule TMB_updateStatus_wp(1), rule guard_true, simp, rule disjI1)
    have "removedAll b p az (h @ k @ [x])" using that unfolding removedAll_def by fastforce
    then show "\<exists>b0 p az. ([] :: TrafficManagerEndpointStatus list) = [] \<and> viewed b0 (h @ k @ [x]) \<and> tmb_Weight b0 = Some 0 \<and>
        azureRead p az (h @ k @ [x]) \<and> removedAll b0 p az (h @ k @ [x])"
      using v az w by (intro exI [of _ b] exI [of _ p] exI [of _ az]) simp
  qed
  then show ?thesis
    unfolding TMB_zeroWeight_def
    by (intro wp_bindI [OF TMB_cleanup_wp [OF assms(1) v az]]) (auto simp: unwanted_def w prog_simps split: option.splits)
qed

lemma TMB_serve_wp:
  assumes fl: "finalizer_laws L" and rl: "range_laws L" and eg: "errgroup_laws L" and b0: "answered (OTMB b0) h" and b: "b = SetDefaultsTrafficManagerBackend b0"
    and az: "azureRead p az h" and prog: "programmed L p" and s: "answered (OSI s) h"
    and fin: "LibContainsFinalizer L (tmbMeta b0) TrafficManagerBackendFinalizer \<Longrightarrow> recorded hasTMBFinalizer h"
  shows "wp (TMB_guard L) (\<lambda>_ _. True) (TMB_serve L (tmp_ResourceGroup p) az s b) h"
proof -
  have v: "viewed b h" unfolding b by (rule viewed_answered(2) [OF b0])
  let ?list = "\<lambda>items. (ListObjs Hub KInternalServiceExport (exportsOf s), RObjs (map OISE items))"
  have reg: "wp (TMB_guard L) (\<lambda>_ _. True) (TMB_registerThenApply L (tmp_ResourceGroup p) az desired invalid b) (h @ [?list items])"
    if "tmb_Weight b = Some w" "w \<noteq> 0" "TMB_desired (LibIndefiniteInt L) b w items (sis_Clusters (si_Status s)) = Inr (desired, invalid)" for w items desired invalid
  proof (rule TMB_register_wp [OF fl rl answered_mono [OF b0] b observed_mono(2) [OF az] prog, where s = s and items = items])
    show "planned L (h @ [?list items]) b s items desired invalid" using v s that by (auto simp: planned_def listed_def)
  qed (use fin in simp)
  have process: "wp (TMB_guard L) (\<lambda>h' (r, b1). case r of Inl _ \<Rightarrow> True | Inr (desired, invalid) \<Rightarrow> b1 = b \<and> (\<exists>items. h' = h @ [?list items] \<and>
      TMB_desired (LibIndefiniteInt L) b w items (sis_Clusters (si_Status s)) = Inr (desired, invalid))) (TMB_processServiceImport L b w s) h" for w
    by (auto simp: TMB_processServiceImport_def Let_def prog_simps case_prod_unfold split: sum.splits intro!: TMB_stop_wp)
  show ?thesis
    unfolding TMB_serve_def
    by (auto split: option.splits intro!: TMB_zeroWeight_wp [OF eg v az] wp_bindI [OF process] reg split: sum.splits)
qed

lemma dec_NotFound:
  "decSI a = Inl e \<Longrightarrow> IsNotFound e \<Longrightarrow> a = RErr e" "decTMP a = Inl e \<Longrightarrow> IsNotFound e \<Longrightarrow> a = RErr e"
  by (auto simp: decSI_def decTMP_def decodeErr_def IsNotFound_def split: response.splits kobj.splits)

lemma TMB_validateProfile_wp:
  "wp (TMB_guard L) (\<lambda>h' (r, b1). case r of Inl _ \<Rightarrow> True | Inr p \<Rightarrow> b1 = b \<and> programmed L p \<and> h' = h @ [(Get Hub KTrafficManagerProfile (profileKey b), RObj (OTMP p))])
     (TMB_validateTrafficManagerProfile L b) h"
  by (auto simp: TMB_validateTrafficManagerProfile_def Let_def prog_simps programmed_def case_prod_unfold guard_false split: sum.splits intro!: TMB_stop_wp)

lemma TMB_validateAzure_wp:
  "wp (TMB_guard L) (\<lambda>h' (r, b1). case r of Inl _ \<Rightarrow> True
       | Inr az \<Rightarrow> b1 = b \<and> h' = h @ [(ProfilesGet (tmp_ResourceGroup p) (GenerateAzureTrafficManagerProfileName p), RProfile az)])
     (TMB_validateAzureTrafficManagerProfile L b p) h"
  by (auto simp: TMB_validateAzureTrafficManagerProfile_def Let_def prog_simps case_prod_unfold guard_false split: sum.splits intro!: TMB_stop_wp)

lemma TMB_validateServiceImport_wp:
  assumes "errgroup_laws L" and "viewed b h" and "azureRead p az h"
  shows "wp (TMB_guard L) (\<lambda>h' (r, b1). case r of Inl _ \<Rightarrow> True | Inr s \<Rightarrow> b1 = b \<and> h' = h @ [(Get Hub KServiceImport (serviceImportKey b), RObj (OSI s))])
     (TMB_validateServiceImport L (tmp_ResourceGroup p) b az) h"
proof -
  have clean: "wp (TMB_guard L) (\<lambda>h' r. True) (TMB_cleanupEndpoints L (tmp_ResourceGroup p) b az) (h @ [(Get Hub KServiceImport (serviceImportKey b), a)])"
    if "decSI a = Inl x" "IsNotFound x" for a x
  proof -
    have "absent Hub KServiceImport (serviceImportKey b) ((h @ [(Get Hub KServiceImport (serviceImportKey b), a)]) @ k)" for k
      using dec_NotFound(1) [OF that] that(2) by (auto simp: absent_def)
    then show ?thesis
      using assms by (intro wp_conseq [OF TMB_cleanup_wp [OF assms(1)]]) (auto simp: unwanted_def)
  qed
  show ?thesis
    unfolding TMB_validateServiceImport_def
    by (auto simp: prog_simps case_prod_unfold guard_false split: sum.splits option.splits intro!: TMB_stop_wp wp_bindI [OF clean])
qed

lemma TMB_handleUpdate_wp:
  assumes fl: "finalizer_laws L" and rl: "range_laws L" and eg: "errgroup_laws L" and b0: "answered (OTMB b0) h"
    and fin: "LibContainsFinalizer L (tmbMeta b0) TrafficManagerBackendFinalizer \<Longrightarrow> recorded hasTMBFinalizer h"
  shows "wp (TMB_guard L) (\<lambda>_ _. True) (TMB_handleUpdate L (SetDefaultsTrafficManagerBackend b0)) h"
proof -
  let ?b = "SetDefaultsTrafficManagerBackend b0"
  let ?p = "\<lambda>p. (Get Hub KTrafficManagerProfile (profileKey ?b), RObj (OTMP p))"
  let ?a = "\<lambda>p az. (ProfilesGet (tmp_ResourceGroup p) (GenerateAzureTrafficManagerProfileName p), RProfile az)"
  have az: "azureRead p az ((h @ [?p p]) @ [?a p az] @ k)" for p az k by (auto simp: azureRead_def answered_def)
  have serve: "wp (TMB_guard L) (\<lambda>_ _. True) (TMB_serve L (tmp_ResourceGroup p) az s ?b) (h @ [?p p, ?a p az, (q, RObj (OSI s))])" if "programmed L p" for p az s q
    by (rule TMB_serve_wp [OF fl rl eg answered_mono [OF b0] refl az [where k = "[(q, RObj (OSI s))]" and p = p and az = az, simplified] that])
      (use fin in \<open>auto simp: answered_def\<close>)
  have si: "wp (TMB_guard L) (\<lambda>h' (r, b1). case r of Inl _ \<Rightarrow> True | Inr s \<Rightarrow> b1 = ?b \<and> h' = (h @ [?p p, ?a p az]) @ [(Get Hub KServiceImport (serviceImportKey ?b), RObj (OSI s))])
     (TMB_validateServiceImport L (tmp_ResourceGroup p) ?b az) (h @ [?p p, ?a p az])" for p az
    by (rule TMB_validateServiceImport_wp [OF eg viewed_answered(2) [OF answered_mono [OF b0]] az [where k = "[]" and p = p and az = az, simplified]])
  show ?thesis
    unfolding TMB_handleUpdate_def
    by (rule wp_bindI [OF TMB_validateProfile_wp])
      (auto split: sum.splits intro!: wp_bindI [OF TMB_validateAzure_wp] wp_bindI [OF si] serve)
qed

lemma TMB_program_wp:
  assumes "finalizer_laws L" and "range_laws L" and "errgroup_laws L" and "answered (OTMB b0) h"
    and "LibContainsFinalizer L (tmbMeta b0) TrafficManagerBackendFinalizer \<Longrightarrow> recorded hasTMBFinalizer h"
  shows "wp (TMB_guard L) (\<lambda>_ _. True) (TMB_program L b0) h"
  unfolding TMB_program_def
  by (rule wp_bindI [OF TMB_handleUpdate_wp [OF assms]])
    (auto simp: emitTrafficManagerBackendStatusMetric_def Let_def prog_simps split: prod.splits option.splits)

subsection \<open>The deletion\<close>

lemma TMB_deleteAzure_wp:
  assumes eg: "errgroup_laws L" and b: "viewed b h" and del: "om_DeletionTimestamp (tmbMeta b) \<noteq> None"
  shows "wp (TMB_guard L) (\<lambda>h' r. r = None \<longrightarrow> endpointsGone b h') (TMB_deleteAzureTrafficManagerEndpoints L b) h"
proof -
  let ?p = "\<lambda>p. (Get Hub KTrafficManagerProfile (profileKey b), RObj (OTMP p))"
  let ?a = "\<lambda>p. ProfilesGet (tmp_ResourceGroup p) (GenerateAzureTrafficManagerProfileName p)"
  have az: "azureRead p az (h @ [?p p, (?a p, RProfile az)])" for p az by (auto simp: azureRead_def answered_def)
  have clean: "wp (TMB_guard L) (\<lambda>h' r. r = None \<longrightarrow> endpointsGone b h') (TMB_cleanupEndpoints L (tmp_ResourceGroup p) b az) (h @ [?p p, (?a p, RProfile az)])" for p az
  proof (rule wp_conseq [OF TMB_cleanup_wp [OF eg observed_mono(1) [OF b] az]])
    show "unwanted L ((h @ [?p p, (?a p, RProfile az)]) @ k) b az nm" for k nm using del by (simp add: unwanted_def)
    fix h' r
    assume "(\<exists>k. h' = (h @ [?p p, (?a p, RProfile az)]) @ k) \<and> (r = None \<longrightarrow> removedAll b p az h')"
    then show "r = None \<longrightarrow> endpointsGone b h'" unfolding endpointsGone_def using observed_mono(2) [OF az] by blast
  qed simp
  have none: "endpointsGone b (h @ [(Get Hub KTrafficManagerProfile (profileKey b), a)])" if "decTMP a = Inl x" "IsNotFound x" for a x
    using dec_NotFound(2) [OF that] that(2) by (auto simp: endpointsGone_def absent_def)
  have none': "endpointsGone b (h @ [?p p, (?a p, a)])" if "decProfile a = Inl x" "AzIsNotFound x" for p a x
    using decProfile_error [of a x 404] that by (auto simp: endpointsGone_def answered_def AzIsNotFound_def)
  show ?thesis
    unfolding TMB_deleteAzureTrafficManagerEndpoints_def
    by (auto simp: prog_simps split: sum.splits intro!: clean none none')
qed

lemma TMB_finish_wp:
  assumes "answered (OTMB b0) h"
    and "hasTMBFinalizer (OTMB b0) \<longrightarrow> hasTMBFinalizer (OTMB b) \<or> endpointsGone b h \<and> om_DeletionTimestamp (tmbMeta b0) \<noteq> None"
  shows "wp (TMB_guard L) (\<lambda>_ _. True) (TMB_finish L need b) h"
proof -
  have "TMB_guard L h (Update Hub (OTMB b))" using assms by (auto simp: TMB_guard_def)
  then show ?thesis by (auto simp: TMB_finish_def prog_simps decUpd_def split: sum.splits)
qed

lemma endpointsGone_mono: "endpointsGone b h \<Longrightarrow> endpointsGone b (h @ k)"
proof -
  have "removedAll b p az h \<Longrightarrow> removedAll b p az (h @ k)" for p az unfolding removedAll_def by fastforce
  then show "endpointsGone b h \<Longrightarrow> endpointsGone b (h @ k)"
    unfolding endpointsGone_def set_append by (elim disjE exE conjE) (blast intro: absent_mono answered_mono observed_mono(2))+
qed

lemma endpointsGone_finalizer:
  assumes "finalizer_laws L"
  shows "endpointsGone (b\<lparr>tmb_ObjectMeta := LibRemoveFinalizer L (tmbMeta b) f\<rparr>) h \<longleftrightarrow> endpointsGone b h"
  by (simp add: endpointsGone_def removedAll_def namedAfter_def profileKey_def
      finalizer_laws_fields [OF assms])

lemma TMB_release_wp:
  assumes fl: "finalizer_laws L" and eg: "errgroup_laws L" and b0: "answered (OTMB b0) h" and del: "om_DeletionTimestamp (tmbMeta b0) \<noteq> None"
    and b: "viewed b h" "om_DeletionTimestamp (tmbMeta b) = om_DeletionTimestamp (tmbMeta b0)" "hasTMBFinalizer (OTMB b) = hasTMBFinalizer (OTMB b0)"
  shows "wp (TMB_guard L) (\<lambda>_ _. True) (TMB_release L need b) h"
proof -
  let ?rem = "b\<lparr>tmb_ObjectMeta := LibRemoveFinalizer L (tmbMeta b) TrafficManagerBackendFinalizer\<rparr>"
  have none: "wp (TMB_guard L) (\<lambda>_ _. True) (TMB_finish L need b) h" by (rule TMB_finish_wp [OF b0]) (use b(3) in simp)
  have fin: "wp (TMB_guard L) (\<lambda>_ _. True) (TMB_finish L True ?rem) (h @ k @ [x])" if "endpointsGone b (h @ k)" for k x
    by (rule TMB_finish_wp [OF answered_mono [OF b0]]) (use del endpointsGone_mono [OF that, of "[x]"] in \<open>simp add: endpointsGone_finalizer [OF fl]\<close>)
  show ?thesis
    unfolding TMB_release_def using del b
    by (auto simp: prog_simps split: option.splits intro!: none fin wp_bindI [OF wp_ext [OF TMB_deleteAzure_wp [OF eg b(1)]]])
qed

lemma TMB_Reconcile_wp:
  assumes fl: "finalizer_laws L" and rl: "range_laws L" and eg: "errgroup_laws L"
  shows "wp (TMB_guard L) (\<lambda>_ _. True) (TMB_Reconcile L n) []"
proof -
  let ?get = "\<lambda>b. (Get Hub KTrafficManagerBackend n, RObj (OTMB b))"
  let ?rem = "\<lambda>b. b\<lparr>tmb_ObjectMeta := LibRemoveFinalizer L (tmbMeta b) MetricsFinalizer\<rparr>"
  let ?add = "\<lambda>b. b\<lparr>tmb_ObjectMeta := LibAddFinalizer L (tmbMeta b) MetricsFinalizer\<rparr>"
  have ne: "TrafficManagerBackendFinalizer \<noteq> MetricsFinalizer" by (simp add: MetricsFinalizer_def TrafficManagerBackendFinalizer_def)
  have keep: "hasTMBFinalizer (OTMB (?rem b)) = hasTMBFinalizer (OTMB b)" "hasTMBFinalizer (OTMB (?add b)) = hasTMBFinalizer (OTMB b)" for b
    using ne by (simp_all add: hasTMBFinalizer_def finalizer_lawsD [OF fl])
  have view: "viewed (?rem b) h" if "answered (OTMB b) h" for b h
    unfolding viewed_def using that by (intro exI [of _ b]) (simp add: finalizer_laws_fields [OF fl] finalizer_lawsD [OF fl])
  have seen: "answered (OTMB b) (?get b # k)" for b k by (auto simp: answered_def)
  have del: "wp (TMB_guard L) (\<lambda>_ _. True) (TMB_handleDelete L b) [?get b]" if "om_DeletionTimestamp (tmbMeta b) = Some t" for b t
  proof -
    have "wp (TMB_guard L) (\<lambda>_ _. True) (TMB_release L True (?rem b)) [?get b, x]" for x
      by (rule TMB_release_wp [OF fl eg seen _ view [OF seen]]) (simp_all add: that keep finalizer_lawsD [OF fl])
    moreover have "wp (TMB_guard L) (\<lambda>_ _. True) (TMB_release L False b) [?get b]"
      by (rule TMB_release_wp [OF fl eg seen _ viewed_answered(1) [OF seen]]) (simp_all add: that)
    ultimately show ?thesis by (simp add: TMB_handleDelete_def prog_simps)
  qed
  have add: "TMB_guard L [?get b] (Update Hub (OTMB (?add b)))" for b
    using keep(2) [of b] by (auto simp: TMB_guard_def answered_def)
  have go: "wp (TMB_guard L) (\<lambda>_ _. True) (TMB_program L b1) [?get b, (Update Hub (OTMB (?add b)), RObj (OTMB b1))]" for b b1
  proof (rule TMB_program_wp [OF assms])
    assume "LibContainsFinalizer L (tmbMeta b1) TrafficManagerBackendFinalizer"
    then show "recorded hasTMBFinalizer [?get b, (Update Hub (OTMB (?add b)), RObj (OTMB b1))]"
      by (intro recorded_answered [of _ "OTMB b1" "Update Hub (OTMB (?add b))"]) (auto simp: tmbf.contained [OF fl])
  qed (auto simp: answered_def)
  have go': "wp (TMB_guard L) (\<lambda>_ _. True) (TMB_program L b) [?get b]" for b
    by (rule TMB_program_wp [OF assms _ recorded_shown [OF tmbf.shown_read [OF fl, of b _ n]]]) (auto simp: answered_def)
  show ?thesis
    by (auto simp: TMB_Reconcile_def prog_simps decUpd_def add split: sum.splits option.splits intro!: del go go')
qed

subsection \<open>The panics\<close>

text \<open>What the controller relies on in a desired endpoint.\<close>

definition complete :: "desiredEndpoint \<Rightarrow> bool" where
  "complete d \<longleftrightarrow> ae_Name (de_Endpoint d) \<noteq> None \<and> ae_Type (de_Endpoint d) \<noteq> None \<and>
     (case ae_Properties (de_Endpoint d) of None \<Rightarrow> False | Some q \<Rightarrow> aep_TargetResourceID q \<noteq> None \<and> aep_Weight q \<noteq> None \<and> aep_EndpointStatus q \<noteq> None)"

lemma equal_complete: "complete d \<Longrightarrow> equalAzureTrafficManagerEndpoint e (de_Endpoint d) \<noteq> None"
  by (auto simp: complete_def equalAzureTrafficManagerEndpoint_def split: option.splits)

lemma equal_build: "equalAzureTrafficManagerEndpoint e d1 = Some True \<Longrightarrow> ae_Name e \<noteq> None \<Longrightarrow> buildAcceptedEndpointStatus e d \<noteq> None"
  by (auto simp: equalAzureTrafficManagerEndpoint_def buildAcceptedEndpointStatus_def split: option.splits)

lemma TMB_desired_complete: "TMB_desired i b w items cs = Inr (desired, invalid) \<Longrightarrow> mget desired k = Some d \<Longrightarrow> complete d"
  by (erule TMB_desired_origin, assumption) (simp add: complete_def)

lemma wpan_conseq: "wpan P Q p h \<Longrightarrow> (\<And>h' r. Q h' r \<Longrightarrow> Q' h' r) \<Longrightarrow> wpan P Q' p h"
  by (induction p arbitrary: h) auto

lemma wpan_forP:
  assumes "I h s" and "\<And>x s h. x \<in> set xs \<Longrightarrow> I h s \<Longrightarrow> wpan P (\<lambda>h' r. case r of Inl a \<Rightarrow> True | Inr s' \<Rightarrow> I h' s') (body x s) h"
  shows "wpan P (\<lambda>h' r. case r of Inl a \<Rightarrow> True | Inr s' \<Rightarrow> I h' s') (forP xs s body) h"
  using assms
proof (induction xs arbitrary: s h)
  case (Cons x xs)
  have "wpan P (\<lambda>h' r. case r of Inl a \<Rightarrow> True | Inr s' \<Rightarrow> I h' s') (body x s) h" using Cons.prems by simp
  then show ?case
    by (auto simp: wpan_bindP split: sum.splits intro!: Cons.IH Cons.prems(2) elim!: wpan_conseq)
qed simp

lemma nopanic_errgroup:
  assumes "errgroup_laws L" and "\<And>p. p \<in> set ps \<Longrightarrow> nopanic p"
  shows "nopanic (LibErrGroup L ps)"
proof -
  obtain qs pick where qs: "mset qs = mset ps" "LibErrGroup L ps = bindP (runAll qs) (\<lambda>rs. Ret (pick rs))"
    using assms(1) unfolding errgroup_laws_def by blast
  have "\<forall>p \<in> set qs. nopanic p" using assms(2) qs(1) by (metis set_mset_mset)
  then have "nopanic (runAll qs)" by (induction qs) (auto intro!: nopanic_bindP)
  then show ?thesis unfolding qs(2) by (auto intro!: nopanic_bindP)
qed

lemma nopanic_TMB [simp]:
  "nopanic (TMB_updateStatus L b)" "nopanic (TMB_reportThen L b er)" "nopanic (TMB_deleteEndpoint rg prof nm)" "nopanic (TMB_validateTrafficManagerProfile L b)"
  "nopanic (TMB_conclude L b invalid ts bad)" "nopanic (emitTrafficManagerBackendStatusMetric L b)" "nopanic (TMB_finish L need b)"
proof -
  show u: "nopanic (TMB_updateStatus L b)" for b by (auto simp: TMB_updateStatus_def prog_simps decUpd_def split: sum.splits)
  show t: "nopanic (TMB_reportThen L b er)" for b er by (auto simp: TMB_reportThen_def u intro!: nopanic_bindP split: option.splits prod.splits)
  show "nopanic (TMB_deleteEndpoint rg prof nm)" by (auto simp: TMB_deleteEndpoint_def prog_simps split: option.splits)
  show "nopanic (TMB_validateTrafficManagerProfile L b)"
    by (auto simp: TMB_validateTrafficManagerProfile_def prog_simps Let_def u t intro!: nopanic_bindP split: sum.splits prod.splits)
  show "nopanic (TMB_conclude L b invalid ts bad)" by (simp add: TMB_conclude_def t)
  show "nopanic (emitTrafficManagerBackendStatusMetric L b)" by (auto simp: emitTrafficManagerBackendStatusMetric_def prog_simps Let_def split: option.splits)
  show "nopanic (TMB_finish L need b)" by (auto simp: TMB_finish_def prog_simps decUpd_def split: sum.splits)
qed

definition readProfile :: "AzureProfile \<Rightarrow> trace \<Rightarrow> bool" where
  "readProfile az h \<longleftrightarrow> (\<exists>rg nm. (ProfilesGet rg nm, RProfile az) \<in> set h)"

lemma readProfile_mono [simp]: "readProfile az h \<Longrightarrow> readProfile az (h @ k)"
  by (auto simp: readProfile_def)

lemma readProfile_in: "(ProfilesGet rg nm, RProfile az) \<in> set h \<Longrightarrow> readProfile az h"
  by (auto simp: readProfile_def)

lemma readProfile_incomplete: "readProfile az h \<Longrightarrow> ap_Properties az = None \<or> ap_Name az = None \<Longrightarrow> incompleteAnswer h"
  by (auto simp: readProfile_def incompleteAnswer_def)

lemma TMB_stop_wpan:
  "(\<And>h' r. Q h' (f r)) \<Longrightarrow> wpan P Q (bindP (TMB_updateStatus L b) (\<lambda>r. Ret (f r))) h"
  "(\<And>h' r. Q h' (f r)) \<Longrightarrow> wpan P Q (bindP (TMB_reportThen L b er) (\<lambda>r. Ret (f r))) h"
  by (rule wpan_bind_nopanic, simp_all)+

lemma TMB_cleanup_wpan:
  assumes "errgroup_laws L" and "readProfile az h"
  shows "wpan incompleteAnswer (\<lambda>_ _. True) (TMB_cleanupEndpoints L rg b az) h"
  using assms readProfile_incomplete [OF assms(2)]
  by (auto simp: TMB_cleanupEndpoints_def split: option.splits intro!: wpan_nopanic nopanic_errgroup)

lemma TMB_visit_wpan:
  assumes "readProfile az h" and "\<forall>k d. mget (fst st) k = Some d \<longrightarrow> complete d"
  shows "wpan incompleteAnswer (\<lambda>h' r. case r of Inl _ \<Rightarrow> True | Inr st' \<Rightarrow> readProfile az h' \<and> (\<forall>k d. mget (fst st') k = Some d \<longrightarrow> complete d))
    (TMB_visitEndpoint L rg b az e st) h"
proof -
  have "wpan incompleteAnswer (\<lambda>h' r. case r of Inl _ \<Rightarrow> True | Inr st' \<Rightarrow> readProfile az h' \<and> (\<forall>k d. mget (fst st') k = Some d \<longrightarrow> complete d))
      (TMB_dropEndpoint L rg b az nm st) h" for nm
    using assms readProfile_incomplete [OF assms(1)]
    by (auto simp: TMB_dropEndpoint_def prog_simps split: option.splits intro!: TMB_stop_wpan)
  then show ?thesis
    using assms equal_complete equal_build
    by (auto simp: TMB_visitEndpoint_def split: option.splits) (metis option.distinct(1))+
qed

lemma TMB_programEndpoint_wpan:
  assumes "readProfile az h" and "\<forall>k d. mget m k = Some d \<longrightarrow> complete d"
  shows "wpan incompleteAnswer (\<lambda>h' r. case r of Inl _ \<Rightarrow> True | Inr st' \<Rightarrow> readProfile az h') (TMB_programEndpoint L rg b az m k st) h"
proof -
  have bad: "incompleteAnswer (h @ [(EndpointsCreateOrUpdate rg prof nm ep, REndpoint e), x])" if "buildAcceptedEndpointStatus e d = None" for prof nm ep e x d
    unfolding incompleteAnswer_def
    by (intro disjI2 exI [of _ rg] exI [of _ prof] exI [of _ nm] exI [of _ ep] exI [of _ e]) (use that in \<open>auto simp: buildAcceptedEndpointStatus_def split: option.splits\<close>)
  have named: "ae_Name (de_Endpoint d) \<noteq> None" if "mget m k = Some d" for d using assms(2) that by (simp add: complete_def)
  show ?thesis
    using assms(1) readProfile_incomplete [OF assms(1)] named
    by (auto simp: TMB_programEndpoint_def prog_simps split: option.splits sum.splits intro!: TMB_stop_wpan bad)
qed

lemma TMB_updateEndpoints_wpan:
  assumes az: "readProfile az h" and d: "\<forall>k d. mget desired k = Some d \<longrightarrow> complete d"
  shows "wpan incompleteAnswer (\<lambda>_ _. True) (TMB_updateEndpoints L rg b az desired) h"
proof (cases "ap_Properties az")
  case None
  with readProfile_incomplete [OF az] show ?thesis by (simp add: TMB_updateEndpoints_def)
next
  case (Some q)
  have first: "wpan incompleteAnswer (\<lambda>h' r. case r of Inl _ \<Rightarrow> True | Inr st' \<Rightarrow> readProfile az h' \<and> (\<forall>k d. mget (fst st') k = Some d \<longrightarrow> complete d))
      (forP (app_Endpoints q) (desired, []) (TMB_visitEndpoint L rg b az)) h"
    by (rule wpan_forP) (use az d in \<open>auto intro!: TMB_visit_wpan [simplified]\<close>)
  have second: "wpan incompleteAnswer (\<lambda>_ _. True) (forP ks acc (TMB_programEndpoint L rg b az m)) h'"
    if "readProfile az h'" "\<forall>k d. mget m k = Some d \<longrightarrow> complete d" for ks acc m h'
    by (rule wpan_conseq [OF wpan_forP [where I = "\<lambda>h _. readProfile az h"]]) (use that in \<open>auto intro!: TMB_programEndpoint_wpan\<close>)
  show ?thesis
    unfolding TMB_updateEndpoints_def Some option.case wpan_bindP
    by (rule wpan_conseq [OF first]) (auto split: sum.splits intro!: second)
qed

lemma TMB_validate_wpan:
  "wpan P (\<lambda>h' r. case fst r of Inl _ \<Rightarrow> True | Inr p \<Rightarrow> snd r = b) (TMB_validateTrafficManagerProfile L b) h"
  "wpan P (\<lambda>h' r. case fst r of Inl _ \<Rightarrow> True | Inr az \<Rightarrow> snd r = b \<and> readProfile az h') (TMB_validateAzureTrafficManagerProfile L b p) h"
  "wpan P (\<lambda>h' r. case fst r of Inl _ \<Rightarrow> True | Inr (desired, invalid) \<Rightarrow> snd r = b \<and> (\<exists>k. h' = h @ k) \<and> (\<forall>k d. mget desired k = Some d \<longrightarrow> complete d))
     (TMB_processServiceImport L b w s) h"
  by (auto simp: TMB_validateTrafficManagerProfile_def TMB_validateAzureTrafficManagerProfile_def TMB_processServiceImport_def Let_def prog_simps case_prod_unfold
      readProfile_def split: sum.splits intro!: TMB_stop_wpan intro: TMB_desired_complete)

lemma TMB_serve_wpan:
  assumes eg: "errgroup_laws L" and az: "readProfile az h" and "tmb_Weight b \<noteq> None"
  shows "wpan incompleteAnswer (\<lambda>_ _. True) (TMB_serve L rg az s b) h"
proof -
  have zero: "wpan incompleteAnswer (\<lambda>_ _. True) (TMB_zeroWeight L rg b az) h"
    unfolding TMB_zeroWeight_def wpan_bindP
    by (rule wpan_conseq [OF TMB_cleanup_wpan [OF eg az]]) (auto simp: prog_simps split: option.splits intro!: wpan_nopanic)
  have app: "wpan incompleteAnswer (\<lambda>_ _. True) (TMB_applyEndpoints L rg az desired invalid b1) h'"
    if "readProfile az h'" "\<forall>k d. mget desired k = Some d \<longrightarrow> complete d" for desired invalid b1 h'
    unfolding TMB_applyEndpoints_def wpan_bindP
    by (rule wpan_conseq [OF TMB_updateEndpoints_wpan [OF that]]) (auto split: sum.splits intro!: wpan_nopanic)
  have reg: "wpan incompleteAnswer (\<lambda>_ _. True) (TMB_registerThenApply L rg az desired invalid b1) (h @ k)"
    if "\<forall>k d. mget desired k = Some d \<longrightarrow> complete d" for desired invalid b1 k
    using app [OF readProfile_mono [OF az] that] by (auto simp: TMB_registerThenApply_def prog_simps decUpd_def split: sum.splits)
  show ?thesis
    using assms(3) zero reg
    by (auto simp: TMB_serve_def wpan_bindP split: option.splits intro!: wpan_conseq [OF TMB_validate_wpan(3)] split: sum.splits)
qed

lemma TMB_handleUpdate_wpan:
  assumes eg: "errgroup_laws L" and w: "tmb_Weight b \<noteq> None"
  shows "wpan incompleteAnswer (\<lambda>_ _. True) (TMB_handleUpdate L b) h"
proof -
  have si: "wpan incompleteAnswer (\<lambda>h' r. case fst r of Inl _ \<Rightarrow> True | Inr s \<Rightarrow> snd r = b \<and> readProfile az h') (TMB_validateServiceImport L rg b az) h'"
    if "readProfile az h'" for az rg h'
    using that unfolding TMB_validateServiceImport_def
    by (auto simp: prog_simps case_prod_unfold wpan_bindP [of _ _ "TMB_cleanupEndpoints L rg b az"] split: sum.splits option.splits
        intro!: TMB_stop_wpan wpan_conseq [OF TMB_cleanup_wpan [OF eg]])
  show ?thesis
    unfolding TMB_handleUpdate_def wpan_bindP
    by (rule wpan_conseq [OF TMB_validate_wpan(1)])
      (auto simp: wpan_bindP case_prod_unfold split: sum.splits intro!: wpan_conseq [OF TMB_validate_wpan(2)] wpan_conseq [OF si] TMB_serve_wpan [OF eg _ w])
qed

lemma TMB_Reconcile_wpan:
  assumes eg: "errgroup_laws L"
  shows "wpan incompleteAnswer (\<lambda>_ _. True) (TMB_Reconcile L n) []"
proof -
  have prog: "wpan incompleteAnswer (\<lambda>_ _. True) (TMB_program L b) h" for b h
    unfolding TMB_program_def wpan_bindP
    by (rule wpan_conseq [OF TMB_handleUpdate_wpan [OF eg]])
      (auto simp: SetDefaultsTrafficManagerBackend_def setDefault_Some case_prod_unfold intro!: wpan_nopanic nopanic_bindP)
  have del: "wpan incompleteAnswer (\<lambda>_ _. True) (TMB_deleteAzureTrafficManagerEndpoints L b) h" for b h
    unfolding TMB_deleteAzureTrafficManagerEndpoints_def
    by (auto simp: prog_simps split: sum.splits intro!: TMB_cleanup_wpan [OF eg] readProfile_in [of _ _ _ "_ @ _"])
  have "wpan incompleteAnswer (\<lambda>_ _. True) (TMB_release L need b) h" for need b h
    unfolding TMB_release_def
    by (auto simp: wpan_bindP prog_simps split: option.splits intro!: wpan_nopanic wpan_conseq [OF del])
  then show ?thesis
    by (auto simp: TMB_Reconcile_def TMB_handleDelete_def prog_simps decUpd_def split: sum.splits intro!: prog)
qed

section \<open>Properties\<close>

text \<open>C5. The protocol with Azure: for all answers and at every point where the process may stop, an endpoint is
  created or updated only after the finalizer is on record, in the Azure profile of a TrafficManagerProfile that
  is programmed, under the name of the backend and of a cluster whose export is listed and valid, and points to
  the public IP of that export; an endpoint is deleted only when Azure has reported it under a name that begins with \<open>fleet-{UID}#\<close>, as it is or in lower case, and
  only when the backend is being deleted, the service import is gone, the weight is zero, or the exports do
  not ask for it; the finalizer is removed only when the profile is gone or every endpoint that Azure reported under a name that begins
  with \<open>fleet-{UID}#\<close> in exactly this case is deleted (an endpoint with such a name in another case is
  not cleaned up); the status names only
  endpoints that Azure has confirmed; and Accepted is true only when the endpoints are all removed for a zero
  weight, or every cluster of the service import is behind an endpoint of the status.\<close>

theorem TMB_protocol:
  assumes "finalizer_laws L" and "range_laws L" and "errgroup_laws L" and "steps (TMB_Reconcile L n) tr p"
  shows "guarded (TMB_guard L) [] tr"
  by (rule wp_guarded [OF assms(4) TMB_Reconcile_wp [OF assms(1-3)]])

theorem TMB_protocol_witness:
  "guarded (TMB_guard refLib) [] (fst (play (demoBackendAnswers demoAzureProfile) (TMB_Reconcile refLib (metaKey (tmb_ObjectMeta demoBackend))))) \<and>
   length (fst (play (demoBackendAnswers demoAzureProfile) (TMB_Reconcile refLib (metaKey (tmb_ObjectMeta demoBackend))))) = 10"
proof -
  let ?p = "TMB_Reconcile refLib (metaKey (tmb_ObjectMeta demoBackend))"
  have "steps ?p (fst (play (demoBackendAnswers demoAzureProfile) ?p)) (snd (play (demoBackendAnswers demoAzureProfile) ?p))" by (rule play_trace_steps) simp
  from TMB_protocol [OF refLib_finalizer_laws refLib_range_laws refLib_errgroup_laws this]
  show ?thesis by (rule conjI) code_simp
qed

text \<open>
  The ownership test of the clean-up is case-sensitive although the names of endpoints are not: Azure has reported the
  endpoint \<open>Fleet-u2#svc#old\<close> in a profile of a backend with the UID \<open>u2\<close> that is being deleted. The update of
  endpoints, which reads the name in lower case, takes it for an endpoint of the backend; the clean-up sends no
  request to delete it, and the finalizer is removed.
\<close>

theorem TMB_cleanup_is_case_sensitive:
  "demoStale \<in> set (endpointsOf demoAzureProfile) \<and> ae_Name demoStale = Some ''Fleet-u2#svc#old'' \<and>
   isEndpointOwnedByBackend demoLeaving (ToLower ''Fleet-u2#svc#old'') \<and>
   list_all (\<lambda>(q, a). case q of EndpointsDelete rg prof nm \<Rightarrow> False | _ \<Rightarrow> True) demoLeavingRun \<and>
   fst (last demoLeavingRun) = Update Hub (OTMB (demoLeaving\<lparr>tmb_ObjectMeta := (tmbMeta demoLeaving)\<lparr>om_Finalizers := []\<rparr>\<rparr>))"
  by (intro conjI; code_simp)

text \<open>C36. The only panics: a pass panics only when Azure has answered with a profile that has no properties or no
  name, or has confirmed an endpoint without name or properties; the desired endpoints and the defaulted
  backend never lack a value that the code reads.\<close>

theorem TMB_panics_only:
  assumes "errgroup_laws L" and "steps (TMB_Reconcile L n) tr (Panic m)"
  shows "incompleteAnswer tr"
  using wpan_panic [OF assms(2) refl TMB_Reconcile_wpan [OF assms(1)]] by simp

theorem TMB_panics_only_witness:
  "isPanic (snd (play (demoBackendAnswers (demoAzure\<lparr>ap_Name := Some ''fleet-u1''\<rparr>)) (TMB_Reconcile refLib (metaKey (tmb_ObjectMeta demoBackend))))) \<and>
   incompleteAnswer (fst (play (demoBackendAnswers (demoAzure\<lparr>ap_Name := Some ''fleet-u1''\<rparr>)) (TMB_Reconcile refLib (metaKey (tmb_ObjectMeta demoBackend)))))"
proof -
  let ?p = "TMB_Reconcile refLib (metaKey (tmb_ObjectMeta demoBackend))"
  let ?as = "demoBackendAnswers (demoAzure\<lparr>ap_Name := Some ''fleet-u1''\<rparr>)"
  have st: "steps ?p (fst (play ?as ?p)) (snd (play ?as ?p))" by (rule play_trace_steps) simp
  have p: "isPanic (snd (play ?as ?p))" by code_simp
  then obtain m where "snd (play ?as ?p) = Panic m" by (auto simp: isPanic_def split: prog.splits)
  with TMB_panics_only [OF refLib_errgroup_laws, of "metaKey (tmb_ObjectMeta demoBackend)" _ m] st p show ?thesis by simp
qed

end
