(* ===== verification/Metrics.thy ===== *)
theory Metrics
  imports ApiRetry
begin

text \<open>
  The package \<open>pkg/common/metrics\<close>: the annotations that mark what has been measured, the buckets of the
  duration histograms, and the rule by which two controllers turn a pair of timestamps into a data
  point (\<open>observeMetrics\<close> of the InternalServiceExport and of the EndpointSliceImport controller).
\<close>

definition MetricsAnnotationLastSeenGeneration :: string where
  "MetricsAnnotationLastSeenGeneration = ''networking.fleet.azure.com/last-seen-generation''"

definition MetricsAnnotationLastSeenResourceVersion :: string where
  "MetricsAnnotationLastSeenResourceVersion = ''networking.fleet.azure.com/last-seen-resource-version''"

definition MetricsAnnotationLastObservedGeneration :: string where
  "MetricsAnnotationLastObservedGeneration = ''networking.fleet.azure.com/last-observed-generation''"

definition MetricsAnnotationLastObservedResourceVersion :: string where
  "MetricsAnnotationLastObservedResourceVersion = ''networking.fleet.azure.com/last-observed-resource-version''"

definition MetricsAnnotationLastSeenTimestamp :: string where
  "MetricsAnnotationLastSeenTimestamp = ''networking.fleet.azure.com/last-seen-timestamp''"

text \<open>The bounds are whole numbers of milliseconds, so the \<open>float64\<close> values are exact.\<close>

definition ExportDurationMillisecondsBuckets :: "int list" where
  "ExportDurationMillisecondsBuckets = [1000, 2500, 5000, 10000, 25000, 50000]"

definition ExportDurationRightBound :: int where
  "ExportDurationRightBound = last ExportDurationMillisecondsBuckets * 2"

text \<open>\<open>Duration.Milliseconds\<close> of the difference, made positive and capped.\<close>

definition durationMillis :: "time \<Rightarrow> time \<Rightarrow> int" where
  "durationMillis endTime startTime =
     (let timeSpent = quot (sat64 (endTime - startTime)) 1000000;
          timeSpent = (if timeSpent \<le> 0 then 1000 else timeSpent)
      in if timeSpent > ExportDurationRightBound then ExportDurationRightBound else timeSpent)"

lemma ExportDurationRightBound_value [simp]: "ExportDurationRightBound = 100000"
  by (simp add: ExportDurationRightBound_def ExportDurationMillisecondsBuckets_def)

lemma durationMillis_bounds: "0 < durationMillis e s" "durationMillis e s \<le> ExportDurationRightBound"
  by (simp_all add: durationMillis_def Let_def)

text \<open>A difference of at least a millisecond and at most 100 seconds is measured exactly.\<close>

lemma durationMillis_exact:
  assumes "1000000 \<le> e - s" and "e - s \<le> 100000 * 1000000"
  shows "durationMillis e s = (e - s) div 1000000"
proof -
  have "quot (sat64 (e - s)) 1000000 = (e - s) div 1000000"
    using assms by (simp add: sat64_def quot_nonneg)
  moreover have "0 < (e - s) div 1000000" "(e - s) div 1000000 \<le> 100000" using assms by linarith+
  ultimately show ?thesis by (simp add: durationMillis_def Let_def)
qed

end
