(* ===== verification/Member_ServiceExport.thy ===== *)
theory Member_ServiceExport
  imports Observations Conditions ObjectNames Metrics
begin

text \<open>
  The ServiceExport controller of a member cluster
  (\<open>pkg/controllers/member/serviceexport/controller.go\<close> and \<open>util.go\<close>): it exports a service as an
  InternalServiceExport of the hub, withdraws it, and keeps the conditions of the ServiceExport.
\<close>

section \<open>The model\<close>

definition svcExportValidCondReason :: string where
  "svcExportValidCondReason = ''ServiceIsValid''"

definition svcExportInvalidNotFoundCondReason :: string where
  "svcExportInvalidNotFoundCondReason = ''ServiceNotFound''"

definition svcExportInvalidIneligibleCondReason :: string where
  "svcExportInvalidIneligibleCondReason = ''ServiceIneligible''"

definition svcExportPendingConflictResolutionReason :: string where
  "svcExportPendingConflictResolutionReason = ''ServicePendingConflictResolution''"

definition svcExportInvalidWeightAnnotationReason :: string where
  "svcExportInvalidWeightAnnotationReason = ''ServiceExportInvalidWeightAnnotation''"

definition svcExportCleanupFinalizer :: string where
  "svcExportCleanupFinalizer = ''networking.fleet.azure.com/svc-export-cleanup''"

text \<open>The fields of the reconciler that are not clients.\<close>

record SEX_Reconciler =
  sxr_MemberClusterID :: string
  sxr_HubNamespace :: string
  sxr_ResourceGroupName :: string
  sxr_EnableTrafficManagerFeature :: bool

definition formatInternalServiceExportName :: "ServiceExport \<Rightarrow> string" where
  "formatInternalServiceExportName e = om_Namespace (se_ObjectMeta e) @ ''-'' @ om_Name (se_ObjectMeta e)"

definition isServiceEligibleForExport :: "Service \<Rightarrow> bool" where
  "isServiceEligibleForExport svc = (\<not> (svc_Type svc = ''ExternalName'' \<or> svc_ClusterIP svc = ''None''))"

definition extractServicePorts :: "Service \<Rightarrow> ServicePort list" where
  "extractServicePorts svc = map (\<lambda>p. \<lparr>sp_Name = csp_Name p, sp_Protocol = csp_Protocol p,
     sp_AppProtocol = csp_AppProtocol p, sp_Port = csp_Port p, sp_TargetPort = csp_TargetPort p\<rparr>) (svc_Ports svc)"

text \<open>\<open>strings.TrimSpace\<close> on ASCII text.\<close>

definition isUnicodeSpace :: "char \<Rightarrow> bool" where
  "isUnicodeSpace c = (let n = (of_char c :: nat) in n = 32 \<or> (9 \<le> n \<and> n \<le> 13))"

definition TrimSpace :: "string \<Rightarrow> string" where
  "TrimSpace s = rev (dropWhile isUnicodeSpace (rev (dropWhile isUnicodeSpace s)))"

definition eventWarning :: string where "eventWarning = ''Warning''"
definition eventNormal :: string where "eventNormal = ''Normal''"

text \<open>The public IP addresses whose address is known, with the address.\<close>

definition pipAddress :: "PublicIPAddress \<Rightarrow> string option" where
  "pipAddress pip = (case pip_Properties pip of None \<Rightarrow> None | Some pr \<Rightarrow> ppp_IPAddress pr)"

definition SEX_lookupPublicIPResourceIDByLoadBalancerIP ::
    "SEX_Reconciler \<Rightarrow> Service \<Rightarrow> (err + PublicIPAddress option) op" where
  "SEX_lookupPublicIPResourceIDByLoadBalancerIP r service =
     (let rg = TrimSpace (mgets (om_Annotations (svc_ObjectMeta service)) ServiceAnnotationLoadBalancerResourceGroup);
          rg = (if rg = [] then sxr_ResourceGroupName r else rg)
      in bindP (call (PublicIPList rg) decPips) (\<lambda>res.
           case res of
             Inl e \<Rightarrow> Ret (Inl e)
           | Inr pips \<Rightarrow>
               (case svc_LoadBalancer service of
                  [] \<Rightarrow> if list_ex (\<lambda>pip. pipAddress pip \<noteq> None) pips then Panic ''index out of range'' else Ret (Inr None)
                | ing # _ \<Rightarrow> Ret (Inr (find (\<lambda>pip. pipAddress pip = Some (lbi_IP ing)) pips)))))"

text \<open>The hub object is written field by field, also when an error is returned.\<close>

definition hasDNSLabel :: "PublicIPAddress \<Rightarrow> bool" where
  "hasDNSLabel pip = (case pip_Properties pip of None \<Rightarrow> False
     | Some pr \<Rightarrow> (case ppp_DNSSettings pr of None \<Rightarrow> False | Some d \<Rightarrow> pds_DomainNameLabel d \<noteq> None))"

definition SEX_setPublicIP :: "Service \<Rightarrow> PublicIPAddress \<Rightarrow> InternalServiceExportSpec \<Rightarrow> (err option \<times> InternalServiceExportSpec) op" where
  "SEX_setPublicIP service pip spec =
     (let spec = spec\<lparr>ises_PublicIPResourceID := pip_ID pip, ises_IsDNSLabelConfigured := hasDNSLabel pip\<rparr> in
      case mget (om_Annotations (svc_ObjectMeta service)) ServiceAnnotationAzureDNSLabelName of
        None \<Rightarrow> Ret (None, spec)
      | Some dnsName \<Rightarrow>
          if dnsName = [] then Ret (None, spec\<lparr>ises_IsDNSLabelConfigured := False\<rparr>)
          else if \<not> ises_IsDNSLabelConfigured spec then
            (case pip_ID pip of
               None \<Rightarrow> Panic ''nil pointer dereference''
             | Some i \<Rightarrow> Ret (Some (PlainErr (''in the process of adding DNS to the public ip address '' @ i)), spec))
          else Ret (None, spec))"

definition SEX_setAzureRelatedInformation ::
    "SEX_Reconciler \<Rightarrow> Service \<Rightarrow> InternalServiceExportSpec \<Rightarrow> (err option \<times> InternalServiceExportSpec) op" where
  "SEX_setAzureRelatedInformation r service spec =
     (let spec = spec\<lparr>ises_Type := svc_Type service\<rparr> in
      if svc_Type service \<noteq> ''LoadBalancer'' then Ret (None, spec)
      else
        let spec = spec\<lparr>ises_IsInternalLoadBalancer :=
              (mgets (om_Annotations (svc_ObjectMeta service)) ServiceAnnotationAzureLoadBalancerInternal = ''true'')\<rparr> in
        if ises_IsInternalLoadBalancer spec then Ret (None, spec)
        else
          (case svc_LoadBalancer service of
             [] \<Rightarrow> Ret (None, spec)
           | ing # _ \<Rightarrow>
               if lbi_IP ing = [] then Ret (None, spec)
               else bindP (SEX_lookupPublicIPResourceIDByLoadBalancerIP r service) (\<lambda>res.
                 case res of
                   Inl e \<Rightarrow> Ret (Some e, spec)
                 | Inr None \<Rightarrow> Ret (None, spec)
                 | Inr (Some pip) \<Rightarrow> SEX_setPublicIP service pip spec)))"

text \<open>The mutate function of \<open>exportService\<close>.\<close>

definition SEX_fill :: "Lib \<Rightarrow> SEX_Reconciler \<Rightarrow> Service \<Rightarrow> time \<Rightarrow> int \<Rightarrow> InternalServiceExport \<Rightarrow> (err option \<times> InternalServiceExport) op" where
  "SEX_fill L r svc exportedSince exportWeight i =
     (let m = svc_ObjectMeta svc;
          spec = (if om_CreationTimestamp (ise_ObjectMeta i) = None
            then (ise_Spec i)\<lparr>ises_ServiceReference := FromMetaObjects (sxr_MemberClusterID r) (svc_TypeMeta svc) m (Some exportedSince)\<rparr>
            else ise_Spec i)
      in if eor_UID (ises_ServiceReference spec) \<noteq> om_UID m then
           Ret (Some (LibNewAlreadyExists L ''Service'' (om_Namespace m @ ''/'' @ om_Name m)), i\<lparr>ise_Spec := spec\<rparr>)
         else
           let spec = spec\<lparr>ises_Ports := extractServicePorts svc,
                 ises_ServiceReference := UpdateFromMetaObject m (Some exportedSince) (ises_ServiceReference spec)\<rparr>
           in if sxr_EnableTrafficManagerFeature r then
                bindP (SEX_setAzureRelatedInformation r svc (spec\<lparr>ises_Weight := Some exportWeight\<rparr>)) (\<lambda>(er, spec).
                  Ret (er, i\<lparr>ise_Spec := spec\<rparr>))
              else Ret (None, i\<lparr>ise_Spec := spec\<rparr>))"

definition SEX_mutate :: "Lib \<Rightarrow> SEX_Reconciler \<Rightarrow> Service \<Rightarrow> time \<Rightarrow> int \<Rightarrow> kobj \<Rightarrow> (err option \<times> kobj) op" where
  "SEX_mutate L r svc exportedSince exportWeight x =
     (case x of
        OISE i \<Rightarrow> bindP (SEX_fill L r svc exportedSince exportWeight i) (\<lambda>(er, j). Ret (er, OISE j))
      | _ \<Rightarrow> Ret (None, x))"

definition SEX_removeServiceExportCleanupFinalizer :: "Lib \<Rightarrow> ServiceExport \<Rightarrow> (err option \<times> ServiceExport) op" where
  "SEX_removeServiceExportCleanupFinalizer L e =
     doUpdate Mem OSE decSE (e\<lparr>se_ObjectMeta := LibRemoveFinalizer L (se_ObjectMeta e) svcExportCleanupFinalizer\<rparr>)"

definition SEX_addServiceExportCleanupFinalizer :: "Lib \<Rightarrow> ServiceExport \<Rightarrow> (err option \<times> ServiceExport) op" where
  "SEX_addServiceExportCleanupFinalizer L e =
     doUpdate Mem OSE decSE (e\<lparr>se_ObjectMeta := LibAddFinalizer L (se_ObjectMeta e) svcExportCleanupFinalizer\<rparr>)"

definition newISE :: "string \<Rightarrow> string \<Rightarrow> InternalServiceExport" where
  "newISE ns nm = \<lparr>ise_ObjectMeta = metaOf ns nm, ise_Spec = zeroISESpec, ise_Conditions = []\<rparr>"

definition SEX_unexportService :: "Lib \<Rightarrow> SEX_Reconciler \<Rightarrow> ServiceExport \<Rightarrow> (err option \<times> ServiceExport) op" where
  "SEX_unexportService L r e =
     (let i = newISE (sxr_HubNamespace r) (formatInternalServiceExportName e) in
      bindP (deleteObj Hub KInternalServiceExport (metaKey (ise_ObjectMeta i))) (\<lambda>der.
        if (case der of None \<Rightarrow> False | Some x \<Rightarrow> \<not> IsNotFound x) then Ret (der, e)
        else SEX_removeServiceExportCleanupFinalizer L e))"

definition SEX_exportService :: "Lib \<Rightarrow> SEX_Reconciler \<Rightarrow> ServiceExport \<Rightarrow> Service \<Rightarrow> time \<Rightarrow> int \<Rightarrow> outcome op" where
  "SEX_exportService L r e svc exportedSince exportWeight =
     bindP (LibCreateOrUpdate L Hub (OISE (newISE (sxr_HubNamespace r) (formatInternalServiceExportName e)))
              (SEX_mutate L r svc exportedSince exportWeight)) (\<lambda>(er, _).
       case er of
         None \<Rightarrow> Ret (emptyResult, None)
       | Some x \<Rightarrow>
           if IsAlreadyExists x \<and> statusKind x = Some ''Service'' then
             bindP (SEX_unexportService L r e) (\<lambda>(uer, _).
               case uer of
                 Some y \<Rightarrow> Ret (emptyResult, Some y)
               | None \<Rightarrow> Ret (\<lparr>res_Requeue = True, res_RequeueAfter = 0\<rparr>, None))
           else Ret (emptyResult, Some x))"

text \<open>Conditions.\<close>

definition validCondition :: "ServiceExport \<Rightarrow> ConditionStatus \<Rightarrow> string \<Rightarrow> string \<Rightarrow> Condition" where
  "validCondition e status reason msg =
     \<lparr>c_Type = ServiceExportValid, c_Status = status, c_ObservedGeneration = om_Generation (se_ObjectMeta e),
      c_LastTransitionTime = None, c_Reason = reason, c_Message = msg\<rparr>"

definition nsName :: "ServiceExport \<Rightarrow> string" where
  "nsName e = om_Namespace (se_ObjectMeta e) @ ''/'' @ om_Name (se_ObjectMeta e)"

definition SEX_setCondition :: "Lib \<Rightarrow> ServiceExport \<Rightarrow> Condition \<Rightarrow> ServiceExport" where
  "SEX_setCondition L e c = e\<lparr>se_Conditions := LibSetStatusCondition L (se_Conditions e) c\<rparr>"

definition SEX_statusUpdate :: "ServiceExport \<Rightarrow> (err option \<times> ServiceExport) op" where
  "SEX_statusUpdate e = doStatusUpdate Mem OSE decSE e"

definition SEX_markServiceExportAsInvalidNotFound :: "Lib \<Rightarrow> ServiceExport \<Rightarrow> (err option \<times> ServiceExport) op" where
  "SEX_markServiceExportAsInvalidNotFound L e =
     (let c = validCondition e ConditionFalse svcExportInvalidNotFoundCondReason (''service '' @ nsName e @ '' is not found'') in
      if EqualCondition (LibFindStatusCondition L (se_Conditions e) ServiceExportValid) (Some c) then Ret (None, e)
      else SEX_statusUpdate (SEX_setCondition L e c))"

definition SEX_markServiceExportAsInvalidSvcIneligible :: "Lib \<Rightarrow> ServiceExport \<Rightarrow> (err option \<times> ServiceExport) op" where
  "SEX_markServiceExportAsInvalidSvcIneligible L e =
     (let c = validCondition e ConditionFalse svcExportInvalidIneligibleCondReason
                (''service '' @ nsName e @ '' is not eligible for export'') in
      if EqualCondition (LibFindStatusCondition L (se_Conditions e) ServiceExportValid) (Some c) then Ret (None, e)
      else SEX_statusUpdate (SEX_setCondition L e c))"

definition pendingCondition :: "ServiceExport \<Rightarrow> Condition" where
  "pendingCondition e =
     \<lparr>c_Type = ServiceExportConflict, c_Status = ConditionUnknown, c_ObservedGeneration = om_Generation (se_ObjectMeta e),
      c_LastTransitionTime = None, c_Reason = svcExportPendingConflictResolutionReason,
      c_Message = ''service '' @ nsName e @ '' is pending export conflict resolution''\<rparr>"

definition SEX_markServiceExportAsValid :: "Lib \<Rightarrow> ServiceExport \<Rightarrow> (err option \<times> ServiceExport) op" where
  "SEX_markServiceExportAsValid L e =
     (let c = validCondition e ConditionTrue svcExportValidCondReason (''service '' @ nsName e @ '' is valid for export'');
          stale = \<not> EqualConditionWithMessage (LibFindStatusCondition L (se_Conditions e) ServiceExportValid) (Some c);
          e1 = (if stale then SEX_setCondition L e c else e);
          fresh = (LibFindStatusCondition L (se_Conditions e1) ServiceExportConflict = None);
          e2 = (if fresh then SEX_setCondition L e1 (pendingCondition e1) else e1);
          nm = om_Name (se_ObjectMeta e)
      in if \<not> stale \<and> \<not> fresh then Ret (None, e2)
         else
           bindP (eventf KServiceExport (se_ObjectMeta e2) eventNormal ''ValidServiceExport'' (''Service '' @ nm @ '' is valid for export'')) (\<lambda>_.
           bindP (eventf KServiceExport (se_ObjectMeta e2) eventNormal ''PendingExportConflictResolution''
                    (''Service '' @ nm @ '' is pending export conflict resolution'')) (\<lambda>_.
           SEX_statusUpdate e2)))"

text \<open>The time since when the current version of the service is exported.\<close>

definition SEX_lastSeenAnnotations :: "Lib \<Rightarrow> Service \<Rightarrow> time \<Rightarrow> string gomap \<Rightarrow> string gomap" where
  "SEX_lastSeenAnnotations L svc startTime m =
     mapPut MetricsAnnotationLastSeenTimestamp (FormatRFC3339 (LibLocalOffset L startTime) startTime)
       (mapPut MetricsAnnotationLastSeenResourceVersion (om_ResourceVersion (svc_ObjectMeta svc)) m)"

definition SEX_annotateLastSeenResourceVersionAndTimestamp ::
    "Lib \<Rightarrow> Service \<Rightarrow> ServiceExport \<Rightarrow> time \<Rightarrow> (err option \<times> ServiceExport) op" where
  "SEX_annotateLastSeenResourceVersionAndTimestamp L svc e startTime =
     doUpdate Mem OSE decSE (e\<lparr>se_ObjectMeta := (se_ObjectMeta e)\<lparr>om_Annotations :=
       SEX_lastSeenAnnotations L svc startTime (om_Annotations (se_ObjectMeta e))\<rparr>\<rparr>)"

text \<open>The time that the annotations record for this version of the service, if they do.\<close>

definition SEX_lastSeen :: "Service \<Rightarrow> ServiceExport \<Rightarrow> time \<Rightarrow> time option" where
  "SEX_lastSeen svc e startTime =
     (let an = om_Annotations (se_ObjectMeta e) in
      case (mget an MetricsAnnotationLastSeenResourceVersion, mget an MetricsAnnotationLastSeenTimestamp) of
        (Some v, Some d) \<Rightarrow>
          (case ParseRFC3339 d of
             None \<Rightarrow> None
           | Some t \<Rightarrow> if v \<noteq> om_ResourceVersion (svc_ObjectMeta svc) \<or> startTime < t then None else Some t)
      | _ \<Rightarrow> None)"

definition SEX_collectAndVerifyLastSeenResourceVersionAndTimestamp ::
    "Lib \<Rightarrow> Service \<Rightarrow> ServiceExport \<Rightarrow> time \<Rightarrow> (time \<times> err option \<times> ServiceExport) op" where
  "SEX_collectAndVerifyLastSeenResourceVersionAndTimestamp L svc e startTime =
     (case SEX_lastSeen svc e startTime of
        Some t \<Rightarrow> Ret (t, None, e)
      | None \<Rightarrow> bindP (SEX_annotateLastSeenResourceVersionAndTimestamp L svc e startTime) (\<lambda>(er, e'). Ret (startTime, er, e')))"

text \<open>\<open>unexportService\<close> when the finalizer is present; then the rest.\<close>

definition SEX_unexportIfExported :: "Lib \<Rightarrow> SEX_Reconciler \<Rightarrow> ServiceExport \<Rightarrow> (ServiceExport \<Rightarrow> outcome op) \<Rightarrow> outcome op" where
  "SEX_unexportIfExported L r e rest =
     (if LibContainsFinalizer L (se_ObjectMeta e) svcExportCleanupFinalizer then
        bindP (SEX_unexportService L r e) (\<lambda>(er, e1).
          case er of Some x \<Rightarrow> Ret (emptyResult, Some x) | None \<Rightarrow> rest e1)
      else rest e)"

text \<open>Set the condition that carries the weight, unless it is there.\<close>

definition SEX_reportWeight :: "Lib \<Rightarrow> ServiceExport \<Rightarrow> Condition \<Rightarrow> (unit op) \<Rightarrow> outcome op" where
  "SEX_reportWeight L e c note =
     (if EqualConditionWithMessage (LibFindStatusCondition L (se_Conditions e) ServiceExportValid) (Some c) then Ret (emptyResult, None)
      else bindP note (\<lambda>_. bindP (SEX_statusUpdate (SEX_setCondition L e c)) (\<lambda>(er, _). Ret (emptyResult, er))))"

definition SEX_notFound :: "Lib \<Rightarrow> SEX_Reconciler \<Rightarrow> string \<Rightarrow> ServiceExport \<Rightarrow> outcome op" where
  "SEX_notFound L r svcName e =
     bindP (eventf KServiceExport (se_ObjectMeta e) eventWarning ''ServiceNotFound''
              (''Service '' @ svcName @ '' is not found or in the deleting state'')) (\<lambda>_.
     SEX_unexportIfExported L r e (\<lambda>e1.
       bindP (SEX_markServiceExportAsInvalidNotFound L e1) (\<lambda>(er, _). Ret (emptyResult, er))))"

definition SEX_ineligible :: "Lib \<Rightarrow> SEX_Reconciler \<Rightarrow> Service \<Rightarrow> ServiceExport \<Rightarrow> outcome op" where
  "SEX_ineligible L r svc e =
     bindP (eventf KServiceExport (se_ObjectMeta e) eventWarning ''ServiceNotEligible''
              (''Service '' @ om_Name (svc_ObjectMeta svc) @ '' is not eligible for exporting and please check service spec'')) (\<lambda>_.
     SEX_unexportIfExported L r e (\<lambda>e1.
       bindP (SEX_markServiceExportAsInvalidSvcIneligible L e1) (\<lambda>(er, _). Ret (emptyResult, er))))"

definition SEX_badWeight :: "Lib \<Rightarrow> Service \<Rightarrow> ServiceExport \<Rightarrow> err \<Rightarrow> outcome op" where
  "SEX_badWeight L svc e x =
     SEX_reportWeight L e
       (validCondition e ConditionFalse svcExportInvalidWeightAnnotationReason
          (''serviceExport '' @ nsName e @ '' has an invalid weight annotation, err = '' @ errString x))
       (eventf KServiceExport (se_ObjectMeta e) eventWarning svcExportInvalidWeightAnnotationReason
          (''ServiceExport '' @ om_Name (svc_ObjectMeta svc) @ '' has invalid weight value in the annotation''))"

definition SEX_zeroWeight :: "Lib \<Rightarrow> SEX_Reconciler \<Rightarrow> Service \<Rightarrow> ServiceExport \<Rightarrow> outcome op" where
  "SEX_zeroWeight L r svc e =
     bindP (eventf KServiceExport (se_ObjectMeta e) eventNormal ''Service''
              (''Service '' @ om_Name (svc_ObjectMeta svc) @ '' weight is set to 0'')) (\<lambda>_.
     SEX_unexportIfExported L r e (\<lambda>e1.
       SEX_reportWeight L e1
         (validCondition e1 ConditionTrue svcExportValidCondReason (''exported service '' @ nsName e1 @ '' with 0 weight''))
         (Ret ())))"

text \<open>An error while annotating is only logged.\<close>

definition SEX_markAndExport :: "Lib \<Rightarrow> SEX_Reconciler \<Rightarrow> ServiceExport \<Rightarrow> Service \<Rightarrow> time \<Rightarrow> int \<Rightarrow> outcome op" where
  "SEX_markAndExport L r e svc startTime exportWeight =
     bindP (SEX_markServiceExportAsValid L e) (\<lambda>(er, e1).
       case er of
         Some x \<Rightarrow> Ret (emptyResult, Some x)
       | None \<Rightarrow>
           bindP (SEX_collectAndVerifyLastSeenResourceVersionAndTimestamp L svc e1 startTime) (\<lambda>(exportedSince, _, e2).
             SEX_exportService L r e2 svc exportedSince exportWeight))"

definition SEX_handleService :: "Lib \<Rightarrow> SEX_Reconciler \<Rightarrow> ServiceExport \<Rightarrow> Service \<Rightarrow> time \<Rightarrow> outcome op" where
  "SEX_handleService L r e svc startTime =
     (if \<not> isServiceEligibleForExport svc then SEX_ineligible L r svc e
      else case ExtractWeightFromServiceExport e of
        (_, Some x) \<Rightarrow> SEX_badWeight L svc e x
      | (exportWeight, None) \<Rightarrow>
          if exportWeight = 0 then SEX_zeroWeight L r svc e
          else if \<not> LibContainsFinalizer L (se_ObjectMeta e) svcExportCleanupFinalizer then
            bindP (SEX_addServiceExportCleanupFinalizer L e) (\<lambda>(er, e1).
              case er of Some x \<Rightarrow> Ret (emptyResult, Some x) | None \<Rightarrow> SEX_markAndExport L r e1 svc startTime exportWeight)
          else SEX_markAndExport L r e svc startTime exportWeight)"

definition SEX_Reconcile :: "Lib \<Rightarrow> SEX_Reconciler \<Rightarrow> NamespacedName \<Rightarrow> outcome op" where
  "SEX_Reconcile L r req =
     bindP timeNow (\<lambda>startTime.
     bindP (getSE Mem req) (\<lambda>g.
       case g of
         Inl x \<Rightarrow> if IsNotFound x then Ret (emptyResult, None) else Ret (emptyResult, Some x)
       | Inr e \<Rightarrow>
           if om_DeletionTimestamp (se_ObjectMeta e) \<noteq> None then
             (if LibContainsFinalizer L (se_ObjectMeta e) svcExportCleanupFinalizer then
                bindP (SEX_unexportService L r e) (\<lambda>(er, _). Ret (emptyResult, er))
              else Ret (emptyResult, None))
           else
             bindP (getSVC Mem req) (\<lambda>g2.
               case g2 of
                 Inl x \<Rightarrow> if IsNotFound x then SEX_notFound L r (nn_Name req) e else Ret (emptyResult, Some x)
               | Inr svc \<Rightarrow>
                   if om_DeletionTimestamp (svc_ObjectMeta svc) \<noteq> None then SEX_notFound L r (om_Name (svc_ObjectMeta svc)) e
                   else SEX_handleService L r e svc startTime)))"

section \<open>What is said of the controller\<close>

definition hasSEFinalizer :: "kobj \<Rightarrow> bool" where
  "hasSEFinalizer x = (case x of OSE e \<Rightarrow> svcExportCleanupFinalizer \<in> set (om_Finalizers (se_ObjectMeta e)) | _ \<Rightarrow> False)"

definition exportKey :: "SEX_Reconciler \<Rightarrow> ServiceExport \<Rightarrow> NamespacedName" where
  "exportKey r e = \<lparr>nn_Namespace = sxr_HubNamespace r, nn_Name = formatInternalServiceExportName e\<rparr>"

definition known :: "SEX_Reconciler \<Rightarrow> trace \<Rightarrow> ServiceExport \<Rightarrow> bool" where
  "known r h e \<longleftrightarrow> (\<exists>e0. answered (OSE e0) h \<and> exportKey r e0 = exportKey r e)"

text \<open>A live, eligible service, and a ServiceExport that gives it this weight.\<close>

definition exportable :: "trace \<Rightarrow> Service \<Rightarrow> int \<Rightarrow> bool" where
  "exportable h svc w \<longleftrightarrow> answered (OSVC svc) h \<and> om_DeletionTimestamp (svc_ObjectMeta svc) = None \<and> isServiceEligibleForExport svc \<and>
     (\<exists>e. answered (OSE e) h \<and> om_DeletionTimestamp (se_ObjectMeta e) = None \<and> ExtractWeightFromServiceExport e = (w, None))"

definition someExportable :: "trace \<Rightarrow> bool" where
  "someExportable h \<longleftrightarrow> (\<exists>svc w. exportable h svc w)"

text \<open>The hub object describes the service.\<close>

definition describes :: "SEX_Reconciler \<Rightarrow> Service \<Rightarrow> int \<Rightarrow> InternalServiceExport \<Rightarrow> bool" where
  "describes r svc w i \<longleftrightarrow> ises_Ports (ise_Spec i) = extractServicePorts svc \<and>
     eor_UID (ises_ServiceReference (ise_Spec i)) = om_UID (svc_ObjectMeta svc) \<and>
     (sxr_EnableTrafficManagerFeature r \<longrightarrow> ises_Weight (ise_Spec i) = Some w \<and> ises_Type (ise_Spec i) = svc_Type svc)"

text \<open>The service must not be exported, or not under the UID that the hub has.\<close>

definition unexportable :: "trace \<Rightarrow> NamespacedName \<Rightarrow> bool" where
  "unexportable h n \<longleftrightarrow> gone Mem KService n h \<or>
     (\<exists>svc. answered (OSVC svc) h \<and> (om_DeletionTimestamp (svc_ObjectMeta svc) \<noteq> None \<or> \<not> isServiceEligibleForExport svc))"

text \<open>The error by which the mutate function tells that the hub object belongs to another service.\<close>

definition claimsService :: "err \<Rightarrow> bool" where
  "claimsService x \<longleftrightarrow> IsAlreadyExists x \<and> statusKind x = Some ''Service''"

definition withdrawable :: "trace \<Rightarrow> NamespacedName \<Rightarrow> bool" where
  "withdrawable h n \<longleftrightarrow> unexportable h n \<or>
     (\<exists>e. answered (OSE e) h \<and> (om_DeletionTimestamp (se_ObjectMeta e) \<noteq> None \<or> ExtractWeightFromServiceExport e = (0, None))) \<or>
     (\<exists>svc i. answered (OSVC svc) h \<and> answered (OISE i) h \<and> eor_UID (ises_ServiceReference (ise_Spec i)) \<noteq> om_UID (svc_ObjectMeta svc)) \<or>
     (\<exists>q x. (q, RErr x) \<in> set h \<and> claimsService x)"

text \<open>The Valid condition says what was seen.\<close>

definition truthful :: "Lib \<Rightarrow> trace \<Rightarrow> NamespacedName \<Rightarrow> ServiceExport \<Rightarrow> bool" where
  "truthful L h n e \<longleftrightarrow> (\<exists>c. LibFindStatusCondition L (se_Conditions e) ServiceExportValid = Some c \<and>
     (c_Status c = ConditionTrue \<and> someExportable h \<or>
      c_Status c = ConditionFalse \<and> (unexportable h n \<or>
        (\<exists>e0 w x. answered (OSE e0) h \<and> ExtractWeightFromServiceExport e0 = (w, Some x)))))"

definition SEX_guard :: "Lib \<Rightarrow> SEX_Reconciler \<Rightarrow> NamespacedName \<Rightarrow> trace \<Rightarrow> request \<Rightarrow> bool" where
  "SEX_guard L r n h q \<longleftrightarrow>
     (case q of
        Create cl x \<Rightarrow> cl = Hub \<and> shown Mem hasSEFinalizer h \<and>
          (\<exists>i svc w. x = OISE i \<and> om_Namespace (ise_ObjectMeta i) = sxr_HubNamespace r \<and> exportable h svc w \<and> 0 < w \<and> w \<le> 1000 \<and> describes r svc w i)
      | Update cl x \<Rightarrow>
          (case x of
             OISE i \<Rightarrow> cl = Hub \<and> shown Mem hasSEFinalizer h \<and> (\<exists>svc w. exportable h svc w \<and> 0 < w \<and> w \<le> 1000 \<and> describes r svc w i)
           | OSE e \<Rightarrow> cl = Mem \<and> (hasSEFinalizer x \<or> gone Hub KInternalServiceExport (exportKey r e) h \<or>
               (\<exists>e0. answered (OSE e0) h \<and> om_Finalizers (se_ObjectMeta e) = om_Finalizers (se_ObjectMeta e0)))
           | _ \<Rightarrow> False)
      | StatusUpdate cl x \<Rightarrow> cl = Mem \<and> (\<exists>e. x = OSE e \<and> truthful L h n e)
      | Delete cl kd m \<Rightarrow> cl = Hub \<and> kd = KInternalServiceExport \<and> (\<exists>e. known r h e \<and> m = exportKey r e) \<and> withdrawable h n
      | _ \<Rightarrow> True)"

definition sexRest :: "InternalServiceExportSpec \<Rightarrow> ServicePort list \<times> ExportedObjectReference \<times> int option" where
  "sexRest s = (ises_Ports s, ises_ServiceReference s, ises_Weight s)"

text \<open>After a successful create or update, the hub has an object that describes the service.\<close>

definition hubHas :: "(kobj \<Rightarrow> bool) \<Rightarrow> trace \<Rightarrow> bool" where
  "hubHas P h \<longleftrightarrow> shown Hub P h \<or> (\<exists>x y. (Create Hub x, RObj y) \<in> set h \<and> P x)"

definition describesObj :: "SEX_Reconciler \<Rightarrow> Service \<Rightarrow> int \<Rightarrow> kobj \<Rightarrow> bool" where
  "describesObj r svc w x = (case x of OISE i \<Rightarrow> describes r svc w i | _ \<Rightarrow> False)"

text \<open>The service is exported, or there is a reason not to export it.\<close>

definition excused :: "trace \<Rightarrow> NamespacedName \<Rightarrow> bool" where
  "excused h n \<longleftrightarrow> gone Mem KServiceExport n h \<or> unexportable h n \<or>
     (\<exists>e. answered (OSE e) h \<and> (om_DeletionTimestamp (se_ObjectMeta e) \<noteq> None \<or> ExtractWeightFromServiceExport e = (0, None) \<or>
        snd (ExtractWeightFromServiceExport e) \<noteq> None))"

definition exported :: "SEX_Reconciler \<Rightarrow> trace \<Rightarrow> bool" where
  "exported r h \<longleftrightarrow> (\<exists>svc w. exportable h svc w \<and> 0 < w \<and> hubHas (describesObj r svc w) h)"

definition SEX_done :: "SEX_Reconciler \<Rightarrow> NamespacedName \<Rightarrow> trace \<Rightarrow> outcome \<Rightarrow> bool" where
  "SEX_done r n h out \<longleftrightarrow> (snd out = None \<and> \<not> res_Requeue (fst out) \<longrightarrow> excused h n \<or> exported r h)"

text \<open>Objects and answers for the examples.\<close>

definition demoMember :: SEX_Reconciler where
  "demoMember = \<lparr>sxr_MemberClusterID = ''c1'', sxr_HubNamespace = ''fleet-member-c1'', sxr_ResourceGroupName = ''rg'',
     sxr_EnableTrafficManagerFeature = True\<rparr>"

definition demoServiceExport :: ServiceExport where
  "demoServiceExport = \<lparr>se_ObjectMeta = metaOf ''work'' ''app'', se_Conditions = []\<rparr>"

definition demoService :: Service where
  "demoService = \<lparr>svc_TypeMeta = zeroType, svc_ObjectMeta = (metaOf ''work'' ''app'')\<lparr>om_UID := ''u1'', om_ResourceVersion := ''7''\<rparr>,
     svc_Type = ''ClusterIP'', svc_ClusterIP = ''10.0.0.1'', svc_Ports = [ToServicePort demoPort], svc_LoadBalancer = []\<rparr>"

definition demoExportAnswers :: "response list" where
  "demoExportAnswers =
     (let e = OSE (demoServiceExport\<lparr>se_ObjectMeta := (metaOf ''work'' ''app'')\<lparr>om_Finalizers := [svcExportCleanupFinalizer]\<rparr>\<rparr>) in
      [RTime 1700000000000000000, RObj (OSE demoServiceExport), RObj (OSVC demoService), RObj e, ROk, ROk, RObj e, RObj e, notFound, RObj (OISE demoExport)])"

section \<open>Lemmas\<close>

lemma SEX_guard_other [simp]:
  "SEX_guard L r n h (Get cl kd m)" "SEX_guard L r n h (Eventf kd' m t re msg)" "SEX_guard L r n h Now" "SEX_guard L r n h (PublicIPList rg)"
  by (simp_all add: SEX_guard_def)

lemma known_mono [simp]: "known r h e \<Longrightarrow> known r (h @ k) e"
  unfolding known_def by (blast intro: answered_mono)

lemma known_answered: "answered (OSE e) h \<Longrightarrow> known r h e"
  by (auto simp: known_def)

lemma exportable_weight: "exportable h svc w \<Longrightarrow> w \<le> 1000"
  unfolding exportable_def by (blast dest: ExtractWeight_range)

lemma exportable_mono [simp]: "exportable h svc w \<Longrightarrow> exportable (h @ k) svc w"
  unfolding exportable_def by (blast intro: answered_mono)

lemma someExportable_mono [simp]: "someExportable h \<Longrightarrow> someExportable (h @ k)"
  unfolding someExportable_def by (blast intro: exportable_mono)

lemma unexportable_mono [simp]: "unexportable h n \<Longrightarrow> unexportable (h @ k) n"
  by (auto simp: unexportable_def)

lemma withdrawable_mono [simp]: "withdrawable h n \<Longrightarrow> withdrawable (h @ k) n"
  unfolding withdrawable_def by (auto 0 4)

lemma metaKey_newISE: "metaKey (ise_ObjectMeta (newISE (sxr_HubNamespace r) (formatInternalServiceExportName e))) = exportKey r e"
  by (simp add: newISE_def metaOf_def metaKey_def exportKey_def)

lemma claimsService_simps [simp]: "\<not> claimsService (PlainErr m)" "\<not> claimsService decodeErr"
  by (simp_all add: claimsService_def IsAlreadyExists_def decodeErr_def)

lemma claimsService_pips: "decPips a = Inl x \<Longrightarrow> claimsService x \<Longrightarrow> a = RErr x"
  by (auto simp: decPips_def split: response.splits)

lemma sexRest_eq: "sexRest s = sexRest s' \<longleftrightarrow> ises_Ports s = ises_Ports s' \<and> ises_ServiceReference s = ises_ServiceReference s' \<and>
    ises_Weight s = ises_Weight s'"
  by (auto simp: sexRest_def)

lemma SEX_setPublicIP_wp:
  "wp G (\<lambda>h' (er, s). sexRest s = sexRest spec \<and> ises_Type s = ises_Type spec \<and> (\<forall>x. er = Some x \<longrightarrow> \<not> claimsService x))
    (SEX_setPublicIP svc pip spec) h"
  by (auto simp: SEX_setPublicIP_def Let_def sexRest_eq split: option.splits)

lemma SEX_setAzure_wp:
  assumes "\<And>h rg. G h (PublicIPList rg)"
  shows "wp G (\<lambda>h' (er, s). sexRest s = sexRest spec \<and> ises_Type s = svc_Type svc \<and>
      (\<forall>x. er = Some x \<and> claimsService x \<longrightarrow> (\<exists>q. (q, RErr x) \<in> set h'))) (SEX_setAzureRelatedInformation r svc spec) h"
  by (auto simp: SEX_setAzureRelatedInformation_def SEX_lookupPublicIPResourceIDByLoadBalancerIP_def Let_def prog_simps assms sexRest_eq
      split: list.splits option.splits sum.splits dest: claimsService_pips intro!: wp_conseq [OF SEX_setPublicIP_wp])

lemma SEX_fill_wp:
  assumes "\<And>h rg. G h (PublicIPList rg)"
  shows "wp G (\<lambda>h' (er, j). ise_ObjectMeta j = ise_ObjectMeta i \<and> (er = None \<longrightarrow> describes r svc w j) \<and>
      (\<forall>x. er = Some x \<and> claimsService x \<longrightarrow> (\<exists>q. (q, RErr x) \<in> set h') \<or>
         om_CreationTimestamp (ise_ObjectMeta i) \<noteq> None \<and> eor_UID (ises_ServiceReference (ise_Spec i)) \<noteq> om_UID (svc_ObjectMeta svc)))
    (SEX_fill L r svc t w i) h"
  unfolding SEX_fill_def Let_def
  by (auto simp: UpdateFromMetaObject_identity FromMetaObjects_def describes_def sexRest_eq split: if_splits
      intro!: wp_bindI [OF SEX_setAzure_wp [where G = G, OF assms]])

lemma kindOf_ISE_iff: "kindOf x = KInternalServiceExport \<longleftrightarrow> (\<exists>i. x = OISE i)"
  by (cases x) (simp_all add: kindOf_def)

text \<open>Withdrawing an export.\<close>

lemma SEX_unexport_wp:
  assumes "finalizer_laws L" and "known r h e" and "withdrawable h n"
  shows "wp (SEX_guard L r n) (\<lambda>h' (er, e1). (\<exists>k. h' = h @ k) \<and> (er = None \<longrightarrow> answered (OSE e1) h')) (SEX_unexportService L r e) h"
proof -
  let ?rem = "e\<lparr>se_ObjectMeta := LibRemoveFinalizer L (se_ObjectMeta e) svcExportCleanupFinalizer\<rparr>"
  have key: "exportKey r ?rem = exportKey r e"
    by (simp add: exportKey_def formatInternalServiceExportName_def finalizer_laws_fields [OF assms(1)])
  have del: "SEX_guard L r n h (Delete Hub KInternalServiceExport (exportKey r e))"
    using assms(2,3) by (auto simp: SEX_guard_def)
  have rem: "SEX_guard L r n (h @ [(Delete Hub KInternalServiceExport (exportKey r e), a)]) (Update Mem (OSE ?rem))" if "deletedBy a" for a
    using gone_delete [OF that, of Hub KInternalServiceExport "exportKey r e"] by (simp add: SEX_guard_def key)
  show ?thesis
    by (auto simp: SEX_unexportService_def SEX_removeServiceExportCleanupFinalizer_def Let_def metaKey_newISE prog_simps del
        answered_def decUpd_def intro!: rem simp: deletedBy_def split: option.splits sum.splits)
qed

text \<open>Exporting.\<close>

lemma SEX_mutate_wp:
  assumes "\<And>h rg. G h (PublicIPList rg)"
  shows "wp G (\<lambda>h' (er, x). \<exists>j. x = OISE j \<and> ise_ObjectMeta j = ise_ObjectMeta i \<and> (er = None \<longrightarrow> describes r svc w j) \<and>
      (\<forall>x. er = Some x \<and> claimsService x \<longrightarrow> (\<exists>q. (q, RErr x) \<in> set h') \<or>
         om_CreationTimestamp (ise_ObjectMeta i) \<noteq> None \<and> eor_UID (ises_ServiceReference (ise_Spec i)) \<noteq> om_UID (svc_ObjectMeta svc)) \<and>
      (\<exists>k. h' = h @ k))
    (SEX_mutate L r svc t w (OISE i)) h"
  unfolding SEX_mutate_def kobj.case
  by (rule wp_bindI [OF wp_ext [OF SEX_fill_wp [where G = G, OF assms]]]) auto

lemma SEX_upsert_wp:
  assumes "createOrUpdate_laws L" and "shown Mem hasSEFinalizer h" and "exportable h svc w" and "0 < w"
  shows "wp (SEX_guard L r n) (\<lambda>h' (er, _). (\<exists>k. h' = h @ k) \<and> (er = None \<longrightarrow> hubHas (describesObj r svc w) h') \<and>
      (\<forall>x. er = Some x \<and> claimsService x \<longrightarrow> withdrawable h' n))
    (LibCreateOrUpdate L Hub (OISE (newISE (sxr_HubNamespace r) nm)) (SEX_mutate L r svc t w)) h"
proof -
  let ?G = "SEX_guard L r n" and ?i = "newISE (sxr_HubNamespace r) nm"
  let ?Q = "\<lambda>h' (er, x). (\<exists>k. h' = h @ k) \<and> (er = None \<longrightarrow> hubHas (describesObj r svc w) h') \<and>
      (\<forall>x. er = Some x \<and> claimsService x \<longrightarrow> withdrawable h' n)"
  have new: "om_Namespace (ise_ObjectMeta ?i) = sxr_HubNamespace r" "om_CreationTimestamp (ise_ObjectMeta ?i) = None"
    by (simp_all add: newISE_def metaOf_def zeroMeta_def)
  have cr: "?G (h @ k) (Create Hub (OISE j))" if "describes r svc w j" "ise_ObjectMeta j = ise_ObjectMeta ?i" for k j
    using assms(2,4) exportable_weight [OF assms(3)] exportable_mono [OF assms(3), of k] that new by (auto simp: SEX_guard_def)
  have up: "?G (h @ k) (Update Hub (OISE j))" if "describes r svc w j" for k j
    using assms(2,4) exportable_weight [OF assms(3)] exportable_mono [OF assms(3), of k] that by (auto simp: SEX_guard_def)
  have said: "withdrawable h' n" if "(q, RErr x) \<in> set h'" "claimsService x" for q x h'
    using that by (auto simp: withdrawable_def)
  have mine: "withdrawable (h @ k @ k') n"
    if "(q, RObj (OISE i)) \<in> set k" "eor_UID (ises_ServiceReference (ise_Spec i)) \<noteq> om_UID (svc_ObjectMeta svc)" for q i k k'
    using that assms(3) unfolding withdrawable_def exportable_def answered_def by auto
  have doc: "LibCreateOrUpdate L Hub x f = createOrUpdateDoc Hub x f" for x f
    using assms(1) by (simp add: createOrUpdate_laws_def)
  have made: "hubHas (describesObj r svc w) (h @ x # k @ [(Create Hub (OISE j), RObj y)])" if "describes r svc w j" for x k j y
    using that unfolding hubHas_def by (intro disjI2 exI [of _ "OISE j"] exI [of _ y]) (simp add: describesObj_def)
  have changed: "hubHas (describesObj r svc w) (h @ x # k @ [(Update Hub (OISE j), RObj (OISE y))])" if "describes r svc w j" for x k j y
    using that unfolding hubHas_def by (intro disjI1 shown_update [where x = "OISE j" and y = "OISE y"]) (simp_all add: describesObj_def)
  have found: "hubHas (describesObj r svc w) (h @ (Get Hub KInternalServiceExport m, RObj (OISE j)) # k)" if "describes r svc w j" for j m k
    using that unfolding hubHas_def by (intro disjI1 shown_get [where x = "OISE j" and n = m]) (simp_all add: describesObj_def)
  have err: "withdrawable (h @ y # k @ [(q, a)]) n" if "decObj kd a = Inl x" "claimsService x" for y k q a kd x
    using that said [of q x "h @ y # k @ [(q, a)]"] by (auto simp: decObj_def split: response.splits if_splits)
  have err0: "withdrawable (h @ [(q, a)]) n" if "decObj kd a = Inl x" "claimsService x" for q a kd x
    using that said [of q x "h @ [(q, a)]"] by (auto simp: decObj_def split: response.splits if_splits)
  have mut: "wp ?G (\<lambda>h' (er, x). (\<exists>j. x = OISE j \<and> ise_ObjectMeta j = ise_ObjectMeta i \<and> (er = None \<longrightarrow> describes r svc w j)) \<and>
      (\<forall>x. er = Some x \<and> claimsService x \<longrightarrow> withdrawable h' n) \<and> (\<exists>k. h' = h @ (q, a) # k))
      (SEX_mutate L r svc t w (OISE i)) (h @ [(q, a)])"
    if "om_CreationTimestamp (ise_ObjectMeta i) = None \<or> a = RObj (OISE i)" for i q a
  proof (rule wp_conseq [OF SEX_mutate_wp [where G = ?G]], goal_cases)
    case (2 h' r')
    obtain er x where r': "r' = (er, x)" by (cases r')
    from 2 obtain k j where *: "x = OISE j" "ise_ObjectMeta j = ise_ObjectMeta i" "er = None \<longrightarrow> describes r svc w j" "h' = h @ (q, a) # k"
      "\<And>x. er = Some x \<Longrightarrow> claimsService x \<Longrightarrow> (\<exists>q. (q, RErr x) \<in> set h') \<or>
         om_CreationTimestamp (ise_ObjectMeta i) \<noteq> None \<and> eor_UID (ises_ServiceReference (ise_Spec i)) \<noteq> om_UID (svc_ObjectMeta svc)"
      by (auto simp: r')
    have "withdrawable h' n" if "er = Some x" "claimsService x" for x
      using *(5) [OF that] said [of _ x h'] that(2) mine [of q i "[(q, a)]" k] \<open>_ \<or> a = _\<close> unfolding *(4) by auto
    with * show ?case unfolding r' by blast
  qed simp_all
  show ?thesis
    unfolding doc createOrUpdateDoc_def
    by (auto simp: prog_simps kindOf_ISE_iff cr up made changed found new intro: err err0 split: sum.splits option.splits
        intro!: wp_bindI [OF mut])
qed

lemma SEX_done_simps [simp]:
  "SEX_done r n h (res, Some x)"
  "SEX_done r n h (\<lparr>res_Requeue = True, res_RequeueAfter = t\<rparr>, er)"
  "SEX_done r n h (emptyResult, None) \<longleftrightarrow> excused h n \<or> exported r h"
  by (simp_all add: SEX_done_def emptyResult_def)

lemma excused_mono [simp]: "excused h n \<Longrightarrow> excused (h @ k) n"
  unfolding excused_def by (auto 0 4)

lemma SEX_done_excused: "excused h n \<Longrightarrow> SEX_done r n h out"
  by (simp add: SEX_done_def)

lemma SEX_exportService_wp:
  assumes "finalizer_laws L" and "createOrUpdate_laws L" and "shown Mem hasSEFinalizer h" and "exportable h svc w" and "0 < w"
    and "known r h e"
  shows "wp (SEX_guard L r n) (SEX_done r n) (SEX_exportService L r e svc t w) h"
  unfolding SEX_exportService_def
  by (rule wp_bindI [OF SEX_upsert_wp [OF assms(2-5)]])
    (auto simp: exported_def claimsService_def assms split: option.splits intro!: wp_bindI [OF SEX_unexport_wp [OF assms(1) _ _]])

text \<open>The conditions.\<close>

lemma set_valid:
  assumes "condition_laws L" and "c_Type c = ServiceExportValid"
  shows "\<exists>d. LibFindStatusCondition L (se_Conditions (SEX_setCondition L e c)) ServiceExportValid = Some d \<and> c_Status d = c_Status c"
  using condition_lawsD(2) [OF assms(1), of "se_Conditions e" c] assms(2) by (auto simp: SEX_setCondition_def)

lemma truthful_False:
  assumes "condition_laws L"
    and "unexportable h n \<or> (\<exists>e0 w x. answered (OSE e0) h \<and> ExtractWeightFromServiceExport e0 = (w, Some x))"
  shows "truthful L h n (SEX_setCondition L e (validCondition e' ConditionFalse reason msg))"
  using set_valid [OF assms(1), of "validCondition e' ConditionFalse reason msg" e] assms(2)
  by (auto simp: truthful_def validCondition_def)

lemma truthful_True:
  assumes "condition_laws L" and "someExportable h"
  shows "truthful L h n (SEX_setCondition L e (validCondition e' ConditionTrue reason msg))"
  using set_valid [OF assms(1), of "validCondition e' ConditionTrue reason msg" e] assms(2)
  by (auto simp: truthful_def validCondition_def)

lemma truthful_mono [simp]: "truthful L h n e \<Longrightarrow> truthful L (h @ k) n e"
  unfolding truthful_def by (auto 0 4)

lemma truthful_guard: "truthful L h n e \<Longrightarrow> SEX_guard L r n h (StatusUpdate Mem (OSE e))"
  by (simp add: SEX_guard_def)

lemma pending_keeps:
  assumes "condition_laws L"
  shows "LibFindStatusCondition L (se_Conditions (SEX_setCondition L e (pendingCondition e'))) ServiceExportValid =
    LibFindStatusCondition L (se_Conditions e) ServiceExportValid"
  using condition_lawsD(3) [OF assms, of ServiceExportValid "pendingCondition e'" "se_Conditions e"]
  by (simp add: SEX_setCondition_def pendingCondition_def ServiceExportValid_def ServiceExportConflict_def)

lemma SEX_markValid_wp:
  assumes "condition_laws L" and "someExportable h"
  shows "wp (SEX_guard L r n) (\<lambda>h' (er, e1). (\<exists>k. h' = h @ k) \<and> (er = None \<longrightarrow> e1 = e \<or> answered (OSE e1) h')) (SEX_markServiceExportAsValid L e) h"
proof -
  let ?c = "validCondition e ConditionTrue svcExportValidCondReason (''service '' @ nsName e @ '' is valid for export'')"
  let ?e1 = "if EqualConditionWithMessage (LibFindStatusCondition L (se_Conditions e) ServiceExportValid) (Some ?c) then e else SEX_setCondition L e ?c"
  have one: "truthful L h n ?e1"
  proof (cases "EqualConditionWithMessage (LibFindStatusCondition L (se_Conditions e) ServiceExportValid) (Some ?c)")
    case True
    then obtain d where "LibFindStatusCondition L (se_Conditions e) ServiceExportValid = Some d" "c_Status d = ConditionTrue"
      by (auto simp: EqualConditionWithMessage_def validCondition_def split: option.splits)
    with True assms(2) show ?thesis by (auto simp: truthful_def)
  qed (simp add: truthful_True [OF assms])
  have two: "truthful L h n (SEX_setCondition L ?e1 (pendingCondition ?e1))"
    using one unfolding truthful_def pending_keeps [OF assms(1)] .
  have "truthful L (h @ k) n ?e1" "truthful L (h @ k) n (SEX_setCondition L ?e1 (pendingCondition ?e1))" for k
    using one two truthful_mono by blast+
  note g = this [THEN truthful_guard]
  show ?thesis
    unfolding SEX_markServiceExportAsValid_def Let_def
    by (cases "EqualConditionWithMessage (LibFindStatusCondition L (se_Conditions e) ServiceExportValid) (Some ?c)")
      (use g in \<open>auto simp: SEX_statusUpdate_def prog_simps decUpd_def answered_def split: sum.splits\<close>)
qed

lemma SEX_guard_annotate: "answered (OSE e) h \<Longrightarrow>
    SEX_guard L r n h (Update Mem (OSE (e\<lparr>se_ObjectMeta := (se_ObjectMeta e)\<lparr>om_Annotations := an\<rparr>\<rparr>)))"
  by (auto simp: SEX_guard_def)

lemma SEX_collect_wp:
  assumes "answered (OSE e) h"
  shows "wp (SEX_guard L r n) (\<lambda>h' (t, er, e1). (\<exists>k. h' = h @ k) \<and> known r h' e1)
    (SEX_collectAndVerifyLastSeenResourceVersionAndTimestamp L svc e t0) h"
proof -
  let ?e = "e\<lparr>se_ObjectMeta := (se_ObjectMeta e)\<lparr>om_Annotations := SEX_lastSeenAnnotations L svc t0 (om_Annotations (se_ObjectMeta e))\<rparr>\<rparr>"
  have "exportKey r ?e = exportKey r e" by (simp add: exportKey_def formatInternalServiceExportName_def)
  then have same: "known r h' ?e = known r h' e" for h' by (simp add: known_def)
  show ?thesis
    using assms known_answered [OF assms] SEX_guard_annotate [OF assms]
    by (auto simp: SEX_collectAndVerifyLastSeenResourceVersionAndTimestamp_def SEX_annotateLastSeenResourceVersionAndTimestamp_def
        prog_simps decUpd_def same intro!: known_answered split: option.splits sum.splits)
qed

lemma SEX_unexportIfExported_wp:
  assumes "finalizer_laws L" and "answered (OSE e) h" and "withdrawable h n"
    and rest: "\<And>k e1. answered (OSE e1) (h @ k) \<Longrightarrow> wp (SEX_guard L r n) (SEX_done r n) (rest e1) (h @ k)"
  shows "wp (SEX_guard L r n) (SEX_done r n) (SEX_unexportIfExported L r e rest) h"
proof -
  have "wp (SEX_guard L r n) (SEX_done r n) (rest e) h" using rest [of e "[]"] assms(2) by simp
  then show ?thesis
    unfolding SEX_unexportIfExported_def
    by (auto split: option.splits intro!: rest wp_bindI [OF SEX_unexport_wp [OF assms(1) known_answered [OF assms(2)] assms(3)]])
qed

lemma SEX_markAndExport_wp:
  assumes "finalizer_laws L" "condition_laws L" "createOrUpdate_laws L" and "shown Mem hasSEFinalizer h" and "exportable h svc w"
    and "0 < w" and "answered (OSE e) h"
  shows "wp (SEX_guard L r n) (SEX_done r n) (SEX_markAndExport L r e svc t w) h"
proof -
  have some: "someExportable h" using assms(5) by (auto simp: someExportable_def)
  have export: "wp (SEX_guard L r n) (SEX_done r n) (SEX_exportService L r e2 svc u w) (h @ k)" if "known r (h @ k) e2" for e2 u k
    by (rule SEX_exportService_wp [OF assms(1,3) _ _ assms(6) that]) (simp_all add: assms)
  have collect: "wp (SEX_guard L r n) (SEX_done r n) (bindP (SEX_collectAndVerifyLastSeenResourceVersionAndTimestamp L svc e1 t)
      (\<lambda>(u, _, e2). SEX_exportService L r e2 svc u w)) (h @ k)" if "answered (OSE e1) (h @ k)" for e1 k
    by (rule wp_bindI [OF SEX_collect_wp [where r = r, OF that]]) (auto intro: export)
  show ?thesis
    unfolding SEX_markAndExport_def
    by (rule wp_bindI [OF SEX_markValid_wp [OF assms(2) some]]) (auto simp: assms split: option.splits intro!: collect)
qed

lemma withdrawableI: "unexportable h n \<Longrightarrow> withdrawable h n"
  by (simp add: withdrawable_def)

lemma excusedI: "unexportable h n \<Longrightarrow> excused h n"
  by (simp add: excused_def)

lemma SEX_markInvalid_wp:
  assumes "condition_laws L" and "unexportable h n"
  shows "wp (SEX_guard L r n) (SEX_done r n)
      (bindP (SEX_markServiceExportAsInvalidNotFound L e) (\<lambda>(er, _). Ret (emptyResult, er))) h"
    and "wp (SEX_guard L r n) (SEX_done r n)
      (bindP (SEX_markServiceExportAsInvalidSvcIneligible L e) (\<lambda>(er, _). Ret (emptyResult, er))) h"
proof -
  have "truthful L h n (SEX_setCondition L e' (validCondition e'' ConditionFalse reason msg))" for e' e'' reason msg
    by (rule truthful_False [OF assms(1) disjI1 [OF assms(2)]])
  note g = truthful_guard [OF this]
  have ex: "excused (h @ k) n" "excused h n" for k using excusedI [OF assms(2)] by simp_all
  show "wp (SEX_guard L r n) (SEX_done r n)
      (bindP (SEX_markServiceExportAsInvalidNotFound L e) (\<lambda>(er, _). Ret (emptyResult, er))) h"
    "wp (SEX_guard L r n) (SEX_done r n)
      (bindP (SEX_markServiceExportAsInvalidSvcIneligible L e) (\<lambda>(er, _). Ret (emptyResult, er))) h"
    by (auto simp: SEX_markServiceExportAsInvalidNotFound_def SEX_markServiceExportAsInvalidSvcIneligible_def SEX_statusUpdate_def
        Let_def prog_simps g ex SEX_done_excused split: prod.splits)
qed

lemma SEX_invalid_wp:
  assumes "finalizer_laws L" "condition_laws L" and "answered (OSE e) h" and "unexportable h n"
  shows "wp (SEX_guard L r n) (SEX_done r n) (SEX_notFound L r nm e) h" and "wp (SEX_guard L r n) (SEX_done r n) (SEX_ineligible L r svc e) h"
  by (auto simp: SEX_notFound_def SEX_ineligible_def prog_simps withdrawableI assms
      intro!: SEX_unexportIfExported_wp [OF assms(1)] SEX_markInvalid_wp [OF assms(2)])

lemma SEX_reportWeight_wp:
  assumes "excused h n" and "\<And>k. truthful L (h @ k) n (SEX_setCondition L e c)" and "\<And>h'. wp (SEX_guard L r n) (\<lambda>h'' _. \<exists>k. h'' = h' @ k) note h'"
  shows "wp (SEX_guard L r n) (SEX_done r n) (SEX_reportWeight L e c note) h"
proof -
  have ex: "excused (h @ k) n" for k using assms(1) by simp
  have "wp (SEX_guard L r n) (SEX_done r n) (bindP (SEX_statusUpdate (SEX_setCondition L e c)) (\<lambda>(er, _). Ret (emptyResult, er))) (h @ k)" for k
    by (auto simp: SEX_statusUpdate_def prog_simps truthful_guard [OF assms(2)] ex SEX_done_excused split: prod.splits)
  then show ?thesis
    using assms(1) unfolding SEX_reportWeight_def by (auto intro!: wp_bindI [OF assms(3)])
qed

lemma SEX_handleService_wp:
  assumes "finalizer_laws L" "condition_laws L" "createOrUpdate_laws L" and "answered (OSE e) h" "om_DeletionTimestamp (se_ObjectMeta e) = None"
    and "answered (OSVC svc) h" "om_DeletionTimestamp (svc_ObjectMeta svc) = None"
    and fin: "LibContainsFinalizer L (se_ObjectMeta e) svcExportCleanupFinalizer \<Longrightarrow> shown Mem hasSEFinalizer h"
  shows "wp (SEX_guard L r n) (SEX_done r n) (SEX_handleService L r e svc t) h"
proof (cases "isServiceEligibleForExport svc")
  case False
  with assms(6) have "unexportable h n" by (auto simp: unexportable_def)
  from SEX_invalid_wp(2) [OF assms(1,2,4) this] False show ?thesis by (simp add: SEX_handleService_def)
next
  case True
  obtain w er where ex: "ExtractWeightFromServiceExport e = (w, er)" by (cases "ExtractWeightFromServiceExport e")
  have live: "exportable (h @ k) svc w" if "er = None" for k
    using that ex assms(4-7) True unfolding exportable_def by (blast intro: answered_mono)
  show ?thesis
  proof (cases er)
    case (Some x)
    have "excused h n" using assms(4) ex Some by (auto simp: excused_def)
    moreover have "\<exists>e0 w x. answered (OSE e0) (h @ k) \<and> ExtractWeightFromServiceExport e0 = (w, Some x)" for k
      using assms(4) ex Some by (blast intro: answered_mono)
    ultimately show ?thesis
      using True ex Some unfolding SEX_handleService_def SEX_badWeight_def
      by (auto simp: prog_simps intro!: SEX_reportWeight_wp truthful_False [OF assms(2) disjI2])
  next
    case None
    show ?thesis
    proof (cases "w = 0")
      case zero: True
      have zw: "withdrawable (h @ k) n" "excused (h @ k) n" for k
        using assms(4) ex None zero answered_mono [OF assms(4), of k] by (auto simp: withdrawable_def excused_def)
      have "someExportable (h @ k)" for k using live [OF None] by (auto simp: someExportable_def)
      then have "wp (SEX_guard L r n) (SEX_done r n) (SEX_reportWeight L e1 (validCondition e1 ConditionTrue reason msg) (Ret ())) (h @ k)" for e1 reason msg k
        by (auto simp: zw intro!: SEX_reportWeight_wp truthful_True [OF assms(2)])
      with True ex None zero show ?thesis
        unfolding SEX_handleService_def SEX_zeroWeight_def
        by (auto simp: prog_simps zw assms intro!: SEX_unexportIfExported_wp [OF assms(1)])
    next
      case False
      with ExtractWeight_range [of e w] ex None have w: "0 < w" by simp
      let ?add = "e\<lparr>se_ObjectMeta := LibAddFinalizer L (se_ObjectMeta e) svcExportCleanupFinalizer\<rparr>"
      have added: "hasSEFinalizer (OSE ?add)" using finalizer_lawsD(2) [OF assms(1)] by (simp add: hasSEFinalizer_def)
      then have "SEX_guard L r n h (Update Mem (OSE ?add))" by (simp add: SEX_guard_def)
      moreover have "wp (SEX_guard L r n) (SEX_done r n) (SEX_markAndExport L r e1 svc t w) (h @ [(Update Mem (OSE ?add), RObj (OSE e1))])" for e1
        by (rule SEX_markAndExport_wp [OF assms(1-3) shown_update [where P = hasSEFinalizer and y = "OSE e1", OF added] live [OF None] w])
          (auto simp: answered_def)
      moreover have "wp (SEX_guard L r n) (SEX_done r n) (SEX_markAndExport L r e svc t w) h"
        if "LibContainsFinalizer L (se_ObjectMeta e) svcExportCleanupFinalizer"
        by (rule SEX_markAndExport_wp [OF assms(1-3) fin [OF that] _ w assms(4)]) (use live [OF None, of "[]"] in simp)
      ultimately show ?thesis
        using True ex None False
        by (auto simp: SEX_handleService_def SEX_addServiceExportCleanupFinalizer_def prog_simps decUpd_def split: sum.splits)
    qed
  qed
qed

lemma SEX_Reconcile_wp:
  assumes "finalizer_laws L" "condition_laws L" "createOrUpdate_laws L"
  shows "wp (SEX_guard L r n) (SEX_done r n) (SEX_Reconcile L r n) []"
proof -
  let ?g = "\<lambda>a e. [(Now, a), (Get Mem KServiceExport n, RObj (OSE e))]"
  have nf: "b = RErr er" if "decSE b = Inl er \<or> decSVC b = Inl er" "IsNotFound er" for b er
    using that by (auto simp: decSE_def decSVC_def IsNotFound_def decodeErr_def split: response.splits kobj.splits)
  have ans: "answered (OSE e) (?g a e)" "answered (OSE e) [(Now, a), (Get Mem KServiceExport n, RObj (OSE e)), x]" for a e x
    by (auto simp: answered_def)
  have del: "wp (SEX_guard L r n) (SEX_done r n) (bindP (SEX_unexportService L r e) (\<lambda>(er, _). Ret (emptyResult, er))) (?g a e)"
    if "om_DeletionTimestamp (se_ObjectMeta e) = Some u" for a e u
  proof -
    have "withdrawable (?g a e) n" "\<And>k. excused (?g a e @ k) n"
      using that ans(1) answered_mono [OF ans(1)] unfolding withdrawable_def excused_def by (blast | metis option.distinct(1))+
    then show ?thesis
      by (auto intro!: wp_bindI [OF SEX_unexport_wp [OF assms(1) known_answered [OF ans(1)]]] SEX_done_excused)
  qed
  have exn: "excused [(Now, a), (Get Mem KServiceExport n, b)] n" if "decSE b = Inl x" "IsNotFound x" for a b x
    using that nf [of b x] by (auto simp: excused_def intro: gone_get)
  have exd: "excused (?g a e) n" if "om_DeletionTimestamp (se_ObjectMeta e) = Some u" for a e u
    using that ans(1) [of e a] unfolding excused_def by (intro disjI2 exI [of _ e]) simp
  have unf: "unexportable [(Now, a), (Get Mem KServiceExport n, RObj (OSE e)), (Get Mem KService n, b)] n"
    if "decSVC b = Inl x" "IsNotFound x" for a e b x
    using that nf [of b x] by (auto simp: unexportable_def intro: gone_get)
  have und: "unexportable [(Now, a), (Get Mem KServiceExport n, RObj (OSE e)), (Get Mem KService n, RObj (OSVC svc))] n"
    if "om_DeletionTimestamp (svc_ObjectMeta svc) = Some u" for a e svc u
    using that by (auto simp: unexportable_def answered_def)
  have shw: "shown Mem hasSEFinalizer [(Now, a), (Get Mem KServiceExport n, RObj (OSE e)), x]"
    if "LibContainsFinalizer L (se_ObjectMeta e) svcExportCleanupFinalizer" for a e x
    by (rule shown_get [of _ "OSE e" _ n]) (use that finalizer_lawsD(1) [OF assms(1)] in \<open>simp_all add: hasSEFinalizer_def\<close>)
  have svc: "answered (OSVC svc) [(Now, a), (Get Mem KServiceExport n, RObj (OSE e)), (Get Mem KService n, RObj (OSVC svc))]" for a e svc
    by (auto simp: answered_def)
  show ?thesis
    by (auto simp: SEX_Reconcile_def prog_simps ans svc unf und shw exn exd split: sum.splits
        intro!: del SEX_invalid_wp(1) [OF assms(1,2)] SEX_handleService_wp [OF assms])
qed

section \<open>Properties\<close>

text \<open>C3. The export protocol of a member cluster: for all answers and at every point where the process may
  stop, an InternalServiceExport is created or updated in the hub only after the ServiceExport with the
  clean-up finalizer is on record, for a service that was read alive and eligible and has a weight from 1
  to 1000, and it carries the ports, the UID and (with the traffic manager feature) the weight of that
  service; it is deleted only for a stated reason; the finalizer is removed only when it is gone; and the
  Valid condition that is written is true only for an exportable service and false only for one that is
  not, or for an invalid weight.\<close>

theorem SEX_export_protocol:
  assumes "finalizer_laws L" "condition_laws L" "createOrUpdate_laws L" and "steps (SEX_Reconcile L r n) tr p"
  shows "guarded (SEX_guard L r n) [] tr"
  by (rule wp_guarded [OF assms(4) SEX_Reconcile_wp [OF assms(1-3)]])

theorem SEX_export_protocol_witness:
  "guarded (SEX_guard refLib demoMember demoImportKey) [] (fst (play demoExportAnswers (SEX_Reconcile refLib demoMember demoImportKey))) \<and>
   map (\<lambda>(q, _). reqKind q) (filter (\<lambda>(q, _). writes q) (fst (play demoExportAnswers (SEX_Reconcile refLib demoMember demoImportKey)))) =
     [Some KServiceExport, Some KServiceExport, Some KServiceExport, Some KInternalServiceExport]"
proof -
  let ?p = "SEX_Reconcile refLib demoMember demoImportKey"
  have "steps ?p (fst (play demoExportAnswers ?p)) (snd (play demoExportAnswers ?p))" by (rule play_trace_steps) simp
  from SEX_export_protocol [OF refLib_finalizer_laws refLib_condition_laws refLib_createOrUpdate_laws this]
  show ?thesis by (rule conjI) code_simp
qed

text \<open>C23. What success means: when a pass of the ServiceExport controller ends without an error and without
  asking for another pass, the hub has an InternalServiceExport that describes the live service with its
  ports, UID and weight, or there is a reason not to export: the ServiceExport is absent, being deleted,
  has weight 0 or an invalid weight, or the service is absent, being deleted or not eligible.\<close>

theorem SEX_success_means_exported:
  assumes "finalizer_laws L" "condition_laws L" "createOrUpdate_laws L"
    and "steps (SEX_Reconcile L r n) tr (Ret (res, None))" and "\<not> res_Requeue res"
  shows "excused tr n \<or> exported r tr"
  using wp_result [OF assms(4) refl SEX_Reconcile_wp [OF assms(1-3), of r n]] assms(5) by (simp add: SEX_done_def)

theorem SEX_success_means_exported_witness:
  "case playRet demoExportAnswers (SEX_Reconcile refLib demoMember demoImportKey) of
     None \<Rightarrow> False | Some (tr, out) \<Rightarrow> (excused tr demoImportKey \<or> exported demoMember tr) \<and> out = (emptyResult, None)"
proof -
  let ?p = "SEX_Reconcile refLib demoMember demoImportKey"
  have r: "map_option snd (playRet demoExportAnswers ?p) = Some (emptyResult, None)" by code_simp
  then obtain tr where tr: "playRet demoExportAnswers ?p = Some (tr, emptyResult, None)" by auto
  have "\<not> res_Requeue emptyResult" by (simp add: emptyResult_def)
  from SEX_success_means_exported [OF refLib_finalizer_laws refLib_condition_laws refLib_createOrUpdate_laws playRet_steps [OF tr] this]
  show ?thesis by (simp add: tr)
qed

text \<open>C24. The timestamp round trip: the time at which a pass stores a version of the service in the
  annotations of the ServiceExport is read back by every later pass, to the second, as long as the service
  has that version, and is not taken for another version. It is written in the local time zone (a whole
  number of minutes from Greenwich) and in the format RFC 3339, so the year has four digits.\<close>

theorem SEX_lastSeen_roundtrip:
  assumes "0 \<le> localYear (LibLocalOffset L t) t" "localYear (LibLocalOffset L t) t < 10000"
    and "LibLocalOffset L t mod 60 = 0" "\<bar>LibLocalOffset L t\<bar> \<le> 24 * 3600" and "t \<le> t'"
    and "om_Annotations (se_ObjectMeta e') = SEX_lastSeenAnnotations L svc t (om_Annotations (se_ObjectMeta e))"
  shows "SEX_lastSeen svc' e' t' =
    (if om_ResourceVersion (svc_ObjectMeta svc') = om_ResourceVersion (svc_ObjectMeta svc) then Some (t div 1000000000 * 1000000000) else None)"
proof -
  have "t div 1000000000 * 1000000000 \<le> t'" using minus_mod_eq_div_mult [of t 1000000000] assms(5) pos_mod_sign [of 1000000000 t] by linarith
  moreover have "MetricsAnnotationLastSeenResourceVersion \<noteq> MetricsAnnotationLastSeenTimestamp"
    by (simp add: MetricsAnnotationLastSeenResourceVersion_def MetricsAnnotationLastSeenTimestamp_def)
  ultimately show ?thesis
    using ParseRFC3339_FormatRFC3339 [OF assms(1-4)]
    by (auto simp: SEX_lastSeen_def Let_def assms(6) SEX_lastSeenAnnotations_def)
qed

theorem SEX_lastSeen_roundtrip_witness:
  "SEX_lastSeen demoService (demoServiceExport\<lparr>se_ObjectMeta := (se_ObjectMeta demoServiceExport)\<lparr>om_Annotations :=
     SEX_lastSeenAnnotations refLib demoService 1700000000123456789 (om_Annotations (se_ObjectMeta demoServiceExport))\<rparr>\<rparr>) 1700000009000000000 =
   Some 1700000000000000000"
proof -
  have y: "localYear (LibLocalOffset refLib 1700000000123456789) 1700000000123456789 = 2023" by code_simp
  show ?thesis
    by (subst SEX_lastSeen_roundtrip [where L = refLib and t = 1700000000123456789 and svc = demoService and e = demoServiceExport])
      (simp_all add: y, simp_all add: refLib_def)
qed

end
