(* ===== verification/Member_InternalServiceExport.thy ===== *)
theory Member_InternalServiceExport
  imports Observations Metrics Conditions
begin

text \<open>
  The InternalServiceExport controller of a member cluster
  (\<open>pkg/controllers/member/internalserviceexport/controller.go\<close>): it reports the result of the conflict
  resolution in the hub back to the ServiceExport of the member cluster, and measures how long the
  export took.
\<close>

section \<open>The controller\<close>

definition svcExportDuration :: string where
  "svcExportDuration = ''fleet_networking_service_export_duration_milliseconds''"

text \<open>The error, whether a report-back has been completed, and the ServiceExport.\<close>

definition MIE_reportBackConflictCondition :: "Lib \<Rightarrow> ServiceExport \<Rightarrow> InternalServiceExport \<Rightarrow> (bool \<times> err option) op" where
  "MIE_reportBackConflictCondition L svcExport e =
     (case LibFindStatusCondition L (ise_Conditions e) ServiceExportConflict of
        None \<Rightarrow> Ret (False, None)
      | Some internalCond \<Rightarrow>
          let desired = internalCond\<lparr>c_ObservedGeneration := om_Generation (se_ObjectMeta svcExport)\<rparr>;
              current = LibFindStatusCondition L (se_Conditions svcExport) ServiceExportConflict
          in if Some internalCond = current then Ret (True, None)
             else
               bindP (if c_Status internalCond = ConditionTrue
                      then eventf KServiceExport (se_ObjectMeta svcExport) ''Warning'' ''ServiceExportConflictFound''
                        (''Service '' @ om_Name (se_ObjectMeta svcExport) @ '' is in conflict with other exported services'')
                      else Ret ()) (\<lambda>_.
               bindP (if c_Status internalCond = ConditionFalse
                      then eventf KServiceExport (se_ObjectMeta svcExport) ''Normal'' ''NoServiceExportConflictFound''
                        (''Service '' @ om_Name (se_ObjectMeta svcExport) @ '' is exported without conflict'')
                      else Ret ()) (\<lambda>_.
               bindP (doStatusUpdate Mem OSE decSE
                 (svcExport\<lparr>se_Conditions := LibSetStatusCondition L (se_Conditions svcExport) desired\<rparr>)) (\<lambda>(er, _).
               Ret (True, er)))))"

definition observedVersion :: "InternalServiceExport \<Rightarrow> string option" where
  "observedVersion e = mget (om_Annotations (ise_ObjectMeta e)) MetricsAnnotationLastObservedResourceVersion"

definition MIE_annotated :: "InternalServiceExport \<Rightarrow> InternalServiceExport" where
  "MIE_annotated e = e\<lparr>ise_ObjectMeta := (ise_ObjectMeta e)\<lparr>om_Annotations :=
     mapPut MetricsAnnotationLastObservedResourceVersion (eor_ResourceVersion (ises_ServiceReference (ise_Spec e)))
       (om_Annotations (ise_ObjectMeta e))\<rparr>\<rparr>"

definition MIE_observeMetrics :: "string \<Rightarrow> InternalServiceExport \<Rightarrow> time \<Rightarrow> err option op" where
  "MIE_observeMetrics memberClusterID e startTime =
     (if observedVersion e = Some (eor_ResourceVersion (ises_ServiceReference (ise_Spec e))) then Ret None
      else bindP (doUpdate Hub OISE decISE (MIE_annotated e)) (\<lambda>(er, e1).
        case er of
          Some x \<Rightarrow> Ret (Some x)
        | None \<Rightarrow>
            (case eor_ExportedSince (ises_ServiceReference (ise_Spec e1)) of
               None \<Rightarrow> Ret None
             | Some since \<Rightarrow>
                 bindP (call (MetricObserve svcExportDuration [memberClusterID] (durationMillis startTime since)) (\<lambda>_. ()))
                   (\<lambda>_. Ret None))))"

definition MIE_Reconcile :: "Lib \<Rightarrow> string \<Rightarrow> NamespacedName \<Rightarrow> outcome op" where
  "MIE_Reconcile L memberClusterID name =
     bindP (getISE Hub name) (\<lambda>r.
       case r of
         Inl er \<Rightarrow> if IsNotFound er then Ret (emptyResult, None) else Ret (emptyResult, Some er)
       | Inr e \<Rightarrow>
           if om_DeletionTimestamp (ise_ObjectMeta e) \<noteq> None then Ret (emptyResult, None)
           else
             let ref = ises_ServiceReference (ise_Spec e) in
             bindP (getSE Mem \<lparr>nn_Namespace = eor_Namespace ref, nn_Name = eor_Name ref\<rparr>) (\<lambda>r2.
               case r2 of
                 Inl er \<Rightarrow>
                   if IsNotFound er then
                     bindP (deleteObj Hub KInternalServiceExport (metaKey (ise_ObjectMeta e))) (\<lambda>der.
                       case der of Some x \<Rightarrow> Ret (emptyResult, Some x) | None \<Rightarrow> Ret (emptyResult, None))
                   else Ret (emptyResult, Some er)
               | Inr svcExport \<Rightarrow>
                   bindP (MIE_reportBackConflictCondition L svcExport e) (\<lambda>(reported, er).
                     case er of
                       Some x \<Rightarrow> Ret (emptyResult, Some x)
                     | None \<Rightarrow>
                         if reported then
                           bindP timeNow (\<lambda>now. bindP (MIE_observeMetrics memberClusterID e now) (\<lambda>mer.
                             case mer of Some x \<Rightarrow> Ret (emptyResult, Some x) | None \<Rightarrow> Ret (emptyResult, None)))
                         else Ret (emptyResult, None))))"

section \<open>What is said of the controller\<close>

text \<open>The condition that belongs in a ServiceExport, given the condition of the hub.\<close>

definition verdictFor :: "ServiceExport \<Rightarrow> Condition \<Rightarrow> Condition" where
  "verdictFor svcExport c = c\<lparr>c_ObservedGeneration := om_Generation (se_ObjectMeta svcExport)\<rparr>"

definition sameVerdict :: "Condition \<Rightarrow> Condition \<Rightarrow> bool" where
  "sameVerdict c d \<longleftrightarrow> (\<exists>t. d = c\<lparr>c_LastTransitionTime := t\<rparr>)"

text \<open>
  What the controller may do: update the status of a ServiceExport that was read to the verdict of an
  InternalServiceExport that was read, and in no other condition; delete the InternalServiceExport when
  its ServiceExport was not found; annotate the InternalServiceExport with the version that is measured;
  measure once, after the annotation was accepted.
\<close>

definition MIE_guard :: "Lib \<Rightarrow> trace \<Rightarrow> request \<Rightarrow> bool" where
  "MIE_guard L h q \<longleftrightarrow>
     (case q of
        Get c kd n \<Rightarrow> True
      | Now \<Rightarrow> True
      | Eventf kd n ty reason msg \<Rightarrow> True
      | StatusUpdate c x \<Rightarrow> c = Mem \<and> (\<exists>svcExport e cond d cs. x = OSE (svcExport\<lparr>se_Conditions := cs\<rparr>) \<and>
          answered (OSE svcExport) h \<and> answered (OISE e) h \<and>
          LibFindStatusCondition L (ise_Conditions e) ServiceExportConflict = Some cond \<and>
          LibFindStatusCondition L cs ServiceExportConflict = Some d \<and> sameVerdict (verdictFor svcExport cond) d \<and>
          (\<forall>t. t \<noteq> ServiceExportConflict \<longrightarrow> LibFindStatusCondition L cs t = LibFindStatusCondition L (se_Conditions svcExport) t))
      | Delete c kd n \<Rightarrow> c = Hub \<and> (\<exists>e. answered (OISE e) h \<and> n = metaKey (ise_ObjectMeta e) \<and> kd = KInternalServiceExport \<and>
          gone Mem KServiceExport \<lparr>nn_Namespace = eor_Namespace (ises_ServiceReference (ise_Spec e)),
            nn_Name = eor_Name (ises_ServiceReference (ise_Spec e))\<rparr> h)
      | Update c x \<Rightarrow> c = Hub \<and> (\<exists>e. answered (OISE e) h \<and> x = OISE (MIE_annotated e) \<and>
          observedVersion e \<noteq> Some (eor_ResourceVersion (ises_ServiceReference (ise_Spec e))))
      | MetricObserve m ls v \<Rightarrow> 0 < v \<and> v \<le> ExportDurationRightBound \<and> (\<forall>m' ls' v' a. (MetricObserve m' ls' v', a) \<notin> set h) \<and>
          (\<exists>e y. (Update Hub (OISE e), RObj (OISE y)) \<in> set h \<and>
             observedVersion e = Some (eor_ResourceVersion (ises_ServiceReference (ise_Spec e))))
      | _ \<Rightarrow> False)"

text \<open>Objects for the examples: the hub has found no conflict for the service \<open>work/app\<close>.\<close>

definition demoVerdict :: Condition where
  "demoVerdict = UnconflictedServiceExportConflictCondition demoExport"

definition demoIse :: InternalServiceExport where
  "demoIse = demoExport\<lparr>ise_Conditions := [demoVerdict], ise_Spec := (ise_Spec demoExport)\<lparr>ises_ServiceReference :=
     (ises_ServiceReference (ise_Spec demoExport))\<lparr>eor_ResourceVersion := ''9'', eor_ExportedSince := Some 2000000000\<rparr>\<rparr>\<rparr>"

definition demoSe :: "Condition list \<Rightarrow> ServiceExport" where
  "demoSe cs = \<lparr>se_ObjectMeta = (metaOf ''work'' ''app'')\<lparr>om_Generation := 3\<rparr>, se_Conditions = cs\<rparr>"

definition demoReport :: trace where
  "demoReport = fst (play [RObj (OISE demoIse), RObj (OSE (demoSe [])), ROk, RObj (OSE (demoSe [])), RTime 5000000000,
     RObj (OISE demoIse), ROk] (MIE_Reconcile refLib ''c1'' demoExportKey))"

section \<open>Lemmas\<close>

lemma observedVersion_annotated [simp]:
  "observedVersion (MIE_annotated e) = Some (eor_ResourceVersion (ises_ServiceReference (ise_Spec e)))"
  "ise_Spec (MIE_annotated e) = ise_Spec e"
  by (simp_all add: observedVersion_def MIE_annotated_def)

lemma MIE_report_wp:
  assumes "condition_laws L" and "answered (OSE svcExport) h" and "answered (OISE e) h"
  shows "wp (MIE_guard L) (\<lambda>h' r. (\<exists>k. h' = h @ k) \<and> (\<forall>m ls v a. (MetricObserve m ls v, a) \<in> set h' \<longrightarrow> (MetricObserve m ls v, a) \<in> set h))
    (MIE_reportBackConflictCondition L svcExport e) h"
proof -
  have upd: "MIE_guard L (h @ k) (StatusUpdate Mem (OSE (svcExport\<lparr>se_Conditions :=
      LibSetStatusCondition L (se_Conditions svcExport) (c\<lparr>c_ObservedGeneration := om_Generation (se_ObjectMeta svcExport)\<rparr>)\<rparr>)))"
    if c: "LibFindStatusCondition L (ise_Conditions e) ServiceExportConflict = Some c" for c k
  proof -
    have ty: "c_Type (verdictFor svcExport c) = ServiceExportConflict"
      using c find_SomeD unfolding condition_lawsD(1) [OF assms(1)] by (fastforce simp: verdictFor_def)
    obtain u where u: "LibFindStatusCondition L (LibSetStatusCondition L (se_Conditions svcExport) (verdictFor svcExport c))
        ServiceExportConflict = Some ((verdictFor svcExport c)\<lparr>c_LastTransitionTime := u\<rparr>)"
      using condition_lawsD(2) [OF assms(1), of "se_Conditions svcExport" "verdictFor svcExport c"] ty by auto
    have "LibFindStatusCondition L (LibSetStatusCondition L (se_Conditions svcExport) (verdictFor svcExport c)) t =
        LibFindStatusCondition L (se_Conditions svcExport) t" if "t \<noteq> ServiceExportConflict" for t
      by (rule condition_lawsD(3) [OF assms(1)]) (use that ty in simp)
    with u c answered_mono [OF assms(2)] answered_mono [OF assms(3)] show ?thesis
      unfolding MIE_guard_def request.case verdictFor_def [symmetric] sameVerdict_def by blast
  qed
  have ev: "MIE_guard L h' (Eventf kd n t r m)" for h' kd n t r m by (simp add: MIE_guard_def)
  show ?thesis
    using upd [of _ "[]"] upd [of _ "[_]"]
    by (auto simp: MIE_reportBackConflictCondition_def Let_def prog_simps ev decUpd_def split: option.splits sum.splits)
qed

lemma MIE_observe_wp:
  assumes "answered (OISE e) h" and "\<forall>m ls v a. (MetricObserve m ls v, a) \<notin> set h"
  shows "wp (MIE_guard L) (\<lambda>_ _. True) (MIE_observeMetrics c e now) h"
proof -
  have up: "MIE_guard L h (Update Hub (OISE (MIE_annotated e)))"
    if "observedVersion e \<noteq> Some (eor_ResourceVersion (ises_ServiceReference (ise_Spec e)))"
    using that assms(1) unfolding MIE_guard_def by auto
  have ob: "MIE_guard L (h @ [(Update Hub (OISE (MIE_annotated e)), RObj (OISE y))])
      (MetricObserve m ls (durationMillis t s))" for y m ls t s
    unfolding MIE_guard_def request.case
    using durationMillis_bounds [of t s] assms(2) observedVersion_annotated [of e] by fastforce
  show ?thesis
    using up by (auto simp: MIE_observeMetrics_def prog_simps decUpd_def ob split: sum.splits option.splits)
qed

lemma MIE_Reconcile_wp:
  assumes "condition_laws L"
  shows "wp (MIE_guard L) (\<lambda>_ _. True) (MIE_Reconcile L c n) []"
proof -
  let ?key = "\<lambda>e. \<lparr>nn_Namespace = eor_Namespace (ises_ServiceReference (ise_Spec e)),
      nn_Name = eor_Name (ises_ServiceReference (ise_Spec e))\<rparr>"
  have free: "MIE_guard L h (Get cl kd m)" "MIE_guard L h Now" for h cl kd m by (simp_all add: MIE_guard_def)
  have del: "MIE_guard L [(q, RObj (OISE e)), (Get Mem KServiceExport (?key e), b)]
      (Delete Hub KInternalServiceExport (metaKey (ise_ObjectMeta e)))" if "decSE b = Inl er" "IsNotFound er" for q e b er
  proof -
    have "b = RErr er" using that by (auto simp: decSE_def IsNotFound_def decodeErr_def split: response.splits kobj.splits)
    then have "gone Mem KServiceExport (?key e) [(q, RObj (OISE e)), (Get Mem KServiceExport (?key e), b)]"
      using that(2) by (auto intro: gone_get)
    moreover have "answered (OISE e) [(q, RObj (OISE e)), (Get Mem KServiceExport (?key e), b)]" by (auto simp: answered_def)
    ultimately show ?thesis unfolding MIE_guard_def request.case by blast
  qed
  have rest: "wp (MIE_guard L) (\<lambda>_ _. True) (bindP (MIE_reportBackConflictCondition L svcExport e) (\<lambda>(reported, er).
        case er of Some x \<Rightarrow> Ret (emptyResult, Some x)
        | None \<Rightarrow> if reported then bindP timeNow (\<lambda>now. bindP (MIE_observeMetrics c e now) (\<lambda>mer.
                     case mer of Some x \<Rightarrow> Ret (emptyResult, Some x) | None \<Rightarrow> Ret (emptyResult, None)))
                  else Ret (emptyResult, None)))
      [(Get Hub k1 n1, RObj (OISE e)), (Get Mem k2 n2, RObj (OSE svcExport))]" (is "wp _ _ (bindP _ ?f) ?h") for svcExport e k1 k2 n1 n2
  proof (rule wp_bindI [OF MIE_report_wp [OF assms]])
    show "answered (OSE svcExport) ?h" "answered (OISE e) ?h" by (auto simp: answered_def)
  next
    fix h' r
    assume *: "(\<exists>k. h' = ?h @ k) \<and> (\<forall>m ls v a. (MetricObserve m ls v, a) \<in> set h' \<longrightarrow> (MetricObserve m ls v, a) \<in> set ?h)"
    have "wp (MIE_guard L) (\<lambda>_ _. True) (MIE_observeMetrics c e (decTime a)) (h' @ [(Now, a)])" for a
      by (rule MIE_observe_wp) (use * in \<open>auto simp: answered_def\<close>)
    then show "wp (MIE_guard L) (\<lambda>_ _. True) (?f r) h'"
      by (auto simp: prog_simps free split: prod.splits option.splits intro!: wp_bindI)
  qed
  show ?thesis
    by (auto simp: MIE_Reconcile_def Let_def prog_simps free split: sum.splits option.splits intro!: del rest)
qed

section \<open>Properties\<close>

text \<open>C27. What is reported and measured: for all answers and at every point where the process may stop,
  the status of a ServiceExport is written only to carry the hub's conflict condition (with the
  generation of the ServiceExport) and leaves the other conditions alone; the InternalServiceExport is
  deleted only when its ServiceExport was not found; a data point is taken at most once per pass, is
  positive and at most the right bound, and is taken only after the annotation that prevents a second
  one for the same resource version was accepted.\<close>

theorem MIE_reports_and_measures:
  assumes "condition_laws L" and "steps (MIE_Reconcile L c n) tr p"
  shows "guarded (MIE_guard L) [] tr"
  by (rule wp_guarded [OF assms(2) MIE_Reconcile_wp [OF assms(1)]])

theorem MIE_reports_and_measures_witness:
  "guarded (MIE_guard refLib) [] demoReport \<and> fst (last demoReport) = MetricObserve svcExportDuration [''c1''] 3000"
proof -
  have "steps (MIE_Reconcile refLib ''c1'' demoExportKey) demoReport (snd (play [RObj (OISE demoIse), RObj (OSE (demoSe [])), ROk,
     RObj (OSE (demoSe [])), RTime 5000000000, RObj (OISE demoIse), ROk] (MIE_Reconcile refLib ''c1'' demoExportKey)))"
    unfolding demoReport_def by (rule play_trace_steps) simp
  from MIE_reports_and_measures [OF refLib_condition_laws this] show ?thesis by (rule conjI) code_simp
qed

text \<open>The comparison looks at the wrong condition: when the ServiceExport already carries the
  condition that would be reported, and the hub's condition observed another generation, the pass
  still sends an event and then that same condition again.\<close>

theorem MIE_reports_again:
  assumes "om_DeletionTimestamp (ise_ObjectMeta e) = None"
    and "LibFindStatusCondition L (ise_Conditions e) ServiceExportConflict = Some cond" and "c_Status cond = ConditionFalse"
    and "c_ObservedGeneration cond \<noteq> om_Generation (se_ObjectMeta svcExport)"
    and "LibFindStatusCondition L (se_Conditions svcExport) ServiceExportConflict = Some (verdictFor svcExport cond)"
  shows "nextCall (snd (play [RObj (OISE e), RObj (OSE svcExport), ROk] (MIE_Reconcile L c n))) =
    Some (StatusUpdate Mem (OSE (svcExport\<lparr>se_Conditions := LibSetStatusCondition L (se_Conditions svcExport) (verdictFor svcExport cond)\<rparr>)))"
proof -
  have "verdictFor svcExport cond \<noteq> cond"
  proof
    assume "verdictFor svcExport cond = cond"
    from arg_cong [OF this, of c_ObservedGeneration] assms(4) show False by (simp add: verdictFor_def)
  qed
  with assms(1-3,5) show ?thesis
    by (simp add: MIE_Reconcile_def MIE_reportBackConflictCondition_def Let_def prog_simps verdictFor_def nextCall_def)
qed

theorem MIE_reports_again_witness:
  "nextCall (snd (play [RObj (OISE demoIse), RObj (OSE (demoSe [verdictFor (demoSe []) demoVerdict])), ROk] (MIE_Reconcile refLib ''c1'' demoExportKey))) =
    Some (StatusUpdate Mem (OSE ((demoSe [verdictFor (demoSe []) demoVerdict])\<lparr>se_Conditions :=
      LibSetStatusCondition refLib (se_Conditions (demoSe [verdictFor (demoSe []) demoVerdict]))
        (verdictFor (demoSe [verdictFor (demoSe []) demoVerdict]) demoVerdict)\<rparr>)))"
  by (rule MIE_reports_again) code_simp+

end
