(* ===== verification/Member_ServiceImport.thy ===== *)
theory Member_ServiceImport
  imports Observations
begin

text \<open>
  The two import controllers of a member cluster: the ServiceImport controller
  (\<open>pkg/controllers/member/serviceimport/controller.go\<close>) asks the hub for the import with an
  InternalServiceImport, and the InternalServiceImport controller
  (\<open>pkg/controllers/member/internalserviceimport/controller.go\<close>) reports the answer of the hub back.
\<close>

section \<open>The ServiceImport controller\<close>

definition ServiceImportFinalizer :: string where
  "ServiceImportFinalizer = ''networking.fleet.azure.com/serviceimport-cleanup''"

definition formatInternalServiceImportName :: "ServiceImport \<Rightarrow> string" where
  "formatInternalServiceImportName s = om_Namespace (si_ObjectMeta s) @ ''-'' @ om_Name (si_ObjectMeta s)"

definition newISI :: "string \<Rightarrow> string \<Rightarrow> InternalServiceImport" where
  "newISI ns nm = \<lparr>isi_ObjectMeta = metaOf ns nm, isi_ServiceImportReference = zeroRef, isi_Status = zeroSIStatus\<rparr>"

text \<open>The mutate function.\<close>

definition MSI_reference :: "string \<Rightarrow> ServiceImport \<Rightarrow> InternalServiceImport \<Rightarrow> InternalServiceImport" where
  "MSI_reference memberClusterID s i =
     (let m = si_ObjectMeta s;
          i1 = (if om_CreationTimestamp (isi_ObjectMeta i) = None
                then i\<lparr>isi_ServiceImportReference := FromMetaObjects memberClusterID (si_TypeMeta s) m (om_CreationTimestamp m)\<rparr>
                else i)
      in i1\<lparr>isi_ServiceImportReference := UpdateFromMetaObject m (om_CreationTimestamp m) (isi_ServiceImportReference i1)\<rparr>)"

definition MSI_mutate :: "string \<Rightarrow> ServiceImport \<Rightarrow> kobj \<Rightarrow> (err option \<times> kobj) op" where
  "MSI_mutate memberClusterID s x = Ret (None, case x of OISI i \<Rightarrow> OISI (MSI_reference memberClusterID s i) | _ \<Rightarrow> x)"

definition MSI_upsert :: "Lib \<Rightarrow> string \<Rightarrow> InternalServiceImport \<Rightarrow> ServiceImport \<Rightarrow> outcome op" where
  "MSI_upsert L memberClusterID i s =
     bindP (LibCreateOrUpdate L Hub (OISI i) (MSI_mutate memberClusterID s)) (\<lambda>(er, _).
       case er of Some e \<Rightarrow> Ret (emptyResult, Some e) | None \<Rightarrow> Ret (emptyResult, None))"

definition MSI_withdraw :: "Lib \<Rightarrow> InternalServiceImport \<Rightarrow> ServiceImport \<Rightarrow> outcome op" where
  "MSI_withdraw L i s =
     bindP (deleteObj Hub KInternalServiceImport (metaKey (isi_ObjectMeta i))) (\<lambda>der.
       if (case der of None \<Rightarrow> False | Some e \<Rightarrow> \<not> IsNotFound e) then Ret (emptyResult, der)
       else bindP (doUpdate Mem OSI decSI (s\<lparr>si_ObjectMeta := LibRemoveFinalizer L (si_ObjectMeta s) ServiceImportFinalizer\<rparr>)) (\<lambda>(er, _).
         case er of Some e \<Rightarrow> Ret (emptyResult, Some e) | None \<Rightarrow> Ret (emptyResult, None)))"

definition MSI_Reconcile :: "Lib \<Rightarrow> string \<Rightarrow> string \<Rightarrow> NamespacedName \<Rightarrow> outcome op" where
  "MSI_Reconcile L memberClusterID hubNamespace name =
     bindP (getSI Mem name) (\<lambda>r.
       case r of
         Inl e \<Rightarrow> if IsNotFound e then Ret (emptyResult, None) else Ret (emptyResult, Some e)
       | Inr s \<Rightarrow>
           let i = newISI hubNamespace (formatInternalServiceImportName s) in
           if om_DeletionTimestamp (si_ObjectMeta s) \<noteq> None then
             (if \<not> LibContainsFinalizer L (si_ObjectMeta s) ServiceImportFinalizer then Ret (emptyResult, None)
              else MSI_withdraw L i s)
           else if \<not> LibContainsFinalizer L (si_ObjectMeta s) ServiceImportFinalizer then
             bindP (doUpdate Mem OSI decSI (s\<lparr>si_ObjectMeta := LibAddFinalizer L (si_ObjectMeta s) ServiceImportFinalizer\<rparr>)) (\<lambda>(er, s1).
               case er of Some e \<Rightarrow> Ret (emptyResult, Some e) | None \<Rightarrow> MSI_upsert L memberClusterID i s1)
           else MSI_upsert L memberClusterID i s)"

section \<open>The InternalServiceImport controller\<close>

definition MII_Reconcile :: "NamespacedName \<Rightarrow> outcome op" where
  "MII_Reconcile name =
     bindP (getISI Hub name) (\<lambda>r.
       case r of
         Inl e \<Rightarrow> if IsNotFound e then Ret (emptyResult, None) else Ret (emptyResult, Some e)
       | Inr i \<Rightarrow>
           let ref = isi_ServiceImportReference i in
           bindP (getSI Mem \<lparr>nn_Namespace = eor_Namespace ref, nn_Name = eor_Name ref\<rparr>) (\<lambda>r2.
             case r2 of
               Inl e \<Rightarrow>
                 if IsNotFound e then
                   bindP (deleteObj Hub KInternalServiceImport (metaKey (isi_ObjectMeta i))) (\<lambda>der.
                     case der of Some x \<Rightarrow> Ret (emptyResult, Some x) | None \<Rightarrow> Ret (emptyResult, None))
                 else Ret (emptyResult, Some e)
             | Inr s \<Rightarrow>
                 if isi_Status i = si_Status s then Ret (emptyResult, None)
                 else bindP (doStatusUpdate Mem OSI decSI (s\<lparr>si_Status := isi_Status i\<rparr>)) (\<lambda>(er, _).
                   case er of Some x \<Rightarrow> Ret (emptyResult, Some x) | None \<Rightarrow> Ret (emptyResult, None))))"

section \<open>What is said of the controllers\<close>

definition hasSIFinalizer :: "kobj \<Rightarrow> bool" where
  "hasSIFinalizer x = (case x of OSI s \<Rightarrow> ServiceImportFinalizer \<in> set (om_Finalizers (si_ObjectMeta s)) | _ \<Rightarrow> False)"

text \<open>The InternalServiceImport of a ServiceImport, by its key.\<close>

definition requestKey :: "string \<Rightarrow> ServiceImport \<Rightarrow> NamespacedName" where
  "requestKey hubNamespace s = \<lparr>nn_Namespace = hubNamespace, nn_Name = formatInternalServiceImportName s\<rparr>"

text \<open>The reference points back to the ServiceImport: at once in a new object, and as it was in an
  object that existed before.\<close>

definition refersTo :: "string \<Rightarrow> trace \<Rightarrow> InternalServiceImport \<Rightarrow> bool" where
  "refersTo c h i \<longleftrightarrow>
     (\<exists>s. answered (OSI s) h \<and> isi_ServiceImportReference i = FromMetaObjects c (si_TypeMeta s) (si_ObjectMeta s) (om_CreationTimestamp (si_ObjectMeta s))) \<or>
     (\<exists>i0. answered (OISI i0) h \<and> om_CreationTimestamp (isi_ObjectMeta i0) \<noteq> None \<and>
        (\<forall>f \<in> {eor_ClusterID, eor_Kind, eor_Namespace, eor_Name, eor_UID, eor_NamespacedName}.
           f (isi_ServiceImportReference i) = f (isi_ServiceImportReference i0)))"

definition MSI_guard :: "string \<Rightarrow> string \<Rightarrow> trace \<Rightarrow> request \<Rightarrow> bool" where
  "MSI_guard c ns h q \<longleftrightarrow>
     (case q of
        Get cl kd n \<Rightarrow> True
      | Create cl x \<Rightarrow> cl = Hub \<and> shown Mem hasSIFinalizer h \<and> (\<exists>i. x = OISI i \<and> om_Namespace (isi_ObjectMeta i) = ns \<and> refersTo c h i)
      | Update cl x \<Rightarrow>
          (case x of
             OISI i \<Rightarrow> cl = Hub \<and> shown Mem hasSIFinalizer h \<and> refersTo c h i
           | OSI s \<Rightarrow> cl = Mem \<and> (hasSIFinalizer x \<or> gone Hub KInternalServiceImport (requestKey ns s) h)
           | _ \<Rightarrow> False)
      | Delete cl kd n \<Rightarrow> cl = Hub \<and> kd = KInternalServiceImport \<and>
          (\<exists>s. answered (OSI s) h \<and> om_DeletionTimestamp (si_ObjectMeta s) \<noteq> None \<and> n = requestKey ns s)
      | _ \<Rightarrow> False)"

definition MII_guard :: "trace \<Rightarrow> request \<Rightarrow> bool" where
  "MII_guard h q \<longleftrightarrow>
     (case q of
        Get cl kd n \<Rightarrow> True
      | StatusUpdate cl x \<Rightarrow> cl = Mem \<and> (\<exists>i s. answered (OISI i) h \<and> answered (OSI s) h \<and>
          isi_Status i \<noteq> si_Status s \<and> x = OSI (s\<lparr>si_Status := isi_Status i\<rparr>))
      | Delete cl kd n \<Rightarrow> cl = Hub \<and> kd = KInternalServiceImport \<and> (\<exists>i. answered (OISI i) h \<and> n = metaKey (isi_ObjectMeta i) \<and>
          gone Mem KServiceImport \<lparr>nn_Namespace = eor_Namespace (isi_ServiceImportReference i),
            nn_Name = eor_Name (isi_ServiceImportReference i)\<rparr> h)
      | _ \<Rightarrow> False)"

text \<open>Answers for the examples.\<close>

definition demoImportF :: ServiceImport where
  "demoImportF = demoImport\<lparr>si_ObjectMeta := (si_ObjectMeta demoImport)\<lparr>om_Finalizers := [ServiceImportFinalizer]\<rparr>\<rparr>"

definition demoRequestAnswers :: "response list" where
  "demoRequestAnswers = [RObj (OSI demoImport), RObj (OSI demoImportF), notFound, ROk]"

definition demoReportAnswers :: "response list" where
  "demoReportAnswers = [RObj (OISI ((newISI ''fleet-member-c3'' ''work-app'')\<lparr>isi_ServiceImportReference :=
      zeroRef\<lparr>eor_Namespace := ''work'', eor_Name := ''app''\<rparr>, isi_Status := zeroSIStatus\<lparr>sis_Ports := [demoPort]\<rparr>\<rparr>)),
    RObj (OSI demoImport), ROk]"

section \<open>Lemmas\<close>

lemma kindOf_ISI: "kindOf x = KInternalServiceImport \<longleftrightarrow> (\<exists>i. x = OISI i)"
  by (cases x) (simp_all add: kindOf_def)

lemma MSI_guard_Get [simp]: "MSI_guard c ns h (Get cl kd n)"
  by (simp add: MSI_guard_def)

lemma MSI_reference_meta [simp]: "isi_ObjectMeta (MSI_reference c s i) = isi_ObjectMeta i"
  by (simp add: MSI_reference_def Let_def)

lemma refersTo_new:
  assumes "answered (OSI s) h" and "om_CreationTimestamp (isi_ObjectMeta i) = None"
  shows "refersTo c h (MSI_reference c s i)"
  using assms unfolding refersTo_def
  by (intro disjI1 exI [of _ s]) (simp add: MSI_reference_def UpdateFromMetaObject_FromMetaObjects Let_def)

lemma refersTo_old:
  assumes "answered (OISI i) h" and "om_CreationTimestamp (isi_ObjectMeta i) \<noteq> None"
  shows "refersTo c h (MSI_reference c s i)"
  using assms unfolding refersTo_def
  by (intro disjI2 exI [of _ i]) (auto simp: MSI_reference_def UpdateFromMetaObject_identity Let_def)

lemma refersTo_found: "answered (OSI s) h \<Longrightarrow> answered (OISI i) h \<Longrightarrow> refersTo c h (MSI_reference c s i)"
  by (cases "om_CreationTimestamp (isi_ObjectMeta i) = None") (blast intro: refersTo_new refersTo_old)+

lemma MSI_upsert_wp:
  assumes "createOrUpdate_laws L" and "shown Mem hasSIFinalizer h" and "answered (OSI s) h"
  shows "wp (MSI_guard c ns) (\<lambda>_ _. True) (MSI_upsert L c (newISI ns nm) s) h"
proof -
  have new: "om_Namespace (isi_ObjectMeta (newISI ns nm)) = ns" "om_CreationTimestamp (isi_ObjectMeta (newISI ns nm)) = None"
    by (simp_all add: newISI_def metaOf_def zeroMeta_def)
  have cr: "MSI_guard c ns (h @ k) (Create Hub (OISI (MSI_reference c s (newISI ns nm))))" for k
    using assms(2,3) new refersTo_new [of s "h @ k" "newISI ns nm" c] by (simp add: MSI_guard_def)
  have up: "MSI_guard c ns (h @ [(q, RObj (OISI i))]) (Update Hub (OISI (MSI_reference c s i)))" for q i
    using assms(2,3) refersTo_found [of s "h @ [(q, RObj (OISI i))]" i c] by (simp add: MSI_guard_def)
  have doc: "LibCreateOrUpdate L Hub x f = createOrUpdateDoc Hub x f" for x f
    using assms(1) by (simp add: createOrUpdate_laws_def)
  show ?thesis
    by (auto simp: MSI_upsert_def doc createOrUpdateDoc_def MSI_mutate_def prog_simps kindOf_ISI cr up
        split: sum.splits)
qed

lemma MSI_Reconcile_wp:
  assumes "finalizer_laws L" and "createOrUpdate_laws L"
  shows "wp (MSI_guard c ns) (\<lambda>_ _. True) (MSI_Reconcile L c ns n) []"
proof -
  let ?add = "\<lambda>s. s\<lparr>si_ObjectMeta := LibAddFinalizer L (si_ObjectMeta s) ServiceImportFinalizer\<rparr>"
  let ?rem = "\<lambda>s. s\<lparr>si_ObjectMeta := LibRemoveFinalizer L (si_ObjectMeta s) ServiceImportFinalizer\<rparr>"
  have added: "hasSIFinalizer (OSI (?add s))" for s
    using finalizer_lawsD(2) [OF assms(1)] by (simp add: hasSIFinalizer_def)
  have key: "requestKey ns (?rem s) = metaKey (isi_ObjectMeta (newISI ns (formatInternalServiceImportName s)))" for s
    by (simp add: requestKey_def newISI_def metaOf_def metaKey_def formatInternalServiceImportName_def finalizer_laws_fields [OF assms(1)])
  have key': "requestKey ns s = metaKey (isi_ObjectMeta (newISI ns (formatInternalServiceImportName s)))" for s
    by (simp add: requestKey_def newISI_def metaOf_def metaKey_def)
  have present: "shown Mem hasSIFinalizer [(Get Mem KServiceImport n, RObj (OSI s))]"
    if "LibContainsFinalizer L (si_ObjectMeta s) ServiceImportFinalizer" for s
    by (rule shown_get [of _ "OSI s" _ n]) (use that finalizer_lawsD(1) [OF assms(1)] in \<open>simp_all add: hasSIFinalizer_def\<close>)
  have addG: "MSI_guard c ns h (Update Mem (OSI (?add s)))" for h s
    using added by (simp add: MSI_guard_def)
  have rest: "wp (MSI_guard c ns) (\<lambda>_ _. True) (MSI_upsert L c (newISI ns nm) s')
      [x, (Update Mem (OSI (?add s)), RObj (OSI s'))]" for x s s' nm
    by (rule MSI_upsert_wp [OF assms(2) shown_update [where P = hasSIFinalizer and y = "OSI s'", OF added [of s]]])
      (auto simp: answered_def)
  have found: "wp (MSI_guard c ns) (\<lambda>_ _. True) (MSI_upsert L c (newISI ns nm) s) [(Get Mem KServiceImport n, RObj (OSI s))]"
    if "LibContainsFinalizer L (si_ObjectMeta s) ServiceImportFinalizer" for s nm
    by (rule MSI_upsert_wp [OF assms(2) present [OF that]]) (simp add: answered_def)
  have withdraw: "wp (MSI_guard c ns) (\<lambda>_ _. True) (MSI_withdraw L (newISI ns (formatInternalServiceImportName s)) s)
      [(Get Mem KServiceImport n, RObj (OSI s))]" if "om_DeletionTimestamp (si_ObjectMeta s) = Some t" for s t
  proof -
    let ?q = "Delete Hub KInternalServiceImport (metaKey (isi_ObjectMeta (newISI ns (formatInternalServiceImportName s))))"
    have "MSI_guard c ns [(Get Mem KServiceImport n, RObj (OSI s))] ?q"
      using that by (auto simp: MSI_guard_def answered_def key' [symmetric])
    moreover have "MSI_guard c ns [x, (?q, a)] (Update Mem (OSI (?rem s)))" if "deletedBy a" for x a
      using that by (auto simp: MSI_guard_def key intro!: gone_delete)
    ultimately show ?thesis
      by (auto simp: MSI_withdraw_def prog_simps deletedBy_def decUpd_def split: option.splits sum.splits)
  qed
  show ?thesis
    by (auto simp: MSI_Reconcile_def Let_def prog_simps addG decUpd_def split: sum.splits intro!: rest found withdraw)
qed

lemma MII_Reconcile_wp: "wp MII_guard (\<lambda>_ _. True) (MII_Reconcile n) []"
proof -
  have nf: "b = RErr er" if "decSI b = Inl er" "IsNotFound er" for b er
    using that by (auto simp: decSI_def IsNotFound_def decodeErr_def split: response.splits kobj.splits)
  show ?thesis
    by (auto simp: MII_Reconcile_def Let_def prog_simps MII_guard_def answered_def decUpd_def split: sum.splits option.splits
        intro!: gone_get dest!: nf)
qed

section \<open>Properties\<close>

text \<open>C14. The request protocol of a member cluster: for all answers and at every point where the process
  may stop, an InternalServiceImport is created or updated in the hub only after the ServiceImport with
  the clean-up finalizer is on record, new ones lie in the hub namespace of the cluster and refer to the
  ServiceImport, an update of an existing one keeps the identity of the reference; the finalizer is
  removed only when the InternalServiceImport is gone, and that is deleted only for a ServiceImport
  that is being deleted.\<close>

theorem MSI_request_protocol:
  assumes "finalizer_laws L" and "createOrUpdate_laws L" and "steps (MSI_Reconcile L c ns n) tr p"
  shows "guarded (MSI_guard c ns) [] tr"
  by (rule wp_guarded [OF assms(3) MSI_Reconcile_wp [OF assms(1,2)]])

theorem MSI_request_protocol_witness:
  "guarded (MSI_guard ''c3'' ''fleet-member-c3'') [] (fst (play demoRequestAnswers (MSI_Reconcile refLib ''c3'' ''fleet-member-c3'' demoImportKey))) \<and>
   map fst (tl (fst (play demoRequestAnswers (MSI_Reconcile refLib ''c3'' ''fleet-member-c3'' demoImportKey)))) =
     [Update Mem (OSI demoImportF), Get Hub KInternalServiceImport (requestKey ''fleet-member-c3'' demoImportF),
      Create Hub (OISI (MSI_reference ''c3'' demoImportF (newISI ''fleet-member-c3'' ''work-app'')))]"
proof -
  let ?p = "MSI_Reconcile refLib ''c3'' ''fleet-member-c3'' demoImportKey"
  have "steps ?p (fst (play demoRequestAnswers ?p)) (snd (play demoRequestAnswers ?p))" by (rule play_trace_steps) simp
  from MSI_request_protocol [OF refLib_finalizer_laws refLib_createOrUpdate_laws this]
  show ?thesis by (rule conjI) code_simp
qed

text \<open>What is reported back: for all answers, the status of a ServiceImport is written only to the
  status of an InternalServiceImport that was read and differs from it, and an InternalServiceImport is
  deleted only when the ServiceImport that it refers to was not found. Nothing else is written.\<close>

theorem MII_reports_hub_status:
  assumes "steps (MII_Reconcile n) tr p"
  shows "guarded MII_guard [] tr"
  by (rule wp_guarded [OF assms MII_Reconcile_wp])

theorem MII_reports_hub_status_witness:
  "guarded MII_guard [] (fst (play demoReportAnswers (MII_Reconcile demoExportKey))) \<and>
   fst (last (fst (play demoReportAnswers (MII_Reconcile demoExportKey)))) =
     StatusUpdate Mem (OSI (demoImport\<lparr>si_Status := zeroSIStatus\<lparr>sis_Ports := [demoPort]\<rparr>\<rparr>))"
proof -
  let ?p = "MII_Reconcile demoExportKey"
  have "steps ?p (fst (play demoReportAnswers ?p)) (snd (play demoReportAnswers ?p))" by (rule play_trace_steps) simp
  from MII_reports_hub_status [OF this] show ?thesis by (rule conjI) code_simp
qed

text \<open>The name of an InternalServiceImport does not identify its ServiceImport: joining namespace and
  name with a dash maps two ServiceImports of one member cluster to the same hub object just when the
  texts coincide, which happens for different keys.\<close>

theorem formatInternalServiceImportName_collides:
  "\<exists>s t. metaKey (si_ObjectMeta s) \<noteq> metaKey (si_ObjectMeta t) \<and> requestKey ns s = requestKey ns t"
proof (intro exI conjI)
  let ?s = "demoImport\<lparr>si_ObjectMeta := metaOf ''a-b'' ''c''\<rparr>" and ?t = "demoImport\<lparr>si_ObjectMeta := metaOf ''a'' ''b-c''\<rparr>"
  show "metaKey (si_ObjectMeta ?s) \<noteq> metaKey (si_ObjectMeta ?t)" by (simp add: metaKey_def metaOf_def)
  show "requestKey ns ?s = requestKey ns ?t" by (simp add: requestKey_def formatInternalServiceImportName_def metaOf_def)
qed

end
