(* ===== verification/Member_EndpointSlice.thy ===== *)
theory Member_EndpointSlice
  imports Observations Conditions ObjectNames Metrics
begin

text \<open>
  The EndpointSlice controller (\<open>pkg/controllers/member/endpointslice/controller.go\<close> and \<open>util.go\<close>), which
  exports the endpoint slices of exported services to the hub, and the EndpointSliceExport controller
  (\<open>pkg/controllers/member/endpointsliceexport/controller.go\<close>), which clears exports of the hub that no
  endpoint slice of the member cluster claims.
\<close>

section \<open>The EndpointSlice controller\<close>

datatype skipOrUnexportEndpointSliceOp = shouldSkipEndpointSliceOp | shouldUnexportEndpointSliceOp | continueReconcileOp

text \<open>The label that names the service of an endpoint slice (\<open>k8s.io/api/discovery/v1\<close>).\<close>

definition LabelServiceName :: string where
  "LabelServiceName = ''kubernetes.io/service-name''"

definition AddressTypeIPv4 :: string where
  "AddressTypeIPv4 = ''IPv4''"

abbreviation esAnnotations :: "EndpointSlice \<Rightarrow> string gomap" where
  "esAnnotations es \<equiv> om_Annotations (es_ObjectMeta es)"

definition setAnnotations :: "string gomap \<Rightarrow> EndpointSlice \<Rightarrow> EndpointSlice" where
  "setAnnotations an es = es\<lparr>es_ObjectMeta := (es_ObjectMeta es)\<lparr>om_Annotations := an\<rparr>\<rparr>"

definition uniqueNameOf :: "EndpointSlice \<Rightarrow> string option" where
  "uniqueNameOf es = mget (esAnnotations es) ExportedObjectAnnotationUniqueName"

definition isEndpointSlicePermanentlyUnexportable :: "EndpointSlice \<Rightarrow> bool" where
  "isEndpointSlicePermanentlyUnexportable es = (es_AddressType es \<noteq> AddressTypeIPv4)"

definition isServiceExportValidWithNoConflict :: "Lib \<Rightarrow> ServiceExport \<Rightarrow> bool" where
  "isServiceExportValidWithNoConflict L e =
     ((case LibFindStatusCondition L (se_Conditions e) ServiceExportValid of None \<Rightarrow> False | Some c \<Rightarrow> c_Status c = ConditionTrue) \<and>
      (case LibFindStatusCondition L (se_Conditions e) ServiceExportConflict of None \<Rightarrow> False | Some c \<Rightarrow> c_Status c = ConditionFalse) \<and>
      om_DeletionTimestamp (se_ObjectMeta e) = None)"

definition isUniqueNameValid :: "Lib \<Rightarrow> string \<Rightarrow> bool" where
  "isUniqueNameValid L nm = (LibIsDNS1123Subdomain L nm = [])"

definition isEndpointSliceExportLinkedWithEndpointSlice :: "EndpointSliceExport \<Rightarrow> EndpointSlice \<Rightarrow> bool" where
  "isEndpointSliceExportLinkedWithEndpointSlice x es =
     (eor_UID (eses_EndpointSliceReference (ese_Spec x)) = om_UID (es_ObjectMeta es))"

definition extractEndpointsFromEndpointSlice :: "EndpointSlice \<Rightarrow> Endpoint list" where
  "extractEndpointsFromEndpointSlice es =
     map (\<lambda>p. \<lparr>e_Addresses = de_Addresses p\<rparr>) (filter (\<lambda>p. de_Ready p = None \<or> de_Ready p = Some True) (es_Endpoints es))"

text \<open>An endpoint slice without a unique name has never been exported.\<close>

definition withdrawOp :: "EndpointSlice \<Rightarrow> skipOrUnexportEndpointSliceOp" where
  "withdrawOp es = (if uniqueNameOf es = None then shouldSkipEndpointSliceOp else shouldUnexportEndpointSliceOp)"

definition MES_shouldSkipOrUnexportEndpointSlice :: "Lib \<Rightarrow> EndpointSlice \<Rightarrow> (skipOrUnexportEndpointSliceOp \<times> err option) op" where
  "MES_shouldSkipOrUnexportEndpointSlice L es =
     (if isEndpointSlicePermanentlyUnexportable es then Ret (shouldSkipEndpointSliceOp, None)
      else case mget (om_Labels (es_ObjectMeta es)) LabelServiceName of
        None \<Rightarrow> Ret (withdrawOp es, None)
      | Some svcName \<Rightarrow>
          bindP (getSE Mem \<lparr>nn_Namespace = om_Namespace (es_ObjectMeta es), nn_Name = svcName\<rparr>) (\<lambda>g.
            case g of
              Inl x \<Rightarrow> if IsNotFound x then Ret (withdrawOp es, None) else Ret (continueReconcileOp, Some x)
            | Inr e \<Rightarrow>
                if \<not> isServiceExportValidWithNoConflict L e then Ret (withdrawOp es, None)
                else if om_DeletionTimestamp (es_ObjectMeta es) \<noteq> None then Ret (withdrawOp es, None)
                else Ret (continueReconcileOp, None)))"

definition MES_deleteEndpointSliceExportIfLinked :: "Lib \<Rightarrow> string \<Rightarrow> EndpointSlice \<Rightarrow> err option op" where
  "MES_deleteEndpointSliceExportIfLinked L hubNamespace es =
     (let fleetUniqueName = mgets (esAnnotations es) ExportedObjectAnnotationUniqueName in
      if \<not> isUniqueNameValid L fleetUniqueName then Ret None
      else bindP (getESE Hub \<lparr>nn_Namespace = hubNamespace, nn_Name = fleetUniqueName\<rparr>) (\<lambda>g.
        case g of
          Inl x \<Rightarrow> if IsNotFound x then Ret None else Ret (Some x)
        | Inr x \<Rightarrow>
            if \<not> isEndpointSliceExportLinkedWithEndpointSlice x es then Ret None
            else bindP (deleteObj Hub KEndpointSliceExport (metaKey (ese_ObjectMeta x))) (\<lambda>der.
              if (case der of None \<Rightarrow> False | Some y \<Rightarrow> \<not> IsNotFound y) then Ret der else Ret None)))"

definition MES_unexportEndpointSlice :: "Lib \<Rightarrow> string \<Rightarrow> EndpointSlice \<Rightarrow> err option op" where
  "MES_unexportEndpointSlice L hubNamespace es =
     bindP (MES_deleteEndpointSliceExportIfLinked L hubNamespace es) (\<lambda>er.
       case er of
         Some x \<Rightarrow> Ret (Some x)
       | None \<Rightarrow>
           bindP (doUpdate Mem OES decES (setAnnotations (mdel ExportedObjectAnnotationUniqueName
                    (mdel MetricsAnnotationLastSeenTimestamp (mdel MetricsAnnotationLastSeenGeneration (esAnnotations es)))) es))
             (\<lambda>(uer, _). Ret uer))"

definition MES_assignUniqueNameAsAnnotation :: "Lib \<Rightarrow> string \<Rightarrow> EndpointSlice \<Rightarrow> (string \<times> err option \<times> EndpointSlice) op" where
  "MES_assignUniqueNameAsAnnotation L memberClusterID es =
     bindP (FleetScopedUniqueName L DNS1123Subdomain memberClusterID (om_Namespace (es_ObjectMeta es)) (om_Name (es_ObjectMeta es))) (\<lambda>r.
     bindP (case r of Inl _ \<Rightarrow> RandomLowerCaseAlphabeticString 25 | Inr u \<Rightarrow> Ret u) (\<lambda>fleetUniqueName.
     bindP (doUpdate Mem OES decES (setAnnotations (mapPut ExportedObjectAnnotationUniqueName fleetUniqueName (esAnnotations es)) es)) (\<lambda>(er, es').
       Ret (fleetUniqueName, er, es'))))"

text \<open>The annotation map is assumed to exist; writing to the nil map panics.\<close>

definition MES_annotateLastSeenGenerationAndTimestamp :: "Lib \<Rightarrow> EndpointSlice \<Rightarrow> time \<Rightarrow> (err option \<times> EndpointSlice) op" where
  "MES_annotateLastSeenGenerationAndTimestamp L es startTime =
     (if esAnnotations es = None then Panic ''assignment to entry in nil map''
      else doUpdate Mem OES decES (setAnnotations
        (mapPut MetricsAnnotationLastSeenTimestamp (FormatRFC3339 (LibLocalOffset L startTime) startTime)
          (mapPut MetricsAnnotationLastSeenGeneration (FormatInt (om_Generation (es_ObjectMeta es))) (esAnnotations es))) es))"

definition MES_lastSeen :: "EndpointSlice \<Rightarrow> time \<Rightarrow> time option" where
  "MES_lastSeen es startTime =
     (case (mget (esAnnotations es) MetricsAnnotationLastSeenGeneration, mget (esAnnotations es) MetricsAnnotationLastSeenTimestamp) of
        (Some g, Some d) \<Rightarrow>
          (case (Atoi g, ParseRFC3339 d) of
             (Some gen, Some t) \<Rightarrow> if gen \<noteq> om_Generation (es_ObjectMeta es) \<or> startTime < t then None else Some t
           | _ \<Rightarrow> None)
      | _ \<Rightarrow> None)"

definition MES_collectAndVerifyLastSeenGenerationAndTimestamp :: "Lib \<Rightarrow> EndpointSlice \<Rightarrow> time \<Rightarrow> (time \<times> EndpointSlice) op" where
  "MES_collectAndVerifyLastSeenGenerationAndTimestamp L es startTime =
     (case MES_lastSeen es startTime of
        Some t \<Rightarrow> Ret (t, es)
      | None \<Rightarrow> bindP (MES_annotateLastSeenGenerationAndTimestamp L es startTime) (\<lambda>(_, es'). Ret (startTime, es')))"

definition newESE :: "string \<Rightarrow> string \<Rightarrow> EndpointSliceExport" where
  "newESE ns nm = \<lparr>ese_ObjectMeta = metaOf ns nm, ese_Spec = zeroESESpec\<rparr>"

definition ownerReference :: "EndpointSlice \<Rightarrow> OwnerServiceReference" where
  "ownerReference es =
     (let ns = om_Namespace (es_ObjectMeta es); svc = mgets (om_Labels (es_ObjectMeta es)) LabelServiceName in
      \<lparr>osr_Namespace = ns, osr_Name = svc, osr_NamespacedName = ns @ ''/'' @ svc\<rparr>)"

text \<open>The mutate function.\<close>

definition MES_fill :: "Lib \<Rightarrow> string \<Rightarrow> EndpointSlice \<Rightarrow> time \<Rightarrow> string \<Rightarrow> EndpointSliceExport \<Rightarrow> err option \<times> EndpointSliceExport" where
  "MES_fill L memberClusterID es exportedSince fleetUniqueName x =
     (let x1 = (if om_CreationTimestamp (ese_ObjectMeta x) = None
          then x\<lparr>ese_Spec := (ese_Spec x)\<lparr>eses_EndpointSliceReference :=
                 FromMetaObjects memberClusterID (es_TypeMeta es) (es_ObjectMeta es) (Some exportedSince)\<rparr>\<rparr>
          else x)
      in if \<not> isEndpointSliceExportLinkedWithEndpointSlice x1 es then (Some (LibNewAlreadyExists L ''EndpointSliceExport'' fleetUniqueName), x1)
         else (None, x1\<lparr>ese_Spec :=
           \<lparr>eses_AddressType = AddressTypeIPv4, eses_Endpoints = extractEndpointsFromEndpointSlice es, eses_Ports = es_Ports es,
            eses_EndpointSliceReference = UpdateFromMetaObject (es_ObjectMeta es) (Some exportedSince) (eses_EndpointSliceReference (ese_Spec x1)),
            eses_OwnerServiceReference = ownerReference es\<rparr>\<rparr>))"

definition MES_mutate :: "Lib \<Rightarrow> string \<Rightarrow> EndpointSlice \<Rightarrow> time \<Rightarrow> string \<Rightarrow> kobj \<Rightarrow> (err option \<times> kobj) op" where
  "MES_mutate L memberClusterID es exportedSince fleetUniqueName o1 =
     (case o1 of
        OESE x \<Rightarrow> (case MES_fill L memberClusterID es exportedSince fleetUniqueName x of (er, x') \<Rightarrow> Ret (er, OESE x'))
      | _ \<Rightarrow> Ret (None, o1))"

definition MES_export :: "Lib \<Rightarrow> string \<Rightarrow> string \<Rightarrow> EndpointSlice \<Rightarrow> time \<Rightarrow> string \<Rightarrow> outcome op" where
  "MES_export L memberClusterID hubNamespace es exportedSince fleetUniqueName =
     bindP (LibCreateOrUpdate L Hub (OESE (newESE hubNamespace fleetUniqueName))
              (MES_mutate L memberClusterID es exportedSince fleetUniqueName)) (\<lambda>(er, _).
       case er of
         None \<Rightarrow> Ret (emptyResult, None)
       | Some x \<Rightarrow>
           if IsAlreadyExists x then
             bindP (doUpdate Mem OES decES (setAnnotations (mdel ExportedObjectAnnotationUniqueName (esAnnotations es)) es)) (\<lambda>(uer, _).
               Ret (emptyResult, uer))
           else Ret (emptyResult, Some x))"

text \<open>An error while annotating is only logged.\<close>

definition MES_collectAndExport :: "Lib \<Rightarrow> string \<Rightarrow> string \<Rightarrow> time \<Rightarrow> string \<Rightarrow> EndpointSlice \<Rightarrow> outcome op" where
  "MES_collectAndExport L memberClusterID hubNamespace startTime fleetUniqueName es =
     bindP (MES_collectAndVerifyLastSeenGenerationAndTimestamp L es startTime) (\<lambda>(exportedSince, es').
       MES_export L memberClusterID hubNamespace es' exportedSince fleetUniqueName)"

definition MES_assignAndExport :: "Lib \<Rightarrow> string \<Rightarrow> string \<Rightarrow> time \<Rightarrow> EndpointSlice \<Rightarrow> outcome op" where
  "MES_assignAndExport L memberClusterID hubNamespace startTime es =
     bindP (MES_assignUniqueNameAsAnnotation L memberClusterID es) (\<lambda>(fleetUniqueName, er, es').
       case er of
         Some x \<Rightarrow> Ret (emptyResult, Some x)
       | None \<Rightarrow> MES_collectAndExport L memberClusterID hubNamespace startTime fleetUniqueName es')"

definition MES_Reconcile :: "Lib \<Rightarrow> string \<Rightarrow> string \<Rightarrow> NamespacedName \<Rightarrow> outcome op" where
  "MES_Reconcile L memberClusterID hubNamespace req =
     bindP timeNow (\<lambda>startTime.
     bindP (getES Mem req) (\<lambda>g.
       case g of
         Inl x \<Rightarrow> if IsNotFound x then Ret (emptyResult, None) else Ret (emptyResult, Some x)
       | Inr es \<Rightarrow>
           bindP (MES_shouldSkipOrUnexportEndpointSlice L es) (\<lambda>(todo, er).
             case er of
               Some x \<Rightarrow> Ret (emptyResult, Some x)
             | None \<Rightarrow>
                 (case todo of
                    shouldSkipEndpointSliceOp \<Rightarrow> Ret (emptyResult, None)
                  | shouldUnexportEndpointSliceOp \<Rightarrow> bindP (MES_unexportEndpointSlice L hubNamespace es) (\<lambda>uer. Ret (emptyResult, uer))
                  | continueReconcileOp \<Rightarrow>
                      (case uniqueNameOf es of
                         Some u \<Rightarrow>
                           if isUniqueNameValid L u then MES_collectAndExport L memberClusterID hubNamespace startTime u es
                           else MES_assignAndExport L memberClusterID hubNamespace startTime es
                       | None \<Rightarrow> MES_assignAndExport L memberClusterID hubNamespace startTime es)))))"

text \<open>The requests of the watch on ServiceExports: the endpoint slices of the service.\<close>

definition MES_requestsForServiceExport :: "ObjectMeta \<Rightarrow> NamespacedName list op" where
  "MES_requestsForServiceExport m =
     bindP (doList Mem KEndpointSlice decES \<lparr>sel_Namespace = Some (om_Namespace m), sel_Field = None,
              sel_Label = Some (LabelServiceName, om_Name m)\<rparr>) (\<lambda>g.
       case g of Inl _ \<Rightarrow> Ret [] | Inr ess \<Rightarrow> Ret (map (\<lambda>es. metaKey (es_ObjectMeta es)) ess))"

section \<open>The EndpointSliceExport controller\<close>

definition endpointSliceExportRetryInterval :: int where
  "endpointSliceExportRetryInterval = seconds (5 * 60)"

definition MEE_deleteEndpointSliceExport :: "EndpointSliceExport \<Rightarrow> outcome op" where
  "MEE_deleteEndpointSliceExport x =
     bindP (deleteObj Hub KEndpointSliceExport (metaKey (ese_ObjectMeta x))) (\<lambda>der.
       if (case der of None \<Rightarrow> False | Some y \<Rightarrow> \<not> IsNotFound y) then Ret (emptyResult, der) else Ret (emptyResult, None))"

definition MEE_isEndpointSliceExportLinkedWithEndpointSlice :: "EndpointSliceExport \<Rightarrow> EndpointSlice \<Rightarrow> bool" where
  "MEE_isEndpointSliceExportLinkedWithEndpointSlice x es =
     (case mget (esAnnotations es) ExportedObjectAnnotationUniqueName of
        None \<Rightarrow> False | Some uniqueName \<Rightarrow> uniqueName = om_Name (ese_ObjectMeta x))"

definition referenceKey :: "EndpointSliceExport \<Rightarrow> NamespacedName" where
  "referenceKey x = \<lparr>nn_Namespace = eor_Namespace (eses_EndpointSliceReference (ese_Spec x)),
     nn_Name = eor_Name (eses_EndpointSliceReference (ese_Spec x))\<rparr>"

definition MEE_Reconcile :: "NamespacedName \<Rightarrow> outcome op" where
  "MEE_Reconcile req =
     bindP (getESE Hub req) (\<lambda>g.
       case g of
         Inl x \<Rightarrow> if IsNotFound x then Ret (emptyResult, None) else Ret (emptyResult, Some x)
       | Inr x \<Rightarrow>
           bindP (getES Mem (referenceKey x)) (\<lambda>g2.
             case g2 of
               Inl y \<Rightarrow> if IsNotFound y then MEE_deleteEndpointSliceExport x else Ret (emptyResult, Some y)
             | Inr es \<Rightarrow>
                 if \<not> MEE_isEndpointSliceExportLinkedWithEndpointSlice x es then MEE_deleteEndpointSliceExport x
                 else Ret (requeueAfter endpointSliceExportRetryInterval, None)))"

section \<open>What is said of the controllers\<close>

definition named :: "string \<Rightarrow> kobj \<Rightarrow> bool" where
  "named u x = (case x of OES es \<Rightarrow> uniqueNameOf es = Some u | _ \<Rightarrow> False)"

definition serviceKey :: "EndpointSlice \<Rightarrow> string \<Rightarrow> NamespacedName" where
  "serviceKey es svcName = \<lparr>nn_Namespace = om_Namespace (es_ObjectMeta es), nn_Name = svcName\<rparr>"

text \<open>A live IPv4 slice of a service whose export is valid, without conflict and not being deleted.\<close>

definition sliceExportable :: "Lib \<Rightarrow> trace \<Rightarrow> EndpointSlice \<Rightarrow> bool" where
  "sliceExportable L h es \<longleftrightarrow> answered (OES es) h \<and> es_AddressType es = AddressTypeIPv4 \<and> om_DeletionTimestamp (es_ObjectMeta es) = None \<and>
     (\<exists>svcName e. mget (om_Labels (es_ObjectMeta es)) LabelServiceName = Some svcName \<and>
        (Get Mem KServiceExport (serviceKey es svcName), RObj (OSE e)) \<in> set h \<and> isServiceExportValidWithNoConflict L e)"

text \<open>The reasons to withdraw a slice.\<close>

definition sliceUnwanted :: "Lib \<Rightarrow> trace \<Rightarrow> EndpointSlice \<Rightarrow> bool" where
  "sliceUnwanted L h es \<longleftrightarrow> om_DeletionTimestamp (es_ObjectMeta es) \<noteq> None \<or>
     (case mget (om_Labels (es_ObjectMeta es)) LabelServiceName of
        None \<Rightarrow> True
      | Some svcName \<Rightarrow> gone Mem KServiceExport (serviceKey es svcName) h \<or>
          (\<exists>e. (Get Mem KServiceExport (serviceKey es svcName), RObj (OSE e)) \<in> set h \<and> \<not> isServiceExportValidWithNoConflict L e))"

text \<open>The export in the hub is that of the slice.\<close>

definition mirrorsSlice :: "EndpointSlice \<Rightarrow> EndpointSliceExport \<Rightarrow> bool" where
  "mirrorsSlice es x \<longleftrightarrow> eses_AddressType (ese_Spec x) = AddressTypeIPv4 \<and>
     eses_Endpoints (ese_Spec x) = map (\<lambda>p. \<lparr>e_Addresses = de_Addresses p\<rparr>) (filter (\<lambda>p. de_Ready p \<noteq> Some False) (es_Endpoints es)) \<and>
     eses_Ports (ese_Spec x) = es_Ports es \<and> eses_OwnerServiceReference (ese_Spec x) = ownerReference es \<and> isEndpointSliceExportLinkedWithEndpointSlice x es"

definition sliceExportKey :: "string \<Rightarrow> string \<Rightarrow> NamespacedName" where
  "sliceExportKey ns u = \<lparr>nn_Namespace = ns, nn_Name = u\<rparr>"

text \<open>The name of a slice is free: it is not a name, or the hub has no export of that name for the slice.\<close>

definition released :: "Lib \<Rightarrow> string \<Rightarrow> trace \<Rightarrow> EndpointSlice \<Rightarrow> bool" where
  "released L ns h es \<longleftrightarrow> (\<exists>u. shown Mem (named u) h \<and>
     (\<not> isUniqueNameValid L u \<or> gone Hub KEndpointSliceExport (sliceExportKey ns u) h \<or>
      (\<exists>x. (Get Hub KEndpointSliceExport (sliceExportKey ns u), RObj (OESE x)) \<in> set h \<and>
         (\<not> isEndpointSliceExportLinkedWithEndpointSlice x es \<or> gone Hub KEndpointSliceExport (metaKey (ese_ObjectMeta x)) h)) \<or>
      (\<exists>q x. (q, RErr x) \<in> set h \<and> IsAlreadyExists x)))"

definition MES_guard :: "Lib \<Rightarrow> string \<Rightarrow> trace \<Rightarrow> request \<Rightarrow> bool" where
  "MES_guard L ns h q \<longleftrightarrow>
     (case q of
        Create cl x \<Rightarrow> cl = Hub \<and> (\<exists>e es es0. x = OESE e \<and> om_Namespace (ese_ObjectMeta e) = ns \<and>
          shown Mem (named (om_Name (ese_ObjectMeta e))) h \<and> sliceExportable L h es0 \<and> answered (OES es) h \<and> mirrorsSlice es e)
      | Update cl x \<Rightarrow>
          (case x of
             OESE e \<Rightarrow> cl = Hub \<and> (\<exists>es es0. sliceExportable L h es0 \<and> answered (OES es) h \<and> mirrorsSlice es e)
           | OES es \<Rightarrow> cl = Mem \<and> (uniqueNameOf es \<noteq> None \<or> (\<exists>es0. answered (OES es0) h \<and> uniqueNameOf es0 = None) \<or> released L ns h es)
           | _ \<Rightarrow> False)
      | Delete cl kd m \<Rightarrow> cl = Hub \<and> kd = KEndpointSliceExport \<and> (\<exists>es u x. answered (OES es) h \<and> uniqueNameOf es = Some u \<and>
          sliceUnwanted L h es \<and> (Get Hub KEndpointSliceExport (sliceExportKey ns u), RObj (OESE x)) \<in> set h \<and>
          isEndpointSliceExportLinkedWithEndpointSlice x es \<and> m = metaKey (ese_ObjectMeta x))
      | StatusUpdate cl x \<Rightarrow> False
      | _ \<Rightarrow> True)"

definition MEE_guard :: "trace \<Rightarrow> request \<Rightarrow> bool" where
  "MEE_guard h q \<longleftrightarrow>
     (case q of
        Get cl kd n \<Rightarrow> True
      | Delete cl kd m \<Rightarrow> cl = Hub \<and> kd = KEndpointSliceExport \<and> (\<exists>x. answered (OESE x) h \<and> m = metaKey (ese_ObjectMeta x) \<and>
          (gone Mem KEndpointSlice (referenceKey x) h \<or>
           (\<exists>es. (Get Mem KEndpointSlice (referenceKey x), RObj (OES es)) \<in> set h \<and> uniqueNameOf es \<noteq> Some (om_Name (ese_ObjectMeta x)))))
      | _ \<Rightarrow> False)"

text \<open>Objects and answers for the examples.\<close>

definition demoSlice :: EndpointSlice where
  "demoSlice = \<lparr>es_TypeMeta = zeroType, es_ObjectMeta = (metaOf ''work'' ''app-s'')\<lparr>om_UID := ''u9'', om_Labels := Some [(LabelServiceName, ''app'')]\<rparr>,
     es_AddressType = AddressTypeIPv4,
     es_Endpoints = [\<lparr>de_Addresses = [''10.1.0.1''], de_Ready = Some False\<rparr>, \<lparr>de_Addresses = [''10.1.0.2''], de_Ready = None\<rparr>], es_Ports = []\<rparr>"

definition demoSliceKey :: NamespacedName where
  "demoSliceKey = \<lparr>nn_Namespace = ''work'', nn_Name = ''app-s''\<rparr>"

definition demoSliceNamed :: EndpointSlice where
  "demoSliceNamed = setAnnotations (Some [(ExportedObjectAnnotationUniqueName, ''c1-work-app-s-abcde'')]) demoSlice"

definition demoValidExport :: ServiceExport where
  "demoValidExport = \<lparr>se_ObjectMeta = metaOf ''work'' ''app'', se_Conditions =
     [\<lparr>c_Type = ServiceExportValid, c_Status = ConditionTrue, c_ObservedGeneration = 0, c_LastTransitionTime = None, c_Reason = [], c_Message = []\<rparr>,
      \<lparr>c_Type = ServiceExportConflict, c_Status = ConditionFalse, c_ObservedGeneration = 0, c_LastTransitionTime = None, c_Reason = [], c_Message = []\<rparr>]\<rparr>"

definition demoSliceAnswers :: "response list" where
  "demoSliceAnswers = [RTime 1700000000000000000, RObj (OES demoSlice), RObj (OSE demoValidExport), RStr ''abcdef-0123'',
     RObj (OES demoSliceNamed), RObj (OES demoSliceNamed), notFound, ROk]"

section \<open>Lemmas\<close>

lemma MES_guard_other [simp]:
  "MES_guard L ns h (Get cl kd m)" "MES_guard L ns h Now" "MES_guard L ns h NewUUID" "MES_guard L ns h (RandIntn k)"
  by (simp_all add: MES_guard_def)

lemma setAnnotations_simps [simp]:
  "uniqueNameOf (setAnnotations an es) = mget an ExportedObjectAnnotationUniqueName"
  "es_Endpoints (setAnnotations an es) = es_Endpoints es"
  "extractEndpointsFromEndpointSlice (setAnnotations an es) = extractEndpointsFromEndpointSlice es"
  "es_Ports (setAnnotations an es) = es_Ports es" "ownerReference (setAnnotations an es) = ownerReference es"
  "isEndpointSliceExportLinkedWithEndpointSlice x (setAnnotations an es) = isEndpointSliceExportLinkedWithEndpointSlice x es"
  "setAnnotations an (setAnnotations an' es) = setAnnotations an es"
  "esAnnotations (setAnnotations an es) = an"
  by (simp_all add: setAnnotations_def uniqueNameOf_def extractEndpointsFromEndpointSlice_def ownerReference_def
      isEndpointSliceExportLinkedWithEndpointSlice_def)

lemma extract_ready:
  "extractEndpointsFromEndpointSlice es = map (\<lambda>p. \<lparr>e_Addresses = de_Addresses p\<rparr>) (filter (\<lambda>p. de_Ready p \<noteq> Some False) (es_Endpoints es))"
proof -
  have "(de_Ready p = None \<or> de_Ready p = Some True) \<longleftrightarrow> de_Ready p \<noteq> Some False" for p :: DiscoveryEndpoint by (cases "de_Ready p") auto
  then show ?thesis unfolding extractEndpointsFromEndpointSlice_def by (simp only:)
qed

lemma mirrorsSlice_setAnnotations [simp]: "mirrorsSlice (setAnnotations an es) x = mirrorsSlice es x"
  by (simp add: mirrorsSlice_def)

lemma setAnnotations_same: "es = setAnnotations (esAnnotations es) es"
  by (simp add: setAnnotations_def)

lemma sliceExportable_mono [simp]: "sliceExportable L h es \<Longrightarrow> sliceExportable L (h @ k) es"
  unfolding sliceExportable_def by auto

lemma MES_fill_ok:
  assumes "MES_fill L c es t u x = (None, x')"
  shows "mirrorsSlice es x' \<and> ese_ObjectMeta x' = ese_ObjectMeta x"
  using assms by (auto simp: MES_fill_def Let_def mirrorsSlice_def isEndpointSliceExportLinkedWithEndpointSlice_def
      extract_ready UpdateFromMetaObject_identity split: if_splits)

lemma MES_fill_refused:
  assumes "MES_fill L c es t u x = (Some er, x')"
  shows "om_CreationTimestamp (ese_ObjectMeta x) \<noteq> None \<and> \<not> isEndpointSliceExportLinkedWithEndpointSlice x es"
  using assms by (auto simp: MES_fill_def Let_def isEndpointSliceExportLinkedWithEndpointSlice_def FromMetaObjects_def split: if_splits)

lemma kindOf_ESE: "kindOf x = KEndpointSliceExport \<longleftrightarrow> (\<exists>i. x = OESE i)"
  by (cases x) (simp_all add: kindOf_def)

lemma MES_upsert_wp:
  assumes "createOrUpdate_laws L" and "shown Mem (named u) h" and "sliceExportable L h es0" and "answered (OES es1) h" and "es = setAnnotations an es1"
  shows "wp (MES_guard L ns) (\<lambda>h' (er, _). \<forall>x. er = Some x \<and> IsAlreadyExists x \<longrightarrow> released L ns h' es)
    (LibCreateOrUpdate L Hub (OESE (newESE ns u)) (MES_mutate L c es t u)) h"
proof -
  have new: "om_Namespace (ese_ObjectMeta (newESE ns u)) = ns" "om_Name (ese_ObjectMeta (newESE ns u)) = u"
    "om_CreationTimestamp (ese_ObjectMeta (newESE ns u)) = None" "metaKey (ese_ObjectMeta (newESE ns u)) = sliceExportKey ns u"
    by (simp_all add: newESE_def metaOf_def zeroMeta_def metaKey_def sliceExportKey_def)
  have mir: "mirrorsSlice es1 x = mirrorsSlice es x" for x by (simp add: assms(5))
  have cr: "MES_guard L ns (h @ k) (Create Hub (OESE x))" if "MES_fill L c es t u (newESE ns u) = (None, x)" for k x
  proof -
    from MES_fill_ok [OF that] have "mirrorsSlice es1 x" "ese_ObjectMeta x = ese_ObjectMeta (newESE ns u)" by (simp_all add: mir)
    with shown_mono [OF assms(2), of k] sliceExportable_mono [OF assms(3), of k] answered_mono [OF assms(4), of k] new(1,2)
    show ?thesis by (auto simp: MES_guard_def)
  qed
  have up: "MES_guard L ns (h @ k) (Update Hub (OESE x))" if "MES_fill L c es t u x0 = (None, x)" for k x0 x
  proof -
    from MES_fill_ok [OF that] have "mirrorsSlice es1 x" by (simp add: mir)
    with sliceExportable_mono [OF assms(3), of k] answered_mono [OF assms(4), of k] show ?thesis by (auto simp: MES_guard_def)
  qed
  have said: "released L ns (h @ k @ [(q, a)]) es" if "decObj kd a = Inl x" "IsAlreadyExists x" for k q a kd x
  proof -
    from that have "a = RErr x" by (auto simp: decObj_def decodeErr_def IsAlreadyExists_def split: response.splits if_splits)
    with that(2) shown_mono [OF assms(2), of "k @ [(q, a)]"] show ?thesis
      unfolding released_def by (intro exI [of _ u] conjI disjI2 exI [of _ q] exI [of _ x]) simp_all
  qed
  have fresh: "False" if "MES_fill L c es t u (newESE ns u) = (Some er, x')" for er x'
    using MES_fill_refused [OF that] new(3) by simp
  have other: "released L ns (h @ [(Get Hub KEndpointSliceExport (sliceExportKey ns u), RObj (OESE x))]) es"
    if "MES_fill L c es t u x = (Some er, x')" for x er x'
    using MES_fill_refused [OF that] shown_mono [OF assms(2)] unfolding released_def
    by (intro exI [of _ u] conjI disjI2 disjI1 exI [of _ x]) simp_all
  have doc: "LibCreateOrUpdate L Hub x f = createOrUpdateDoc Hub x f" for x f
    using assms(1) by (simp add: createOrUpdate_laws_def)
  note said0 = said [of _ _ _ "[]", simplified]
  note said1 = said [of _ _ _ "[y]" for y, simplified]
  show ?thesis
    unfolding doc createOrUpdateDoc_def
    by (auto simp: prog_simps kindOf_ESE MES_mutate_def new(4) cr up other split: sum.splits prod.splits option.splits
        dest: fresh intro: said0 said1)
qed

lemma MES_export_wp:
  assumes "createOrUpdate_laws L" and "shown Mem (named u) h" and "sliceExportable L h es0" and "answered (OES es1) h" and "es = setAnnotations an es1"
  shows "wp (MES_guard L ns) (\<lambda>_ _. True) (MES_export L c ns es t u) h"
proof -
  have "MES_guard L ns h' (Update Mem (OES (setAnnotations an' es)))" if "released L ns h' es" for h' an'
  proof -
    have "released L ns h' (setAnnotations an' es)" using that by (simp add: released_def)
    then show ?thesis by (simp add: MES_guard_def)
  qed
  then show ?thesis
    unfolding MES_export_def
    by (intro wp_bindI [OF MES_upsert_wp [OF assms]]) (auto simp: prog_simps split: option.splits prod.splits)
qed

lemma MES_guard_annotate:
  assumes "answered (OES es) h"
  shows "MES_guard L ns h (Update Mem (OES (setAnnotations (mapPut MetricsAnnotationLastSeenTimestamp v (mapPut MetricsAnnotationLastSeenGeneration g (esAnnotations es))) es)))"
proof -
  have "ExportedObjectAnnotationUniqueName \<noteq> MetricsAnnotationLastSeenTimestamp" "ExportedObjectAnnotationUniqueName \<noteq> MetricsAnnotationLastSeenGeneration"
    by (simp_all add: ExportedObjectAnnotationUniqueName_def fleetNetworkingPrefix_def MetricsAnnotationLastSeenTimestamp_def
        MetricsAnnotationLastSeenGeneration_def)
  then show ?thesis using assms by (cases "uniqueNameOf es") (auto simp: MES_guard_def uniqueNameOf_def)
qed

lemma MES_collectAndExport_wp:
  assumes "createOrUpdate_laws L" and "shown Mem (named u) h" and "sliceExportable L h es0" and "answered (OES es) h"
  shows "wp (MES_guard L ns) (\<lambda>_ _. True) (MES_collectAndExport L c ns t u es) h"
proof -
  have export: "wp (MES_guard L ns) (\<lambda>_ _. True) (MES_export L c ns es' t' u) (h @ k)"
    if "answered (OES es1) (h @ k)" "es' = setAnnotations an es1" for es' es1 an t' k
    by (rule MES_export_wp [OF assms(1) shown_mono [OF assms(2)] sliceExportable_mono [OF assms(3)] that])
  have e0: "wp (MES_guard L ns) (\<lambda>_ _. True) (MES_export L c ns es t' u) h" for t'
    using export [of es "[]" es, OF _ setAnnotations_same] assms(4) by simp
  have e1: "wp (MES_guard L ns) (\<lambda>_ _. True) (MES_export L c ns es' t' u) (h @ [(q, RObj (OES es'))])" for es' t' q
    by (rule export [OF _ setAnnotations_same]) simp
  have e2: "wp (MES_guard L ns) (\<lambda>_ _. True) (MES_export L c ns (setAnnotations an es) t' u) (h @ [x])" for an t' x
    by (rule export [OF _ refl]) (simp add: assms)
  show ?thesis
    by (auto simp: MES_collectAndExport_def MES_collectAndVerifyLastSeenGenerationAndTimestamp_def MES_annotateLastSeenGenerationAndTimestamp_def
        prog_simps decUpd_def MES_guard_annotate [OF assms(4)] split: option.splits sum.splits intro!: e0 e1 e2)
qed

lemma MES_assignAndExport_wp:
  assumes "createOrUpdate_laws L" and "sliceExportable L h es0"
  shows "wp (MES_guard L ns) (\<lambda>_ _. True) (MES_assignAndExport L c ns t es) h"
proof -
  let ?set = "\<lambda>u. setAnnotations (mapPut ExportedObjectAnnotationUniqueName u (esAnnotations es)) es"
  have upd: "MES_guard L ns h' (Update Mem (OES (?set u)))" for h' u by (simp add: MES_guard_def)
  have go: "wp (MES_guard L ns) (\<lambda>_ _. True) (MES_collectAndExport L c ns t u es') (h @ k @ [(Update Mem (OES (?set u)), RObj (OES es'))])" for k u es'
    by (rule MES_collectAndExport_wp [OF assms(1) shown_update [where x = "OES (?set u)" and y = "OES es'"] sliceExportable_mono [OF assms(2)]])
      (auto simp: named_def answered_def)
  have wr: "wp (MES_guard L ns) (\<lambda>_ _. True) (bindP (doUpdate Mem OES decES (?set u)) (\<lambda>(er, es').
      case er of Some x \<Rightarrow> Ret (emptyResult, Some x) | None \<Rightarrow> MES_collectAndExport L c ns t u es')) (h @ k)" for u k
    by (auto simp: prog_simps decUpd_def upd go split: sum.splits)
  have rand: "wp (MES_guard L ns) (\<lambda>h' _. \<exists>k. h' = h @ k) (RandomLowerCaseAlphabeticString m) (h @ k)" for m k
    unfolding RandomLowerCaseAlphabeticString_def by (auto intro!: wp_conseq [OF wp_ext [OF randomLetters_wp [where G = "MES_guard L ns"]]])
  have uniq: "wp (MES_guard L ns) (\<lambda>h' _. \<exists>k. h' = h @ k) (FleetScopedUniqueName L f a b d) h" for f a b d
    by (rule wp_conseq [OF wp_ext [OF FleetScoped_wp]]) auto
  show ?thesis
    unfolding MES_assignAndExport_def MES_assignUniqueNameAsAnnotation_def bindP_assoc
    by (rule wp_bindI [OF uniq]) (auto split: sum.splits intro!: wp_bindI [OF rand] intro: wr)
qed

lemma MES_unexport_wp:
  assumes "sliceUnwanted L h es" and "(Get Mem KEndpointSlice n, RObj (OES es)) \<in> set h" and "uniqueNameOf es = Some u"
  shows "wp (MES_guard L ns) (\<lambda>_ _. True) (MES_unexportEndpointSlice L ns es) h"
proof -
  have u: "mgets (esAnnotations es) ExportedObjectAnnotationUniqueName = u" using assms(3) by (simp add: uniqueNameOf_def mgets_def)
  have sh: "shown Mem (named u) (h @ k)" for k
    by (rule shown_get [of _ "OES es" _ n]) (use assms in \<open>simp_all add: named_def\<close>)
  have upd: "MES_guard L ns (h @ k) (Update Mem (OES (setAnnotations an es)))" if "released L ns (h @ k) es" for k an
  proof -
    have "released L ns (h @ k) (setAnnotations an es)" using that by (simp add: released_def)
    then show ?thesis by (simp add: MES_guard_def)
  qed
  have invalid: "released L ns h es" if "\<not> isUniqueNameValid L u"
    using that sh [of "[]"] unfolding released_def by auto
  have nf: "released L ns (h @ [(Get Hub KEndpointSliceExport (sliceExportKey ns u), a)]) es" if "decESE a = Inl x" "IsNotFound x" for a x
  proof -
    from that have "a = RErr x" by (auto simp: decESE_def IsNotFound_def decodeErr_def split: response.splits kobj.splits)
    with that(2) have "gone Hub KEndpointSliceExport (sliceExportKey ns u) (h @ [(Get Hub KEndpointSliceExport (sliceExportKey ns u), a)])"
      by (auto intro: gone_get)
    with sh [of "[(Get Hub KEndpointSliceExport (sliceExportKey ns u), a)]"] show ?thesis unfolding released_def by auto
  qed
  let ?got = "\<lambda>x. (Get Hub KEndpointSliceExport (sliceExportKey ns u), RObj (OESE x))"
  have foreign: "released L ns (h @ [?got x]) es" if "\<not> isEndpointSliceExportLinkedWithEndpointSlice x es" for x
    using that sh [of "[?got x]"] unfolding released_def by auto
  have del: "MES_guard L ns (h @ [?got x]) (Delete Hub KEndpointSliceExport (metaKey (ese_ObjectMeta x)))"
    if "isEndpointSliceExportLinkedWithEndpointSlice x es" for x
  proof -
    have "sliceUnwanted L (h @ [?got x]) es" using assms(1) by (auto simp: sliceUnwanted_def split: option.splits)
    moreover have "answered (OES es) (h @ [?got x])" using assms(2) by (auto simp: answered_def)
    ultimately show ?thesis using that assms(3) by (auto simp: MES_guard_def)
  qed
  have deleted: "released L ns (h @ [?got x, (Delete Hub KEndpointSliceExport (metaKey (ese_ObjectMeta x)), a)]) es" if "deletedBy a" for x a
  proof -
    have "gone Hub KEndpointSliceExport (metaKey (ese_ObjectMeta x)) (h @ [?got x, (Delete Hub KEndpointSliceExport (metaKey (ese_ObjectMeta x)), a)])"
      using that by (auto intro: gone_delete)
    then show ?thesis
      using sh [of "[?got x, (Delete Hub KEndpointSliceExport (metaKey (ese_ObjectMeta x)), a)]"] unfolding released_def by auto
  qed
  note upd0 = upd [of "[]", simplified]
  show ?thesis
    by (auto simp: MES_unexportEndpointSlice_def MES_deleteEndpointSliceExportIfLinked_def Let_def u sliceExportKey_def [symmetric] prog_simps del
        deletedBy_def decUpd_def split: option.splits sum.splits intro!: upd upd0 invalid foreign nf deleted)
qed

lemma MES_Reconcile_wp:
  assumes "createOrUpdate_laws L"
  shows "wp (MES_guard L ns) (\<lambda>_ _. True) (MES_Reconcile L c ns n) []"
proof -
  let ?g = "\<lambda>a es. [(Now, a), (Get Mem KEndpointSlice n, RObj (OES es))]"
  let ?G = "MES_guard L ns"
  have un: "wp ?G (\<lambda>_ _. True) (bindP (MES_unexportEndpointSlice L ns es) (\<lambda>uer. Ret (emptyResult, uer))) (?g a es @ k)"
    if "sliceUnwanted L (?g a es @ k) es" "uniqueNameOf es = Some u" for a es u k
    by (rule wp_bindI [OF MES_unexport_wp [where n = n, OF that(1) _ that(2)]]) simp_all
  have keep: "wp ?G (\<lambda>_ _. True) (MES_collectAndExport L c ns t u es) (?g a es @ k)"
    if "sliceExportable L (?g a es @ k) es" "uniqueNameOf es = Some u" for a es u k t
    by (rule MES_collectAndExport_wp [OF assms shown_get [of _ "OES es" _ n] that(1)]) (use that(2) in \<open>auto simp: named_def answered_def\<close>)
  have decide: "wp ?G (\<lambda>h' (todo, er). \<exists>k. h' = ?g a es @ k \<and> (er = None \<longrightarrow>
      (todo = shouldUnexportEndpointSliceOp \<longrightarrow> sliceUnwanted L h' es \<and> uniqueNameOf es \<noteq> None) \<and>
      (todo = continueReconcileOp \<longrightarrow> sliceExportable L h' es))) (MES_shouldSkipOrUnexportEndpointSlice L es) (?g a es)" for a es
  proof -
    have nf: "b = RErr er" if "decSE b = Inl er" "IsNotFound er" for b er
      using that by (auto simp: decSE_def IsNotFound_def decodeErr_def split: response.splits kobj.splits)
    show ?thesis
      by (auto simp: MES_shouldSkipOrUnexportEndpointSlice_def prog_simps withdrawOp_def sliceUnwanted_def sliceExportable_def
          isEndpointSlicePermanentlyUnexportable_def serviceKey_def answered_def dest!: nf intro: gone_get split: option.splits sum.splits)
  qed
  show ?thesis
    unfolding MES_Reconcile_def
    by (auto simp: prog_simps split: sum.splits intro!: wp_bindI [OF decide])
      (auto split: option.splits skipOrUnexportEndpointSliceOp.splits intro!: un [simplified] keep [simplified] MES_assignAndExport_wp [OF assms])
qed

lemma MEE_Reconcile_wp: "wp MEE_guard (\<lambda>_ _. True) (MEE_Reconcile n) []"
proof -
  have nf: "b = RErr er" if "decES b = Inl er" "IsNotFound er" for b er
    using that by (auto simp: decES_def IsNotFound_def decodeErr_def split: response.splits kobj.splits)
  show ?thesis
    by (auto simp: MEE_Reconcile_def MEE_deleteEndpointSliceExport_def prog_simps MEE_guard_def answered_def uniqueNameOf_def
        MEE_isEndpointSliceExportLinkedWithEndpointSlice_def gone_def dest!: nf split: sum.splits option.splits)
qed

section \<open>Properties\<close>

text \<open>C8. The export protocol of endpoint slices: for all answers and at every point where the process may
  stop, an EndpointSliceExport is created or updated in the hub only for a live IPv4 slice of a service
  whose ServiceExport was read as valid, without conflict and not being deleted; a new one is named with
  the unique name that is on record as the annotation of the slice; the object written has just the ready
  endpoints, the ports, the owner service and the UID of a slice that was read; an export is deleted only
  if it is linked with the slice and there is a reason to withdraw it; and the annotation is removed only
  when the hub has no export of that name for the slice.\<close>

theorem MES_export_protocol:
  assumes "createOrUpdate_laws L" and "steps (MES_Reconcile L c ns n) tr p"
  shows "guarded (MES_guard L ns) [] tr"
  by (rule wp_guarded [OF assms(2) MES_Reconcile_wp [OF assms(1)]])

theorem MES_export_protocol_witness:
  "guarded (MES_guard refLib ''fleet-member-c1'') [] (fst (play demoSliceAnswers (MES_Reconcile refLib ''c1'' ''fleet-member-c1'' demoSliceKey))) \<and>
   last (map fst (fst (play demoSliceAnswers (MES_Reconcile refLib ''c1'' ''fleet-member-c1'' demoSliceKey)))) =
     Create Hub (OESE (snd (MES_fill refLib ''c1'' demoSliceNamed 1700000000000000000 ''c1-work-app-s-abcde'' (newESE ''fleet-member-c1'' ''c1-work-app-s-abcde''))))"
proof -
  let ?p = "MES_Reconcile refLib ''c1'' ''fleet-member-c1'' demoSliceKey"
  have "steps ?p (fst (play demoSliceAnswers ?p)) (snd (play demoSliceAnswers ?p))" by (rule play_trace_steps) simp
  from MES_export_protocol [OF refLib_createOrUpdate_laws this]
  show ?thesis by (rule conjI) code_simp
qed

text \<open>C28. The clean-up of exports: the EndpointSliceExport controller deletes an export of the hub only when
  the endpoint slice that it refers to was not found in the member cluster, or was found with another
  unique name or none; it writes nothing else.\<close>

theorem MEE_deletes_unclaimed:
  assumes "steps (MEE_Reconcile n) tr p"
  shows "guarded MEE_guard [] tr"
  by (rule wp_guarded [OF assms MEE_Reconcile_wp])

theorem MEE_deletes_unclaimed_witness:
  "guarded MEE_guard [] (fst (play [RObj (OESE (newESE ''fleet-member-c1'' ''old'')), RObj (OES demoSliceNamed), ROk]
      (MEE_Reconcile (sliceExportKey ''fleet-member-c1'' ''old'')))) \<and>
   map fst (drop 2 (fst (play [RObj (OESE (newESE ''fleet-member-c1'' ''old'')), RObj (OES demoSliceNamed), ROk]
      (MEE_Reconcile (sliceExportKey ''fleet-member-c1'' ''old''))))) = [Delete Hub KEndpointSliceExport (sliceExportKey ''fleet-member-c1'' ''old'')]"
proof -
  let ?as = "[RObj (OESE (newESE ''fleet-member-c1'' ''old'')), RObj (OES demoSliceNamed), ROk]"
  let ?p = "MEE_Reconcile (sliceExportKey ''fleet-member-c1'' ''old'')"
  have "steps ?p (fst (play ?as ?p)) (snd (play ?as ?p))" by (rule play_trace_steps) simp
  from MEE_deletes_unclaimed [OF this] show ?thesis by (rule conjI) code_simp
qed

end
