(* ===== verification/Member_EndpointSliceImport.thy ===== *)
theory Member_EndpointSliceImport
  imports Member_EndpointSlice
begin

text \<open>
  The EndpointSliceImport controller of a member cluster
  (\<open>pkg/controllers/member/endpointsliceimport/controller.go\<close>): it makes the endpoint slices that the hub
  distributes into endpoint slices of the service that a MultiClusterService has derived.
\<close>

section \<open>The model\<close>

definition controllerID :: string where
  "controllerID = ''endpointsliceimport-controller.networking.fleet.azure.com''"

definition endpointSliceImportCleanupFinalizer :: string where
  "endpointSliceImportCleanupFinalizer = ''networking.fleet.azure.com/endpointsliceimport-cleanup''"

definition mcsServiceImportRefFieldKey :: string where
  "mcsServiceImportRefFieldKey = ''.spec.serviceImport.name''"

definition endpointSliceImportRetryInterval :: int where
  "endpointSliceImportRetryInterval = seconds 2"

definition endpointSliceExportImportDuration :: string where
  "endpointSliceExportImportDuration = ''fleet_networking_endpointslice_export_import_duration_milliseconds''"

definition LabelManagedBy :: string where
  "LabelManagedBy = ''endpointslice.kubernetes.io/managed-by''"

text \<open>The index of MultiClusterServices by the service that they import.\<close>

definition MEI_indexerFunc :: "kobj \<Rightarrow> string list" where
  "MEI_indexerFunc x = (case x of OMCS m \<Rightarrow> [mcs_ServiceImport m] | _ \<Rightarrow> [])"

definition scanForDerivedServiceName :: "MultiClusterService list \<Rightarrow> string" where
  "scanForDerivedServiceName ms =
     (case find (\<lambda>m. om_DeletionTimestamp (mcs_ObjectMeta m) = None \<and>
                      mget (om_Labels (mcs_ObjectMeta m)) MultiClusterServiceLabelDerivedService \<noteq> None) ms of
        None \<Rightarrow> []
      | Some m \<Rightarrow> mgets (om_Labels (mcs_ObjectMeta m)) MultiClusterServiceLabelDerivedService)"

definition MEI_isDerivedServiceValid :: "Lib \<Rightarrow> string \<Rightarrow> string \<Rightarrow> (bool \<times> err option) op" where
  "MEI_isDerivedServiceValid L fleetSystemNamespace derivedSvcName =
     (if LibIsDNS1035Label L derivedSvcName \<noteq> [] then Ret (False, None)
      else bindP (getSVC Mem \<lparr>nn_Namespace = fleetSystemNamespace, nn_Name = derivedSvcName\<rparr>) (\<lambda>g.
        case g of
          Inl x \<Rightarrow> Ret (False, IgnoreNotFound x)
        | Inr svc \<Rightarrow> Ret (om_DeletionTimestamp (svc_ObjectMeta svc) = None, None)))"

definition formatEndpointSliceFromImport :: "EndpointSlice \<Rightarrow> string \<Rightarrow> EndpointSliceImport \<Rightarrow> EndpointSlice" where
  "formatEndpointSliceFromImport es derivedSvcName i =
     es\<lparr>es_AddressType := eses_AddressType (esi_Spec i),
        es_ObjectMeta := (es_ObjectMeta es)\<lparr>om_Labels := Some [(LabelServiceName, derivedSvcName), (LabelManagedBy, controllerID)]\<rparr>,
        es_Ports := eses_Ports (esi_Spec i),
        es_Endpoints := map (\<lambda>p. \<lparr>de_Addresses = e_Addresses p, de_Ready = None\<rparr>) (eses_Endpoints (esi_Spec i))\<rparr>"

definition newES :: "string \<Rightarrow> string \<Rightarrow> EndpointSlice" where
  "newES ns nm = \<lparr>es_TypeMeta = zeroType, es_ObjectMeta = metaOf ns nm, es_AddressType = [], es_Endpoints = [], es_Ports = []\<rparr>"

definition MEI_mutate :: "string \<Rightarrow> EndpointSliceImport \<Rightarrow> kobj \<Rightarrow> (err option \<times> kobj) op" where
  "MEI_mutate derivedSvcName i x =
     Ret (None, case x of OES es \<Rightarrow> OES (formatEndpointSliceFromImport es derivedSvcName i) | _ \<Rightarrow> x)"

definition MEI_unimportEndpointSlice :: "Lib \<Rightarrow> string \<Rightarrow> EndpointSliceImport \<Rightarrow> err option op" where
  "MEI_unimportEndpointSlice L fleetSystemNamespace i =
     (if \<not> LibContainsFinalizer L (esi_ObjectMeta i) endpointSliceImportCleanupFinalizer then Ret None
      else bindP (deleteObj Mem KEndpointSlice \<lparr>nn_Namespace = fleetSystemNamespace, nn_Name = om_Name (esi_ObjectMeta i)\<rparr>) (\<lambda>der.
        if (case der of None \<Rightarrow> False | Some x \<Rightarrow> \<not> IsNotFound x) then Ret der
        else bindP (doUpdate Hub OESI decESI (i\<lparr>esi_ObjectMeta := LibRemoveFinalizer L (esi_ObjectMeta i) endpointSliceImportCleanupFinalizer\<rparr>))
          (\<lambda>(er, _). Ret er)))"

definition MEI_addEndpointSliceImportCleanupFinalizer :: "Lib \<Rightarrow> EndpointSliceImport \<Rightarrow> (err option \<times> EndpointSliceImport) op" where
  "MEI_addEndpointSliceImportCleanupFinalizer L i =
     (if \<not> LibContainsFinalizer L (esi_ObjectMeta i) endpointSliceImportCleanupFinalizer then
        doUpdate Hub OESI decESI (i\<lparr>esi_ObjectMeta := LibAddFinalizer L (esi_ObjectMeta i) endpointSliceImportCleanupFinalizer\<rparr>)
      else Ret (None, i))"

definition currentGeneration :: "EndpointSliceImport \<Rightarrow> string" where
  "currentGeneration i = FormatInt (eor_Generation (eses_EndpointSliceReference (esi_Spec i)))"

definition observedGeneration :: "EndpointSliceImport \<Rightarrow> string option" where
  "observedGeneration i = mget (om_Annotations (esi_ObjectMeta i)) MetricsAnnotationLastObservedGeneration"

definition MEI_annotated :: "EndpointSliceImport \<Rightarrow> EndpointSliceImport" where
  "MEI_annotated i = i\<lparr>esi_ObjectMeta := (esi_ObjectMeta i)\<lparr>om_Annotations :=
     mapPut MetricsAnnotationLastObservedGeneration (currentGeneration i) (om_Annotations (esi_ObjectMeta i))\<rparr>\<rparr>"

definition MEI_observeMetrics :: "string \<Rightarrow> EndpointSliceImport \<Rightarrow> time \<Rightarrow> err option op" where
  "MEI_observeMetrics memberClusterID i startTime =
     (let isFirstImport = (observedGeneration i = None) in
      if observedGeneration i = Some (currentGeneration i) then Ret None
      else bindP (doUpdate Hub OESI decESI (MEI_annotated i)) (\<lambda>(er, i1).
        case er of
          Some x \<Rightarrow> Ret (Some x)
        | None \<Rightarrow>
            let ref = eses_EndpointSliceReference (esi_Spec i1) in
            (case eor_ExportedSince ref of
               None \<Rightarrow> Ret None
             | Some since \<Rightarrow>
                 bindP (call (MetricObserve endpointSliceExportImportDuration
                          [eor_ClusterID ref, memberClusterID, if isFirstImport then ''true'' else ''false'']
                          (durationMillis startTime since)) (\<lambda>_. ()))
                   (\<lambda>_. Ret None))))"

definition MEI_import :: "Lib \<Rightarrow> string \<Rightarrow> string \<Rightarrow> string \<Rightarrow> EndpointSliceImport \<Rightarrow> outcome op" where
  "MEI_import L memberClusterID fleetSystemNamespace derivedSvcName i =
     bindP (LibCreateOrUpdate L Mem (OES (newES fleetSystemNamespace (om_Name (esi_ObjectMeta i)))) (MEI_mutate derivedSvcName i)) (\<lambda>(er, _).
       case er of
         Some x \<Rightarrow> Ret (emptyResult, Some x)
       | None \<Rightarrow> bindP timeNow (\<lambda>now. bindP (MEI_observeMetrics memberClusterID i now) (\<lambda>mer. Ret (emptyResult, mer))))"

definition importersOf :: "EndpointSliceImport \<Rightarrow> selector" where
  "importersOf i = (let o1 = eses_OwnerServiceReference (esi_Spec i) in
     \<lparr>sel_Namespace = Some (osr_Namespace o1), sel_Field = Some (mcsServiceImportRefFieldKey, osr_Name o1), sel_Label = None\<rparr>)"

definition MEI_Reconcile :: "Lib \<Rightarrow> string \<Rightarrow> string \<Rightarrow> NamespacedName \<Rightarrow> outcome op" where
  "MEI_Reconcile L memberClusterID fleetSystemNamespace req =
     bindP (getESI Hub req) (\<lambda>g.
       case g of
         Inl x \<Rightarrow> if IsNotFound x then Ret (emptyResult, None) else Ret (emptyResult, Some x)
       | Inr i \<Rightarrow>
           if om_DeletionTimestamp (esi_ObjectMeta i) \<noteq> None then
             bindP (MEI_unimportEndpointSlice L fleetSystemNamespace i) (\<lambda>er. Ret (emptyResult, er))
           else
             bindP (doList Mem KMultiClusterService decMCS (importersOf i)) (\<lambda>l.
               case l of
                 Inl x \<Rightarrow> Ret (emptyResult, Some x)
               | Inr ms \<Rightarrow>
                   if ms = [] then Ret (emptyResult, None)
                   else
                     let derivedSvcName = scanForDerivedServiceName ms in
                     bindP (MEI_isDerivedServiceValid L fleetSystemNamespace derivedSvcName) (\<lambda>(isValid, er).
                       case er of
                         Some x \<Rightarrow> Ret (emptyResult, Some x)
                       | None \<Rightarrow>
                           if \<not> isValid then Ret (requeueAfter endpointSliceImportRetryInterval, None)
                           else
                             bindP (MEI_addEndpointSliceImportCleanupFinalizer L i) (\<lambda>(aer, i1).
                               case aer of
                                 Some x \<Rightarrow> Ret (emptyResult, Some x)
                               | None \<Rightarrow> MEI_import L memberClusterID fleetSystemNamespace derivedSvcName i1))))"

section \<open>What is said of the controller\<close>

text \<open>The empty string is not a DNS label.\<close>

definition label_laws :: "Lib \<Rightarrow> bool" where
  "label_laws L \<longleftrightarrow> LibIsDNS1035Label L [] \<noteq> []"

definition hasESIFinalizer :: "kobj \<Rightarrow> bool" where
  "hasESIFinalizer x = (case x of OESI i \<Rightarrow> endpointSliceImportCleanupFinalizer \<in> set (om_Finalizers (esi_ObjectMeta i)) | _ \<Rightarrow> False)"

definition importedKey :: "string \<Rightarrow> EndpointSliceImport \<Rightarrow> NamespacedName" where
  "importedKey ns i = \<lparr>nn_Namespace = ns, nn_Name = om_Name (esi_ObjectMeta i)\<rparr>"

text \<open>
  A service that a live MultiClusterService among those that import the service of the endpoint slice
  has derived, and that was read alive in the reserved namespace.
\<close>

definition derivedService :: "string \<Rightarrow> trace \<Rightarrow> string \<Rightarrow> bool" where
  "derivedService ns h d \<longleftrightarrow>
     (\<exists>i ms m svc. answered (OESI i) h \<and> listed Mem KMultiClusterService (importersOf i) (map OMCS ms) h \<and> m \<in> set ms \<and>
        om_DeletionTimestamp (mcs_ObjectMeta m) = None \<and> mget (om_Labels (mcs_ObjectMeta m)) MultiClusterServiceLabelDerivedService = Some d \<and>
        (Get Mem KService \<lparr>nn_Namespace = ns, nn_Name = d\<rparr>, RObj (OSVC svc)) \<in> set h \<and> om_DeletionTimestamp (svc_ObjectMeta svc) = None)"

text \<open>
  The endpoint slice has what the import has: its address type, its ports, and for each of its endpoints, in
  this order, one with the same addresses and no condition; and it is labelled for the service \<open>d\<close> and as managed by
  this controller, with no other label.
\<close>

definition carriesImport :: "string \<Rightarrow> EndpointSliceImport \<Rightarrow> EndpointSlice \<Rightarrow> bool" where
  "carriesImport d i es \<longleftrightarrow>
     es_AddressType es = eses_AddressType (esi_Spec i) \<and> es_Ports es = eses_Ports (esi_Spec i) \<and>
     map de_Addresses (es_Endpoints es) = map e_Addresses (eses_Endpoints (esi_Spec i)) \<and>
     (\<forall>p \<in> set (es_Endpoints es). de_Ready p = None) \<and>
     (\<forall>l. mget (om_Labels (es_ObjectMeta es)) l =
        (if l = ''kubernetes.io/service-name'' then Some d
         else if l = ''endpointslice.kubernetes.io/managed-by'' then Some ''endpointsliceimport-controller.networking.fleet.azure.com''
         else None))"

text \<open>The endpoint slice carries an import that was read, for such a service.\<close>

definition importsSlice :: "string \<Rightarrow> trace \<Rightarrow> EndpointSliceImport \<Rightarrow> EndpointSlice \<Rightarrow> bool" where
  "importsSlice ns h i es \<longleftrightarrow> (\<exists>d. derivedService ns h d \<and> answered (OESI i) h \<and> carriesImport d i es)"

definition unmeasured :: "trace \<Rightarrow> bool" where
  "unmeasured h \<longleftrightarrow> (\<forall>m ls v a. (MetricObserve m ls v, a) \<notin> set h)"

definition MEI_guard :: "string \<Rightarrow> trace \<Rightarrow> request \<Rightarrow> bool" where
  "MEI_guard ns h q \<longleftrightarrow>
     (case q of
        Create cl x \<Rightarrow> cl = Mem \<and> shown Hub hasESIFinalizer h \<and> 
          (\<exists>es i. x = OES es \<and> metaKey (es_ObjectMeta es) = importedKey ns i \<and> importsSlice ns h i es)
      | Update cl x \<Rightarrow>
          (case x of
             OES es \<Rightarrow> cl = Mem \<and> shown Hub hasESIFinalizer h \<and> (\<exists>i. importsSlice ns h i es)
           | OESI i \<Rightarrow> cl = Hub \<and> (hasESIFinalizer x \<or> gone Mem KEndpointSlice (importedKey ns i) h \<or>
               (\<exists>i0. answered (OESI i0) h \<and> om_Finalizers (esi_ObjectMeta i) = om_Finalizers (esi_ObjectMeta i0)))
           | _ \<Rightarrow> False)
      | Delete cl kd m \<Rightarrow> cl = Mem \<and> kd = KEndpointSlice \<and>
          (\<exists>i. answered (OESI i) h \<and> om_DeletionTimestamp (esi_ObjectMeta i) \<noteq> None \<and> hasESIFinalizer (OESI i) \<and> m = importedKey ns i)
      | StatusUpdate cl x \<Rightarrow> False
      | MetricObserve m ls v \<Rightarrow> 0 < v \<and> v \<le> ExportDurationRightBound \<and> unmeasured h \<and>
          (\<exists>i y. (Update Hub (OESI i), RObj (OESI y)) \<in> set h \<and> observedGeneration i = Some (currentGeneration i))
      | _ \<Rightarrow> True)"

text \<open>Objects and answers for the examples.\<close>

definition demoSliceImport :: EndpointSliceImport where
  "demoSliceImport = \<lparr>esi_ObjectMeta = (metaOf ''fleet-member-c2'' ''c1-work-app-s-abcde'')\<lparr>om_Finalizers := [endpointSliceImportCleanupFinalizer]\<rparr>,
     esi_Spec = (ese_Spec (snd (MES_fill refLib ''c1'' demoSliceNamed 1700000000000000000 ''c1-work-app-s-abcde'' (newESE [] []))))\<rparr>"

definition demoMcs :: MultiClusterService where
  "demoMcs = \<lparr>mcs_TypeMeta = zeroType, mcs_ObjectMeta = (metaOf ''work'' ''app-mcs'')\<lparr>om_Labels := Some [(MultiClusterServiceLabelDerivedService, ''work-app-mcs'')]\<rparr>,
     mcs_ServiceImport = ''app'', mcs_LoadBalancer = [], mcs_Conditions = []\<rparr>"

definition demoDerived :: Service where
  "demoDerived = \<lparr>svc_TypeMeta = zeroType, svc_ObjectMeta = metaOf ''fleet-system'' ''work-app-mcs'', svc_Type = ''LoadBalancer'',
     svc_ClusterIP = [], svc_Ports = [], svc_LoadBalancer = []\<rparr>"

definition demoSliceImportAnswers :: "response list" where
  "demoSliceImportAnswers = [RObj (OESI demoSliceImport), RObjs [OMCS demoMcs], RObj (OSVC demoDerived), notFound, RObj (OES (newES [] [])),
     RTime 1700000007000000000, RObj (OESI demoSliceImport), ROk]"

section \<open>Lemmas\<close>

lemma MEI_guard_other [simp]:
  "MEI_guard ns h (Get cl kd m)" "MEI_guard ns h (ListObjs cl kd sel)" "MEI_guard ns h Now"
  by (simp_all add: MEI_guard_def)

lemma refLib_label_laws: "label_laws refLib"
  by (simp add: label_laws_def refLib_def refLabelErrs_def)

lemma scan_found:
  assumes "scanForDerivedServiceName ms = d" and "d \<noteq> []"
  shows "\<exists>m \<in> set ms. om_DeletionTimestamp (mcs_ObjectMeta m) = None \<and> mget (om_Labels (mcs_ObjectMeta m)) MultiClusterServiceLabelDerivedService = Some d"
  using assms unfolding scanForDerivedServiceName_def
  by (auto simp: find_Some_iff mgets_def split: option.splits)

lemma derivedService_mono [simp]: "derivedService ns h d \<Longrightarrow> derivedService ns (h @ k) d"
  unfolding derivedService_def set_append by (blast intro: answered_mono listed_mono)

lemma kindOf_ES: "kindOf x = KEndpointSlice \<longleftrightarrow> (\<exists>i. x = OES i)"
  by (cases x) (simp_all add: kindOf_def)

lemma observedGeneration_annotated [simp]:
  "observedGeneration (MEI_annotated i) = Some (currentGeneration i)" "currentGeneration (MEI_annotated i) = currentGeneration i"
  "om_Finalizers (esi_ObjectMeta (MEI_annotated i)) = om_Finalizers (esi_ObjectMeta i)"
  by (simp_all add: observedGeneration_def MEI_annotated_def currentGeneration_def)

lemma MEI_observe_wp:
  assumes "answered (OESI i) h" and "unmeasured h"
  shows "wp (MEI_guard ns) (\<lambda>_ _. True) (MEI_observeMetrics c i t) h"
proof -
  have up: "MEI_guard ns h (Update Hub (OESI (MEI_annotated i)))" using assms(1) by (auto simp: MEI_guard_def)
  have ob: "MEI_guard ns (h @ [(Update Hub (OESI (MEI_annotated i)), RObj (OESI y))]) (MetricObserve m ls (durationMillis t u))" for y m ls u
  proof -
    have "\<exists>i' y'. (Update Hub (OESI i'), RObj (OESI y')) \<in> set (h @ [(Update Hub (OESI (MEI_annotated i)), RObj (OESI y))]) \<and>
        observedGeneration i' = Some (currentGeneration i')"
      by (intro exI [of _ "MEI_annotated i"] exI [of _ y]) simp
    then show ?thesis
      using assms(2) durationMillis_bounds [of t u] unfolding MEI_guard_def unmeasured_def request.case by simp
  qed
  show ?thesis
    by (auto simp: MEI_observeMetrics_def Let_def prog_simps up decUpd_def intro!: ob split: sum.splits option.splits)
qed

lemma format_carriesImport: "carriesImport d i (formatEndpointSliceFromImport es d i)"
  by (simp add: carriesImport_def formatEndpointSliceFromImport_def LabelServiceName_def LabelManagedBy_def controllerID_def)

lemma MEI_import_wp:
  assumes "createOrUpdate_laws L" and "shown Hub hasESIFinalizer h" and "derivedService ns h d" and "answered (OESI i) h" and "unmeasured h"
  shows "wp (MEI_guard ns) (\<lambda>_ _. True) (MEI_import L c ns d i) h"
proof -
  let ?new = "newES ns (om_Name (esi_ObjectMeta i))"
  have im: "importsSlice ns (h @ k) i (formatEndpointSliceFromImport es d i)" for k es
    using derivedService_mono [OF assms(3), of k] answered_mono [OF assms(4), of k] format_carriesImport [of d i es]
    unfolding importsSlice_def by blast
  have key: "metaKey (es_ObjectMeta (formatEndpointSliceFromImport ?new d i)) = importedKey ns i"
    by (simp add: formatEndpointSliceFromImport_def newES_def metaOf_def metaKey_def importedKey_def)
  have cr: "MEI_guard ns (h @ k) (Create Mem (OES (formatEndpointSliceFromImport ?new d i)))" for k
    using im [of k ?new] key shown_mono [OF assms(2), of k] by (auto simp: MEI_guard_def)
  have up: "MEI_guard ns (h @ k) (Update Mem (OES (formatEndpointSliceFromImport es d i)))" for k es
    using im [of k es] shown_mono [OF assms(2), of k] by (auto simp: MEI_guard_def)
  have um: "unmeasured (h @ k)" if "\<forall>x \<in> set k. \<forall>m ls v. fst x \<noteq> MetricObserve m ls v" for k
    using assms(5) that unfolding unmeasured_def by fastforce
  have ob: "wp (MEI_guard ns) (\<lambda>_ _. True) (MEI_observeMetrics c i t) (h @ k)" if "\<forall>x \<in> set k. \<forall>m ls v. fst x \<noteq> MetricObserve m ls v" for k t
    by (rule MEI_observe_wp) (use assms(4) um [OF that] in simp_all)
  have doc: "LibCreateOrUpdate L Mem x f = createOrUpdateDoc Mem x f" for x f
    using assms(1) by (simp add: createOrUpdate_laws_def)
  show ?thesis
    unfolding MEI_import_def doc createOrUpdateDoc_def
    by (auto simp: prog_simps MEI_mutate_def kindOf_ES cr up wp_bindP intro!: wp_conseq [OF ob] split: sum.splits)
qed

lemma MEI_unimport_wp:
  assumes "finalizer_laws L" and "answered (OESI i) h" and "om_DeletionTimestamp (esi_ObjectMeta i) \<noteq> None"
  shows "wp (MEI_guard ns) (\<lambda>_ _. True) (MEI_unimportEndpointSlice L ns i) h"
proof -
  let ?rem = "i\<lparr>esi_ObjectMeta := LibRemoveFinalizer L (esi_ObjectMeta i) endpointSliceImportCleanupFinalizer\<rparr>"
  have key: "importedKey ns ?rem = importedKey ns i" by (simp add: importedKey_def finalizer_laws_fields [OF assms(1)])
  have del: "MEI_guard ns h (Delete Mem KEndpointSlice (importedKey ns i))"
    if "LibContainsFinalizer L (esi_ObjectMeta i) endpointSliceImportCleanupFinalizer"
    using assms(2,3) that finalizer_lawsD(1) [OF assms(1)] by (auto simp: MEI_guard_def hasESIFinalizer_def)
  have rem: "MEI_guard ns (h @ [(Delete Mem KEndpointSlice (importedKey ns i), a)]) (Update Hub (OESI ?rem))" if "deletedBy a" for a
    using gone_delete [OF that, of Mem KEndpointSlice "importedKey ns i"] by (simp add: MEI_guard_def key)
  show ?thesis
    by (auto simp: MEI_unimportEndpointSlice_def importedKey_def [symmetric] prog_simps del decUpd_def deletedBy_def intro!: rem
        split: option.splits sum.splits)
qed

lemma MEI_Reconcile_wp:
  assumes "finalizer_laws L" "createOrUpdate_laws L" "label_laws L"
  shows "wp (MEI_guard ns) (\<lambda>_ _. True) (MEI_Reconcile L c ns n) []"
proof -
  let ?add = "\<lambda>i. i\<lparr>esi_ObjectMeta := LibAddFinalizer L (esi_ObjectMeta i) endpointSliceImportCleanupFinalizer\<rparr>"
  let ?h = "\<lambda>i ms d svc. [(Get Hub KEndpointSliceImport n, RObj (OESI i)), (ListObjs Mem KMultiClusterService (importersOf i), RObjs (map OMCS ms)),
      (Get Mem KService \<lparr>nn_Namespace = ns, nn_Name = d\<rparr>, RObj (OSVC svc))]"
  have added: "hasESIFinalizer (OESI (?add i))" for i using finalizer_lawsD(2) [OF assms(1)] by (simp add: hasESIFinalizer_def)
  have upd: "MEI_guard ns h (Update Hub (OESI (?add i)))" for h i using added by (simp add: MEI_guard_def)
  have dd: "derivedService ns (?h i ms d svc @ k) d"
    if "scanForDerivedServiceName ms = d" "LibIsDNS1035Label L d = []" "om_DeletionTimestamp (svc_ObjectMeta svc) = None" for i ms d svc k
  proof -
    from that(2) assms(3) have "d \<noteq> []" by (auto simp: label_laws_def)
    from scan_found [OF that(1) this] that(3) show ?thesis unfolding derivedService_def listed_def answered_def by auto
  qed
  have um: "unmeasured (?h i ms d svc)" "unmeasured (?h i ms d svc @ [(Update Hub x, a)])" for i ms d svc x a
    by (auto simp: unmeasured_def)
  have go: "wp (MEI_guard ns) (\<lambda>_ _. True) (MEI_import L c ns d i') (?h i ms d svc @ [(Update Hub (OESI (?add i)), RObj (OESI i'))])"
    if "scanForDerivedServiceName ms = d" "LibIsDNS1035Label L d = []" "om_DeletionTimestamp (svc_ObjectMeta svc) = None" for i i' ms d svc
    by (rule MEI_import_wp [OF assms(2) shown_update [where P = hasESIFinalizer and x = "OESI (?add i)" and y = "OESI i'", OF added [of i]] dd [OF that] _ um(2)])
      (auto simp: answered_def)
  have go': "wp (MEI_guard ns) (\<lambda>_ _. True) (MEI_import L c ns d i) (?h i ms d svc)"
    if "scanForDerivedServiceName ms = d" "LibIsDNS1035Label L d = []" "om_DeletionTimestamp (svc_ObjectMeta svc) = None"
      "LibContainsFinalizer L (esi_ObjectMeta i) endpointSliceImportCleanupFinalizer" for i ms d svc
  proof (rule MEI_import_wp [OF assms(2) shown_get [of _ "OESI i" _ n] _ _ um(1)])
    show "hasESIFinalizer (OESI i)" using that(4) finalizer_lawsD(1) [OF assms(1)] by (simp add: hasESIFinalizer_def)
    show "derivedService ns (?h i ms d svc) d" using dd [OF that(1-3), of i "[]"] by simp
  qed (auto simp: answered_def)
  show ?thesis
    by (auto simp: MEI_Reconcile_def MEI_isDerivedServiceValid_def MEI_addEndpointSliceImportCleanupFinalizer_def Let_def prog_simps upd
        wp_bindP decUpd_def answered_def intro!: wp_conseq [OF MEI_unimport_wp [OF assms(1)]] go [simplified] go'
        split: sum.splits option.splits)
qed

section \<open>Properties\<close>

text \<open>C13. The import protocol of endpoint slices: for all answers and at every point where the process may
  stop, an endpoint slice is created or updated in the member cluster only after the EndpointSliceImport
  with the clean-up finalizer is on record, with exactly the addresses (one endpoint for each endpoint of the
  import, in its order, with no condition), the ports and the address type of an import that was read, labelled
  for the derived service and as managed by this controller and with no other label, when created under the
  name of the import in the reserved namespace, and for a service that a live MultiClusterService importing the owner service
  names as derived and that was read alive; it is deleted only for an import that is being deleted; the
  finalizer is removed only when the endpoint slice is gone; and a duration is measured at most once,
  after the generation was recorded as measured, and lies between 1 and 100000 milliseconds.\<close>

theorem MEI_import_protocol:
  assumes "finalizer_laws L" "createOrUpdate_laws L" "label_laws L" and "steps (MEI_Reconcile L c ns n) tr p"
  shows "guarded (MEI_guard ns) [] tr"
  by (rule wp_guarded [OF assms(4) MEI_Reconcile_wp [OF assms(1-3)]])

theorem MEI_import_protocol_witness:
  "guarded (MEI_guard ''fleet-system'') [] (fst (play demoSliceImportAnswers (MEI_Reconcile refLib ''c2'' ''fleet-system'' demoSliceKey))) \<and>
   last (map fst (fst (play demoSliceImportAnswers (MEI_Reconcile refLib ''c2'' ''fleet-system'' demoSliceKey)))) =
     MetricObserve endpointSliceExportImportDuration [''c1'', ''c2'', ''true''] 7000"
proof -
  let ?p = "MEI_Reconcile refLib ''c2'' ''fleet-system'' demoSliceKey"
  have "steps ?p (fst (play demoSliceImportAnswers ?p)) (snd (play demoSliceImportAnswers ?p))" by (rule play_trace_steps) simp
  from MEI_import_protocol [OF refLib_finalizer_laws refLib_createOrUpdate_laws refLib_label_laws this]
  show ?thesis by (rule conjI) code_simp
qed

end
