(* ===== verification/Member_MultiClusterService.thy ===== *)
theory Member_MultiClusterService
  imports Finalizers Conditions ObjectNames
begin

text \<open>
  The MultiClusterService controller (\<open>pkg/controllers/multiclusterservice/controller.go\<close>): it imports a
  service with a ServiceImport, and exposes the imported service with a load balancer service that it
  derives in the namespace reserved for fleet. The controller has a single client, that of its cluster.
\<close>

section \<open>The model\<close>

definition multiClusterServiceFinalizer :: string where
  "multiClusterServiceFinalizer = ''networking.fleet.azure.com/service-resources-cleanup''"

definition multiClusterServiceLabelServiceImport :: string where
  "multiClusterServiceLabelServiceImport = ''networking.fleet.azure.com/service-import''"

definition serviceLabelMCSName :: string where
  "serviceLabelMCSName = ''networking.fleet.azure.com/multi-cluster-service-name''"

definition serviceLabelMCSNamespace :: string where
  "serviceLabelMCSNamespace = ''networking.fleet.azure.com/multi-cluster-service-namespace''"

definition conditionReasonUnknownServiceImport :: string where
  "conditionReasonUnknownServiceImport = ''UnknownServiceImport''"

definition conditionReasonFoundServiceImport :: string where
  "conditionReasonFoundServiceImport = ''FoundServiceImport''"

definition mcsRetryInterval :: int where
  "mcsRetryInterval = seconds 5"

definition multiClusterServiceAnnotationInternalLoadBalancer :: string where
  "multiClusterServiceAnnotationInternalLoadBalancer = ''networking.fleet.azure.com/azure-load-balancer-internal''"

definition serviceAnnotationInternalLoadBalancer :: string where
  "serviceAnnotationInternalLoadBalancer = ''service.beta.kubernetes.io/azure-load-balancer-internal''"

definition MultiClusterServiceValid :: string where
  "MultiClusterServiceValid = ''Valid''"

abbreviation mcsLabels :: "MultiClusterService \<Rightarrow> string gomap" where
  "mcsLabels m \<equiv> om_Labels (mcs_ObjectMeta m)"

definition setLabels :: "string gomap \<Rightarrow> MultiClusterService \<Rightarrow> MultiClusterService" where
  "setLabels ls m = m\<lparr>mcs_ObjectMeta := (mcs_ObjectMeta m)\<lparr>om_Labels := ls\<rparr>\<rparr>"

definition MCS_derivedServiceFromLabel :: "string \<Rightarrow> MultiClusterService \<Rightarrow> NamespacedName option" where
  "MCS_derivedServiceFromLabel fleetSystemNamespace m =
     map_option (\<lambda>v. \<lparr>nn_Namespace = fleetSystemNamespace, nn_Name = v\<rparr>) (mget (mcsLabels m) MultiClusterServiceLabelDerivedService)"

definition MCS_serviceImportFromLabel :: "MultiClusterService \<Rightarrow> NamespacedName option" where
  "MCS_serviceImportFromLabel m =
     map_option (\<lambda>v. \<lparr>nn_Namespace = om_Namespace (mcs_ObjectMeta m), nn_Name = v\<rparr>) (mget (mcsLabels m) multiClusterServiceLabelServiceImport)"

definition MCS_deleteDerivedService :: "NamespacedName option \<Rightarrow> err option op" where
  "MCS_deleteDerivedService n = (case n of None \<Rightarrow> Ret None | Some k \<Rightarrow> deleteObj Mem KService k)"

definition MCS_deleteServiceImport :: "NamespacedName option \<Rightarrow> err option op" where
  "MCS_deleteServiceImport n = (case n of None \<Rightarrow> Ret None | Some k \<Rightarrow> deleteObj Mem KServiceImport k)"

text \<open>\<open>%s\<close> of a pointer to a name.\<close>

definition showName :: "NamespacedName option \<Rightarrow> string" where
  "showName n = (case n of None \<Rightarrow> ''<nil>'' | Some k \<Rightarrow> nnString (nn_Namespace k) (nn_Name k))"

definition MCS_handleDelete :: "Lib \<Rightarrow> string \<Rightarrow> MultiClusterService \<Rightarrow> outcome op" where
  "MCS_handleDelete L fleetSystemNamespace m =
     (if \<not> LibContainsFinalizer L (mcs_ObjectMeta m) multiClusterServiceFinalizer then Ret (emptyResult, None)
      else
        bindP (MCS_deleteDerivedService (MCS_derivedServiceFromLabel fleetSystemNamespace m)) (\<lambda>d1.
          if (case d1 of None \<Rightarrow> False | Some x \<Rightarrow> \<not> IsNotFound x) then Ret (emptyResult, d1)
          else
            bindP (MCS_deleteServiceImport (MCS_serviceImportFromLabel m)) (\<lambda>d2.
              if (case d2 of None \<Rightarrow> False | Some x \<Rightarrow> \<not> IsNotFound x) then Ret (emptyResult, d2)
              else
                bindP (eventf KMultiClusterService (mcs_ObjectMeta m) ''Normal'' ''UnimportedService''
                         (''Unimported service '' @ showName (MCS_serviceImportFromLabel m))) (\<lambda>_.
                bindP (doUpdate Mem OMCS decMCS (m\<lparr>mcs_ObjectMeta := LibRemoveFinalizer L (mcs_ObjectMeta m) multiClusterServiceFinalizer\<rparr>)) (\<lambda>(er, _).
                  Ret (emptyResult, er))))))"

definition isServiceImportOwnedByOthers :: "MultiClusterService \<Rightarrow> ServiceImport \<Rightarrow> bool" where
  "isServiceImportOwnedByOthers m s =
     list_ex (\<lambda>r. or_APIVersion r = tm_APIVersion (mcs_TypeMeta m) \<and> or_Kind r = tm_Kind (mcs_TypeMeta m) \<and>
        or_Controller r = Some True \<and> or_Name r \<noteq> om_Name (mcs_ObjectMeta m)) (om_OwnerReferences (si_ObjectMeta s))"

text \<open>\<open>ensureServiceImport\<close> as the mutate function.\<close>

definition MCS_ensureServiceImport :: "Lib \<Rightarrow> MultiClusterService \<Rightarrow> kobj \<Rightarrow> (err option \<times> kobj) op" where
  "MCS_ensureServiceImport L m x =
     (case x of
        OSI s \<Rightarrow>
          (case LibSetControllerReference L (mcs_ObjectMeta m) (si_ObjectMeta s) of
             Inl e \<Rightarrow> Ret (Some e, x)
           | Inr m' \<Rightarrow> Ret (None, OSI (s\<lparr>si_ObjectMeta := m'\<rparr>)))
      | _ \<Rightarrow> Ret (None, x))"

definition mcsCondition :: "MultiClusterService \<Rightarrow> ServiceImport \<Rightarrow> Condition" where
  "mcsCondition m s =
     (if sis_Clusters (si_Status s) = [] then
        \<lparr>c_Type = MultiClusterServiceValid, c_Status = ConditionUnknown, c_ObservedGeneration = om_Generation (mcs_ObjectMeta m),
         c_LastTransitionTime = None, c_Reason = conditionReasonUnknownServiceImport,
         c_Message = ''importing service; if the condition remains for a while, please verify that service has been exported or service has been exported by other multiClusterService''\<rparr>
      else
        \<lparr>c_Type = MultiClusterServiceValid, c_Status = ConditionTrue, c_ObservedGeneration = om_Generation (mcs_ObjectMeta m),
         c_LastTransitionTime = None, c_Reason = conditionReasonFoundServiceImport, c_Message = ''found valid service import''\<rparr>)"

definition MCS_updateMultiClusterServiceStatus ::
    "Lib \<Rightarrow> MultiClusterService \<Rightarrow> ServiceImport \<Rightarrow> Service \<Rightarrow> (err option \<times> MultiClusterService) op" where
  "MCS_updateMultiClusterServiceStatus L m s svc =
     (let c = mcsCondition m s in
      if mcs_LoadBalancer m = svc_LoadBalancer svc \<and>
         EqualCondition (LibFindStatusCondition L (mcs_Conditions m) MultiClusterServiceValid) (Some c) then Ret (None, m)
      else doStatusUpdate Mem OMCS decMCS (m\<lparr>mcs_LoadBalancer := svc_LoadBalancer svc,
             mcs_Conditions := LibSetStatusCondition L (mcs_Conditions m) c\<rparr>))"

definition newService :: "string \<Rightarrow> string \<Rightarrow> Service" where
  "newService ns nm = \<lparr>svc_TypeMeta = zeroType, svc_ObjectMeta = metaOf ns nm, svc_Type = [], svc_ClusterIP = [], svc_Ports = [], svc_LoadBalancer = []\<rparr>"

definition MCS_handleInvalidServiceImport :: "Lib \<Rightarrow> string \<Rightarrow> MultiClusterService \<Rightarrow> ServiceImport \<Rightarrow> err option op" where
  "MCS_handleInvalidServiceImport L fleetSystemNamespace m s =
     bindP (MCS_updateMultiClusterServiceStatus L m s (newService [] [])) (\<lambda>(er, m1).
       case er of
         Some x \<Rightarrow> Ret (Some x)
       | None \<Rightarrow>
           bindP (eventf KMultiClusterService (mcs_ObjectMeta m1) ''Normal'' ''SuccessfulUpdateStatus''
                    (''Importing '' @ om_Name (si_ObjectMeta s) @ '' service and updated '' @ om_Name (mcs_ObjectMeta m1) @ '' status'')) (\<lambda>_.
             case MCS_derivedServiceFromLabel fleetSystemNamespace m1 of
               None \<Rightarrow> Ret None
             | Some n \<Rightarrow>
                 bindP (MCS_deleteDerivedService (Some n)) (\<lambda>der.
                   if (case der of None \<Rightarrow> False | Some x \<Rightarrow> \<not> IsNotFound x) then Ret der
                   else bindP (doUpdate Mem OMCS decMCS (setLabels (mdel MultiClusterServiceLabelDerivedService (mcsLabels m1)) m1)) (\<lambda>(uer, _). Ret uer))))"

definition MCS_updateMultiClusterLabel :: "MultiClusterService \<Rightarrow> string \<Rightarrow> string \<Rightarrow> (err option \<times> MultiClusterService) op" where
  "MCS_updateMultiClusterLabel m key val =
     (if mget (mcsLabels m) key = Some val then Ret (None, m)
      else doUpdate Mem OMCS decMCS (setLabels (mapPut key val (mcsLabels m)) m))"

definition configureInternalLoadBalancer :: "MultiClusterService \<Rightarrow> Service \<Rightarrow> Service" where
  "configureInternalLoadBalancer m svc =
     (case ParseBool (mgets (om_Annotations (mcs_ObjectMeta m)) multiClusterServiceAnnotationInternalLoadBalancer) of
        Some True \<Rightarrow> svc\<lparr>svc_ObjectMeta := (svc_ObjectMeta svc)\<lparr>om_Annotations :=
          mapPut serviceAnnotationInternalLoadBalancer ''true'' (om_Annotations (svc_ObjectMeta svc))\<rparr>\<rparr>
      | _ \<Rightarrow> svc)"

definition MCS_deriveService :: "MultiClusterService \<Rightarrow> ServiceImport \<Rightarrow> Service \<Rightarrow> Service" where
  "MCS_deriveService m s svc =
     configureInternalLoadBalancer m
       (svc\<lparr>svc_Ports := map ToServicePort (sis_Ports (si_Status s)), svc_Type := ''LoadBalancer'',
            svc_ObjectMeta := (svc_ObjectMeta svc)\<lparr>om_Labels :=
              mapPut serviceLabelMCSNamespace (om_Namespace (mcs_ObjectMeta m))
                (mapPut serviceLabelMCSName (om_Name (mcs_ObjectMeta m)) (om_Labels (svc_ObjectMeta svc)))\<rparr>\<rparr>)"

text \<open>\<open>ensureDerivedService\<close> as the mutate function.\<close>

definition MCS_ensureDerivedService :: "MultiClusterService \<Rightarrow> ServiceImport \<Rightarrow> kobj \<Rightarrow> (err option \<times> kobj) op" where
  "MCS_ensureDerivedService m s x = Ret (None, case x of OSVC svc \<Rightarrow> OSVC (MCS_deriveService m s svc) | _ \<Rightarrow> x)"

definition MCS_generateDerivedServiceName :: "string \<Rightarrow> MultiClusterService \<Rightarrow> NamespacedName" where
  "MCS_generateDerivedServiceName fleetSystemNamespace m =
     \<lparr>nn_Namespace = fleetSystemNamespace, nn_Name = om_Namespace (mcs_ObjectMeta m) @ ''-'' @ om_Name (mcs_ObjectMeta m)\<rparr>"

definition asSVC :: "Service \<Rightarrow> kobj \<Rightarrow> Service" where
  "asSVC d x = (case x of OSVC y \<Rightarrow> y | _ \<Rightarrow> d)"

text \<open>The derived service of a valid import, and the status.\<close>

definition MCS_derive :: "Lib \<Rightarrow> NamespacedName \<Rightarrow> MultiClusterService \<Rightarrow> ServiceImport \<Rightarrow> outcome op" where
  "MCS_derive L serviceName m s =
     (let svc0 = newService (nn_Namespace serviceName) (nn_Name serviceName) in
      bindP (LibCreateOrUpdate L Mem (OSVC svc0) (MCS_ensureDerivedService m s)) (\<lambda>(er, x).
        case er of
          Some y \<Rightarrow> Ret (emptyResult, Some y)
        | None \<Rightarrow>
            bindP (MCS_updateMultiClusterServiceStatus L m s (asSVC svc0 x)) (\<lambda>(ser, m1).
              case ser of
                Some y \<Rightarrow> Ret (emptyResult, Some y)
              | None \<Rightarrow>
                  bindP (eventf KMultiClusterService (mcs_ObjectMeta m1) ''Normal'' ''SuccessfulUpdateStatus''
                           (''Imported '' @ om_Name (si_ObjectMeta s) @ '' service and updated '' @ om_Name (mcs_ObjectMeta m1) @ '' status'')) (\<lambda>_.
                  Ret (emptyResult, None)))))"

definition MCS_derivedName :: "string \<Rightarrow> MultiClusterService \<Rightarrow> NamespacedName" where
  "MCS_derivedName fleetSystemNamespace m =
     (case MCS_derivedServiceFromLabel fleetSystemNamespace m of
        Some n \<Rightarrow> n | None \<Rightarrow> MCS_generateDerivedServiceName fleetSystemNamespace m)"

definition MCS_expose :: "Lib \<Rightarrow> string \<Rightarrow> MultiClusterService \<Rightarrow> ServiceImport \<Rightarrow> outcome op" where
  "MCS_expose L fleetSystemNamespace m s =
     bindP (eventf KMultiClusterService (mcs_ObjectMeta m) ''Normal'' ''FoundValidService''
              (''Found valid service '' @ om_Name (si_ObjectMeta s) @ '' and importing'')) (\<lambda>_.
     let serviceName = MCS_derivedName fleetSystemNamespace m in
     bindP (MCS_updateMultiClusterLabel m MultiClusterServiceLabelDerivedService (nn_Name serviceName)) (\<lambda>(er, m1).
       case er of
         Some x \<Rightarrow> Ret (emptyResult, Some x)
       | None \<Rightarrow> MCS_derive L serviceName m1 s))"

text \<open>When the import cannot be claimed: it may belong to another MultiClusterService.\<close>

definition MCS_claimFailed :: "Lib \<Rightarrow> string \<Rightarrow> MultiClusterService \<Rightarrow> NamespacedName \<Rightarrow> err \<Rightarrow> outcome op" where
  "MCS_claimFailed L fleetSystemNamespace m desired e =
     bindP (getSI Mem desired) (\<lambda>g.
       case g of
         Inl _ \<Rightarrow> Ret (emptyResult, Some e)
       | Inr s \<Rightarrow>
           if isServiceImportOwnedByOthers m s then
             bindP (MCS_handleInvalidServiceImport L fleetSystemNamespace m (s\<lparr>si_Status := zeroSIStatus\<rparr>)) (\<lambda>er.
               case er of Some x \<Rightarrow> Ret (emptyResult, Some x) | None \<Rightarrow> Ret (requeueAfter mcsRetryInterval, None))
           else Ret (emptyResult, Some e))"

definition newSI :: "NamespacedName \<Rightarrow> ServiceImport" where
  "newSI n = \<lparr>si_TypeMeta = zeroType, si_ObjectMeta = metaOf (nn_Namespace n) (nn_Name n), si_Status = zeroSIStatus\<rparr>"

definition MCS_import :: "Lib \<Rightarrow> string \<Rightarrow> MultiClusterService \<Rightarrow> NamespacedName \<Rightarrow> outcome op" where
  "MCS_import L fleetSystemNamespace m desired =
     bindP (MCS_updateMultiClusterLabel m multiClusterServiceLabelServiceImport (nn_Name desired)) (\<lambda>(er, m1).
       case er of
         Some x \<Rightarrow> Ret (emptyResult, Some x)
       | None \<Rightarrow>
           bindP (LibCreateOrUpdate L Mem (OSI (newSI desired)) (MCS_ensureServiceImport L m1)) (\<lambda>(cer, x).
             case cer of
               Some e \<Rightarrow> MCS_claimFailed L fleetSystemNamespace m1 desired e
             | None \<Rightarrow>
                 let s = asSI (newSI desired) x in
                 if sis_Clusters (si_Status s) = [] then
                   bindP (MCS_handleInvalidServiceImport L fleetSystemNamespace m1 s) (\<lambda>her. Ret (emptyResult, her))
                 else MCS_expose L fleetSystemNamespace m1 s))"

definition MCS_handleUpdate :: "Lib \<Rightarrow> string \<Rightarrow> MultiClusterService \<Rightarrow> outcome op" where
  "MCS_handleUpdate L fleetSystemNamespace m =
     (let desired = \<lparr>nn_Namespace = om_Namespace (mcs_ObjectMeta m), nn_Name = mcs_ServiceImport m\<rparr> in
      case MCS_serviceImportFromLabel m of
        Some n \<Rightarrow>
          if nn_Name n \<noteq> nn_Name desired then
            bindP (MCS_deleteServiceImport (Some n)) (\<lambda>der.
              if (case der of None \<Rightarrow> False | Some x \<Rightarrow> \<not> IsNotFound x) then Ret (emptyResult, der)
              else MCS_import L fleetSystemNamespace m desired)
          else MCS_import L fleetSystemNamespace m desired
      | None \<Rightarrow> MCS_import L fleetSystemNamespace m desired)"

definition MCS_Reconcile :: "Lib \<Rightarrow> string \<Rightarrow> NamespacedName \<Rightarrow> outcome op" where
  "MCS_Reconcile L fleetSystemNamespace req =
     bindP (getMCS Mem req) (\<lambda>g.
       case g of
         Inl x \<Rightarrow> if IsNotFound x then Ret (emptyResult, None) else Ret (emptyResult, Some x)
       | Inr m \<Rightarrow>
           if om_DeletionTimestamp (mcs_ObjectMeta m) \<noteq> None then MCS_handleDelete L fleetSystemNamespace m
           else if \<not> LibContainsFinalizer L (mcs_ObjectMeta m) multiClusterServiceFinalizer then
             bindP (doUpdate Mem OMCS decMCS (m\<lparr>mcs_ObjectMeta := LibAddFinalizer L (mcs_ObjectMeta m) multiClusterServiceFinalizer\<rparr>)) (\<lambda>(er, m1).
               case er of Some x \<Rightarrow> Ret (emptyResult, Some x) | None \<Rightarrow> MCS_handleUpdate L fleetSystemNamespace m1)
           else MCS_handleUpdate L fleetSystemNamespace m)"

text \<open>The requests of the watch on services.\<close>

definition MCS_serviceEventHandler :: "string \<Rightarrow> ObjectMeta \<Rightarrow> NamespacedName list" where
  "MCS_serviceEventHandler fleetSystemNamespace om =
     (let ns = mgets (om_Labels om) serviceLabelMCSNamespace; nm = mgets (om_Labels om) serviceLabelMCSName in
      if om_Namespace om \<noteq> fleetSystemNamespace \<or> ns = [] \<or> nm = [] then [] else [\<lparr>nn_Namespace = ns, nn_Name = nm\<rparr>])"

section \<open>What is said of the controller\<close>

definition hasMCSFinalizer :: "kobj \<Rightarrow> bool" where
  "hasMCSFinalizer x = (case x of OMCS m \<Rightarrow> multiClusterServiceFinalizer \<in> set (om_Finalizers (mcs_ObjectMeta m)) | _ \<Rightarrow> False)"

text \<open>A MultiClusterService with the property was reported by the API server, or an update to it was accepted.\<close>

definition onRecord :: "(MultiClusterService \<Rightarrow> bool) \<Rightarrow> trace \<Rightarrow> bool" where
  "onRecord P h \<longleftrightarrow> (\<exists>m. P m \<and> (answered (OMCS m) h \<or> (\<exists>y. (Update Mem (OMCS m), RObj (OMCS y)) \<in> set h)))"

text \<open>The labels on record name the ServiceImport, or the derived service.\<close>

definition recordsImport :: "NamespacedName \<Rightarrow> trace \<Rightarrow> bool" where
  "recordsImport k h = onRecord (\<lambda>m. MCS_serviceImportFromLabel m = Some k) h"

definition recordsDerived :: "string \<Rightarrow> NamespacedName \<Rightarrow> trace \<Rightarrow> bool" where
  "recordsDerived ns k h = onRecord (\<lambda>m. MCS_derivedServiceFromLabel ns m = Some k) h"

text \<open>The service is derived from an import that was read and lists a cluster.\<close>

definition exposes :: "trace \<Rightarrow> Service \<Rightarrow> bool" where
  "exposes h svc \<longleftrightarrow> (\<exists>m s svc0. answered (OMCS m) h \<and> answered (OSI s) h \<and> sis_Clusters (si_Status s) \<noteq> [] \<and> svc = MCS_deriveService m s svc0)"

text \<open>
  The import is claimed from the object that was read under a recorded name, for a MultiClusterService
  that was read, and the first controller among its owners has no other name.
\<close>

definition claims :: "trace \<Rightarrow> ServiceImport \<Rightarrow> bool" where
  "claims h s \<longleftrightarrow> (\<exists>k s0 m om. recordsImport k h \<and> (Get Mem KServiceImport k, RObj (OSI s0)) \<in> set h \<and>
     answered (OMCS m) h \<and> s = s0\<lparr>si_ObjectMeta := om\<rparr> \<and> metaKey om = metaKey (si_ObjectMeta s0) \<and>
     (\<forall>r. find (\<lambda>r. or_Controller r = Some True) (om_OwnerReferences (si_ObjectMeta s0)) = Some r \<longrightarrow> or_Name r = om_Name (mcs_ObjectMeta m)))"

text \<open>A label is kept unless the object that it names is gone.\<close>

definition keepsTrack :: "string \<Rightarrow> trace \<Rightarrow> MultiClusterService \<Rightarrow> MultiClusterService \<Rightarrow> bool" where
  "keepsTrack ns h m0 m \<longleftrightarrow>
     (\<forall>k. MCS_derivedServiceFromLabel ns m0 = Some k \<longrightarrow> MCS_derivedServiceFromLabel ns m = Some k \<or> gone Mem KService k h) \<and>
     (\<forall>k. MCS_serviceImportFromLabel m0 = Some k \<longrightarrow> MCS_serviceImportFromLabel m = Some k \<or> gone Mem KServiceImport k h)"

definition allGone :: "string \<Rightarrow> trace \<Rightarrow> MultiClusterService \<Rightarrow> bool" where
  "allGone ns h m \<longleftrightarrow>
     (\<forall>k. MCS_derivedServiceFromLabel ns m = Some k \<longrightarrow> gone Mem KService k h) \<and>
     (\<forall>k. MCS_serviceImportFromLabel m = Some k \<longrightarrow> gone Mem KServiceImport k h)"

definition mcsUpdate :: "string \<Rightarrow> trace \<Rightarrow> MultiClusterService \<Rightarrow> bool" where
  "mcsUpdate ns h m \<longleftrightarrow> (\<exists>m0. answered (OMCS m0) h \<and> keepsTrack ns h m0 m \<and>
     (hasMCSFinalizer (OMCS m0) \<longrightarrow> hasMCSFinalizer (OMCS m) \<or> om_DeletionTimestamp (mcs_ObjectMeta m0) \<noteq> None \<and> allGone ns h m))"

text \<open>The status: the load balancer of the derived service of a valid import, or none.\<close>

definition truthfulStatus :: "Lib \<Rightarrow> trace \<Rightarrow> MultiClusterService \<Rightarrow> bool" where
  "truthfulStatus L h m \<longleftrightarrow> (\<exists>m0 s lb. answered (OMCS m0) h \<and>
     m = m0\<lparr>mcs_LoadBalancer := lb, mcs_Conditions := LibSetStatusCondition L (mcs_Conditions m0) (mcsCondition m0 s)\<rparr> \<and>
     (if sis_Clusters (si_Status s) = [] then lb = []
      else answered (OSI s) h \<and> (\<exists>svc. answered (OSVC svc) h \<and> lb = svc_LoadBalancer svc)))"

definition unusable :: "trace \<Rightarrow> bool" where
  "unusable h \<longleftrightarrow> (\<exists>m s. answered (OMCS m) h \<and> answered (OSI s) h \<and> (sis_Clusters (si_Status s) = [] \<or> isServiceImportOwnedByOthers m s))"

definition MCS_guard :: "Lib \<Rightarrow> string \<Rightarrow> trace \<Rightarrow> request \<Rightarrow> bool" where
  "MCS_guard L ns h q \<longleftrightarrow>
     (case q of
        Create cl x \<Rightarrow> cl = Mem \<and> shown Mem hasMCSFinalizer h \<and>
          (case x of
             OSI s \<Rightarrow> recordsImport (metaKey (si_ObjectMeta s)) h
           | OSVC svc \<Rightarrow> recordsDerived ns (metaKey (svc_ObjectMeta svc)) h \<and> exposes h svc
           | _ \<Rightarrow> False)
      | Update cl x \<Rightarrow> cl = Mem \<and>
          (case x of
             OSI s \<Rightarrow> shown Mem hasMCSFinalizer h \<and> claims h s
           | OSVC svc \<Rightarrow> shown Mem hasMCSFinalizer h \<and> exposes h svc \<and>
               (\<exists>k svc0. recordsDerived ns k h \<and> (Get Mem KService k, RObj (OSVC svc0)) \<in> set h)
           | OMCS m \<Rightarrow> mcsUpdate ns h m
           | _ \<Rightarrow> False)
      | StatusUpdate cl x \<Rightarrow> cl = Mem \<and> (\<exists>m. x = OMCS m \<and> truthfulStatus L h m)
      | Delete cl kd n \<Rightarrow> cl = Mem \<and>
          (\<exists>m. answered (OMCS m) h \<and>
             (kd = KService \<and> MCS_derivedServiceFromLabel ns m = Some n \<and> (om_DeletionTimestamp (mcs_ObjectMeta m) \<noteq> None \<or> unusable h) \<or>
              kd = KServiceImport \<and> MCS_serviceImportFromLabel m = Some n \<and>
                (om_DeletionTimestamp (mcs_ObjectMeta m) \<noteq> None \<or> nn_Name n \<noteq> mcs_ServiceImport m)))
      | _ \<Rightarrow> True)"

text \<open>Objects and answers for the examples.\<close>

definition demoImporter :: MultiClusterService where
  "demoImporter = \<lparr>mcs_TypeMeta = zeroType, mcs_ObjectMeta = metaOf ''work'' ''app-mcs'', mcs_ServiceImport = ''app'',
     mcs_LoadBalancer = [], mcs_Conditions = []\<rparr>"

definition demoExposed :: ServiceImport where
  "demoExposed = (newSI \<lparr>nn_Namespace = ''work'', nn_Name = ''app''\<rparr>)\<lparr>si_Status := zeroSIStatus\<lparr>sis_Ports := [demoPort],
     sis_Clusters := [\<lparr>cs_Cluster = ''c1''\<rparr>]\<rparr>\<rparr>"

definition demoExposeAnswers :: "response list" where
  "demoExposeAnswers = [RObj (OMCS demoImporter), RObj (OMCS demoImporter), RObj (OMCS demoImporter), RObj (OSI demoExposed), RObj (OSI demoExposed), ROk,
     RObj (OMCS demoImporter), notFound, RObj (OSVC (newService ''fleet-system'' ''work-app-mcs'')), RObj (OMCS demoImporter), ROk]"

section \<open>Lemmas\<close>

interpretation mcsf: finalized OMCS mcs_ObjectMeta "\<lambda>om m. m\<lparr>mcs_ObjectMeta := om\<rparr>" multiClusterServiceFinalizer hasMCSFinalizer KMultiClusterService
  by unfold_locales (simp_all add: hasMCSFinalizer_def)

lemma MCS_guard_other [simp]:
  "MCS_guard L ns h (Get cl kd m)" "MCS_guard L ns h (Eventf kd m t r msg)"
  by (simp_all add: MCS_guard_def)

lemma kindOf_SI: "kindOf x = KServiceImport \<longleftrightarrow> (\<exists>i. x = OSI i)"
  by (cases x) (simp_all add: kindOf_def)

lemma kindOf_SVC: "kindOf x = KService \<longleftrightarrow> (\<exists>i. x = OSVC i)"
  by (cases x) (simp_all add: kindOf_def)

lemma fromLabel_cong:
  "mcsLabels m = mcsLabels m' \<Longrightarrow> MCS_derivedServiceFromLabel ns m = MCS_derivedServiceFromLabel ns m'"
  "metaKey (mcs_ObjectMeta m) = metaKey (mcs_ObjectMeta m') \<Longrightarrow> mcsLabels m = mcsLabels m' \<Longrightarrow> MCS_serviceImportFromLabel m = MCS_serviceImportFromLabel m'"
  by (simp_all add: MCS_derivedServiceFromLabel_def MCS_serviceImportFromLabel_def metaKey_def)

lemma labels_differ [simp]:
  "MultiClusterServiceLabelDerivedService \<noteq> multiClusterServiceLabelServiceImport"
  "multiClusterServiceLabelServiceImport \<noteq> MultiClusterServiceLabelDerivedService"
  "serviceLabelMCSName \<noteq> serviceLabelMCSNamespace"
  by (simp_all add: MultiClusterServiceLabelDerivedService_def multiClusterServiceLabelServiceImport_def
      serviceLabelMCSName_def serviceLabelMCSNamespace_def fleetNetworkingPrefix_def)

lemma fromLabel_set [simp]:
  "MCS_derivedServiceFromLabel ns (setLabels (mapPut MultiClusterServiceLabelDerivedService v ls) m) = Some \<lparr>nn_Namespace = ns, nn_Name = v\<rparr>"
  "MCS_serviceImportFromLabel (setLabels (mapPut multiClusterServiceLabelServiceImport v ls) m) = Some \<lparr>nn_Namespace = om_Namespace (mcs_ObjectMeta m), nn_Name = v\<rparr>"
  "MCS_derivedServiceFromLabel ns (setLabels (mapPut multiClusterServiceLabelServiceImport v (mcsLabels m)) m) = MCS_derivedServiceFromLabel ns m"
  "MCS_serviceImportFromLabel (setLabels (mapPut MultiClusterServiceLabelDerivedService v (mcsLabels m)) m) = MCS_serviceImportFromLabel m"
  "MCS_serviceImportFromLabel (setLabels (mdel MultiClusterServiceLabelDerivedService (mcsLabels m)) m) = MCS_serviceImportFromLabel m"
  by (simp_all add: MCS_derivedServiceFromLabel_def MCS_serviceImportFromLabel_def setLabels_def)

lemma hasMCSFinalizer_setLabels [simp]: "hasMCSFinalizer (OMCS (setLabels ls m)) = hasMCSFinalizer (OMCS m)"
  by (simp add: hasMCSFinalizer_def setLabels_def)

lemma exposes_mono [simp]: "exposes h svc \<Longrightarrow> exposes (h @ k) svc"
  unfolding exposes_def by (blast intro: answered_mono)

lemma unusable_mono [simp]: "unusable h \<Longrightarrow> unusable (h @ k)"
  unfolding unusable_def by (blast intro: answered_mono)


lemma onRecord_mono: "onRecord P h \<Longrightarrow> onRecord P (h @ k)"
  unfolding onRecord_def by (fastforce intro: answered_mono)

lemma onRecord_answered: "answered (OMCS m) h \<Longrightarrow> P m \<Longrightarrow> onRecord P h"
  by (auto simp: onRecord_def)

lemma onRecord_update: "P m \<Longrightarrow> onRecord P (h @ [(Update Mem (OMCS m), RObj (OMCS y))])"
  by (auto simp: onRecord_def)

lemma records_mono [simp]:
  "recordsImport k h \<Longrightarrow> recordsImport k (h @ k')" "recordsDerived ns k h \<Longrightarrow> recordsDerived ns k (h @ k')"
  by (simp_all add: recordsImport_def recordsDerived_def onRecord_mono)

lemma MCS_label_guard:
  assumes "answered (OMCS m) h"
    and "key = multiClusterServiceLabelServiceImport \<Longrightarrow> (\<forall>k. MCS_serviceImportFromLabel m = Some k \<longrightarrow> nn_Name k = v \<or> gone Mem KServiceImport k h)"
    and "key = MultiClusterServiceLabelDerivedService \<Longrightarrow> (\<forall>k. MCS_derivedServiceFromLabel ns m = Some k \<longrightarrow> nn_Name k = v)"
    and "key = multiClusterServiceLabelServiceImport \<or> key = MultiClusterServiceLabelDerivedService"
  shows "MCS_guard L ns h (Update Mem (OMCS (setLabels (mapPut key v (mcsLabels m)) m)))"
proof -
  have "keepsTrack ns h m (setLabels (mapPut key v (mcsLabels m)) m)"
    using assms(2-4) unfolding keepsTrack_def
    by (auto simp: MCS_serviceImportFromLabel_def MCS_derivedServiceFromLabel_def setLabels_def)
  with assms(1) show ?thesis by (auto simp: MCS_guard_def mcsUpdate_def)
qed

text \<open>After a successful update of a label, the name that it records is on record.\<close>

lemma MCS_importLabel_wp:
  assumes "answered (OMCS m) h" and "\<forall>k. MCS_serviceImportFromLabel m = Some k \<longrightarrow> nn_Name k = v \<or> gone Mem KServiceImport k h"
  shows "wp (MCS_guard L ns) (\<lambda>h' (er, m'). (\<exists>k. h' = h @ k) \<and> (er = None \<longrightarrow> answered (OMCS m') h' \<and>
      recordsImport \<lparr>nn_Namespace = om_Namespace (mcs_ObjectMeta m), nn_Name = v\<rparr> h'))
    (MCS_updateMultiClusterLabel m multiClusterServiceLabelServiceImport v) h"
proof -
  have up: "MCS_guard L ns h (Update Mem (OMCS (setLabels (mapPut multiClusterServiceLabelServiceImport v (mcsLabels m)) m)))"
    by (rule MCS_label_guard) (use assms in auto)
  have rec: "recordsImport \<lparr>nn_Namespace = om_Namespace (mcs_ObjectMeta m), nn_Name = v\<rparr> h" if "mget (mcsLabels m) multiClusterServiceLabelServiceImport = Some v"
    unfolding recordsImport_def by (rule onRecord_answered [OF assms(1)]) (simp add: MCS_serviceImportFromLabel_def that)
  show ?thesis
    using assms(1) rec
    by (auto simp: MCS_updateMultiClusterLabel_def prog_simps up decUpd_def recordsImport_def intro!: onRecord_update split: sum.splits)
qed

lemma MCS_derivedLabel_wp:
  assumes "answered (OMCS m) h" and "\<forall>k. MCS_derivedServiceFromLabel ns m = Some k \<longrightarrow> nn_Name k = v"
  shows "wp (MCS_guard L ns) (\<lambda>h' (er, m'). (\<exists>k. h' = h @ k) \<and> (er = None \<longrightarrow> answered (OMCS m') h' \<and>
      recordsDerived ns \<lparr>nn_Namespace = ns, nn_Name = v\<rparr> h'))
    (MCS_updateMultiClusterLabel m MultiClusterServiceLabelDerivedService v) h"
proof -
  have up: "MCS_guard L ns h (Update Mem (OMCS (setLabels (mapPut MultiClusterServiceLabelDerivedService v (mcsLabels m)) m)))"
    by (rule MCS_label_guard) (use assms in auto)
  have rec: "recordsDerived ns \<lparr>nn_Namespace = ns, nn_Name = v\<rparr> h" if "mget (mcsLabels m) MultiClusterServiceLabelDerivedService = Some v"
    unfolding recordsDerived_def by (rule onRecord_answered [OF assms(1)]) (simp add: MCS_derivedServiceFromLabel_def that)
  show ?thesis
    using assms(1) rec
    by (auto simp: MCS_updateMultiClusterLabel_def prog_simps up decUpd_def recordsDerived_def intro!: onRecord_update split: sum.splits)
qed

text \<open>The status.\<close>

lemma MCS_status_wp:
  assumes "answered (OMCS m) h"
    and "if sis_Clusters (si_Status s) = [] then svc_LoadBalancer svc = [] else answered (OSI s) h \<and> answered (OSVC svc) h"
  shows "wp (MCS_guard L ns) (\<lambda>h' (er, m'). (\<exists>k. h' = h @ k) \<and> (er = None \<longrightarrow> answered (OMCS m') h'))
    (MCS_updateMultiClusterServiceStatus L m s svc) h"
proof -
  have "truthfulStatus L h (m\<lparr>mcs_LoadBalancer := svc_LoadBalancer svc, mcs_Conditions := LibSetStatusCondition L (mcs_Conditions m) (mcsCondition m s)\<rparr>)"
    unfolding truthfulStatus_def using assms by (intro exI [of _ m] exI [of _ s] exI [of _ "svc_LoadBalancer svc"]) (auto split: if_splits)
  then have "MCS_guard L ns h (StatusUpdate Mem (OMCS (m\<lparr>mcs_LoadBalancer := svc_LoadBalancer svc, mcs_Conditions := LibSetStatusCondition L (mcs_Conditions m) (mcsCondition m s)\<rparr>)))"
    by (simp add: MCS_guard_def)
  with assms(1) show ?thesis
    by (auto simp: MCS_updateMultiClusterServiceStatus_def Let_def prog_simps decUpd_def split: sum.splits)
qed

text \<open>The clean-up of an import that cannot be used.\<close>

lemma MCS_unlabel_guard:
  assumes "answered (OMCS m) h" and "MCS_derivedServiceFromLabel ns m = Some n" and "gone Mem KService n h"
  shows "MCS_guard L ns h (Update Mem (OMCS (setLabels (mdel MultiClusterServiceLabelDerivedService (mcsLabels m)) m)))"
  using assms by (auto simp: MCS_guard_def mcsUpdate_def keepsTrack_def intro!: exI [of _ m])

lemma MCS_invalid_wp:
  assumes "answered (OMCS m) h" and "sis_Clusters (si_Status s) = []" and "unusable h"
  shows "wp (MCS_guard L ns) (\<lambda>_ _. True) (MCS_handleInvalidServiceImport L ns m s) h"
proof -
  have st: "wp (MCS_guard L ns) (\<lambda>h' (er, m'). (\<exists>k. h' = h @ k) \<and> (er = None \<longrightarrow> answered (OMCS m') h'))
      (MCS_updateMultiClusterServiceStatus L m s (newService [] [])) h"
    by (rule MCS_status_wp [OF assms(1)]) (simp add: assms(2) newService_def)
  have del: "MCS_guard L ns ((h @ k) @ [x]) (Delete Mem KService n)" if "answered (OMCS m1) (h @ k)" "MCS_derivedServiceFromLabel ns m1 = Some n" for k x m1 n
    using answered_mono [OF that(1), of "[x]"] that(2) unusable_mono [OF assms(3), of "k @ [x]"] by (auto simp: MCS_guard_def)
  have un: "MCS_guard L ns ((h @ k) @ [x, (Delete Mem KService n, a)]) (Update Mem (OMCS (setLabels (mdel MultiClusterServiceLabelDerivedService (mcsLabels m1)) m1)))"
    if "answered (OMCS m1) (h @ k)" "MCS_derivedServiceFromLabel ns m1 = Some n" "deletedBy a" for k m1 n x a
    by (rule MCS_unlabel_guard [OF answered_mono [OF that(1)] that(2) gone_delete [OF that(3)]]) simp
  show ?thesis
    unfolding MCS_handleInvalidServiceImport_def
    by (rule wp_bindI [OF st])
      (auto simp: prog_simps MCS_deleteDerivedService_def decUpd_def deletedBy_def intro!: del [simplified] un [simplified]
        split: option.splits sum.splits)
qed

text \<open>The derived service.\<close>

lemma metaKey_deriveService [simp]: "metaKey (svc_ObjectMeta (MCS_deriveService m s svc)) = metaKey (svc_ObjectMeta svc)"
  by (simp add: MCS_deriveService_def configureInternalLoadBalancer_def metaKey_def split: option.splits bool.splits)

lemma MCS_service_wp:
  assumes "createOrUpdate_laws L" and "shown Mem hasMCSFinalizer h" and "answered (OMCS m) h" and "answered (OSI s) h"
    and "sis_Clusters (si_Status s) \<noteq> []" and "recordsDerived ns \<lparr>nn_Namespace = ns, nn_Name = nm\<rparr> h"
  shows "wp (MCS_guard L ns) (\<lambda>h' (er, x). (\<exists>k. h' = h @ k) \<and> (er = None \<longrightarrow> (\<exists>svc. x = OSVC svc \<and> answered (OSVC svc) h')))
    (LibCreateOrUpdate L Mem (OSVC (newService ns nm)) (MCS_ensureDerivedService m s)) h"
proof -
  have key: "metaKey (svc_ObjectMeta (newService ns nm)) = \<lparr>nn_Namespace = ns, nn_Name = nm\<rparr>"
    by (simp add: newService_def metaOf_def metaKey_def)
  have ex: "exposes (h @ k) (MCS_deriveService m s svc)" for k svc
    using assms(3-5) answered_mono unfolding exposes_def by blast
  have cr: "MCS_guard L ns (h @ k) (Create Mem (OSVC (MCS_deriveService m s (newService ns nm))))" for k
    using ex [of k "newService ns nm"] shown_mono [OF assms(2), of k] records_mono(2) [OF assms(6), of k]
    by (simp add: MCS_guard_def key)
  have up: "MCS_guard L ns (h @ [(Get Mem KService \<lparr>nn_Namespace = ns, nn_Name = nm\<rparr>, RObj (OSVC svc))]) (Update Mem (OSVC (MCS_deriveService m s svc)))" for svc
  proof -
    let ?h = "h @ [(Get Mem KService \<lparr>nn_Namespace = ns, nn_Name = nm\<rparr>, RObj (OSVC svc))]"
    have "\<exists>k svc0. recordsDerived ns k ?h \<and> (Get Mem KService k, RObj (OSVC svc0)) \<in> set ?h"
      by (intro exI [of _ "\<lparr>nn_Namespace = ns, nn_Name = nm\<rparr>"] exI [of _ svc]) (simp add: records_mono(2) [OF assms(6)])
    then show ?thesis using ex [of _ svc] shown_mono [OF assms(2)] by (simp add: MCS_guard_def)
  qed
  have doc: "LibCreateOrUpdate L Mem x f = createOrUpdateDoc Mem x f" for x f
    using assms(1) by (simp add: createOrUpdate_laws_def)
  show ?thesis
    unfolding doc createOrUpdateDoc_def
    by (auto simp: prog_simps MCS_ensureDerivedService_def kindOf_SVC cr up key answered_set split: sum.splits)
qed

lemma MCS_derive_wp:
  assumes "createOrUpdate_laws L" and "shown Mem hasMCSFinalizer h" and "answered (OMCS m) h" and "answered (OSI s) h"
    and "sis_Clusters (si_Status s) \<noteq> []" and "recordsDerived ns \<lparr>nn_Namespace = ns, nn_Name = nm\<rparr> h"
  shows "wp (MCS_guard L ns) (\<lambda>_ _. True) (MCS_derive L \<lparr>nn_Namespace = ns, nn_Name = nm\<rparr> m s) h"
proof -
  have st: "wp (MCS_guard L ns) (\<lambda>h' (er, m'). (\<exists>k'. h' = (h @ k) @ k') \<and> (er = None \<longrightarrow> answered (OMCS m') h'))
      (MCS_updateMultiClusterServiceStatus L m s svc) (h @ k)" if "answered (OSVC svc) (h @ k)" for svc k
    by (rule MCS_status_wp) (use assms(3-5) that in simp_all)
  show ?thesis
    unfolding MCS_derive_def Let_def NamespacedName.select_convs
    by (rule wp_bindI [OF MCS_service_wp [OF assms]])
      (auto simp: asSVC_def prog_simps split: option.splits intro!: wp_bindI [OF st])
qed

lemma MCS_derivedName_eq: "MCS_derivedName ns m = \<lparr>nn_Namespace = ns, nn_Name = nn_Name (MCS_derivedName ns m)\<rparr>"
  by (auto simp: MCS_derivedName_def MCS_derivedServiceFromLabel_def MCS_generateDerivedServiceName_def split: option.splits)

lemma MCS_expose_wp:
  assumes "createOrUpdate_laws L" and "shown Mem hasMCSFinalizer h" and "answered (OMCS m) h" and "answered (OSI s) h"
    and "sis_Clusters (si_Status s) \<noteq> []"
  shows "wp (MCS_guard L ns) (\<lambda>_ _. True) (MCS_expose L ns m s) h"
proof -
  let ?nm = "nn_Name (MCS_derivedName ns m)"
  have lab: "wp (MCS_guard L ns) (\<lambda>h' (er, m'). (\<exists>k. h' = (h @ [x]) @ k) \<and> (er = None \<longrightarrow> answered (OMCS m') h' \<and>
      recordsDerived ns \<lparr>nn_Namespace = ns, nn_Name = ?nm\<rparr> h')) (MCS_updateMultiClusterLabel m MultiClusterServiceLabelDerivedService ?nm) (h @ [x])" for x
    by (rule MCS_derivedLabel_wp [OF answered_mono [OF assms(3)]]) (auto simp: MCS_derivedName_def)
  have go: "wp (MCS_guard L ns) (\<lambda>_ _. True) (MCS_derive L (MCS_derivedName ns m) m1 s) (h @ k)"
    if "answered (OMCS m1) (h @ k)" "recordsDerived ns \<lparr>nn_Namespace = ns, nn_Name = ?nm\<rparr> (h @ k)" for m1 k
    by (subst MCS_derivedName_eq, rule MCS_derive_wp) (use assms that in simp_all)
  show ?thesis
    unfolding MCS_expose_def Let_def
    by (auto simp: prog_simps split: option.splits intro!: wp_bindI [OF lab] go)
qed

text \<open>The claim on the import.\<close>

lemma MCS_claimFailed_wp:
  assumes "answered (OMCS m) h"
  shows "wp (MCS_guard L ns) (\<lambda>_ _. True) (MCS_claimFailed L ns m n e) h"
proof -
  have inv: "wp (MCS_guard L ns) (\<lambda>_ _. True) (MCS_handleInvalidServiceImport L ns m (s\<lparr>si_Status := zeroSIStatus\<rparr>)) (h @ [(Get Mem KServiceImport n, RObj (OSI s))])"
    if "isServiceImportOwnedByOthers m s" for s
  proof (rule MCS_invalid_wp)
    show "unusable (h @ [(Get Mem KServiceImport n, RObj (OSI s))])"
      using that answered_mono [OF assms] answered_last unfolding unusable_def by blast
  qed (simp_all add: assms zeroSIStatus_def)
  show ?thesis
    by (auto simp: MCS_claimFailed_def prog_simps split: sum.splits option.splits intro!: wp_bindI [OF inv])
qed

lemma MCS_serviceImport_wp:
  assumes "createOrUpdate_laws L" and "owner_laws L" and "shown Mem hasMCSFinalizer h" and "answered (OMCS m) h" and "recordsImport n h"
  shows "wp (MCS_guard L ns) (\<lambda>h' (er, x). (\<exists>k. h' = h @ k) \<and> (er = None \<longrightarrow> (\<exists>s. x = OSI s \<and> answered (OSI s) h')))
    (LibCreateOrUpdate L Mem (OSI (newSI n)) (MCS_ensureServiceImport L m)) h"
proof -
  have key: "metaKey (si_ObjectMeta (newSI n)) = n" by (simp add: newSI_def metaOf_def metaKey_def)
  have own: "metaKey om = metaKey (si_ObjectMeta s)"
    "\<forall>r. find (\<lambda>r. or_Controller r = Some True) (om_OwnerReferences (si_ObjectMeta s)) = Some r \<longrightarrow> or_Name r = om_Name (mcs_ObjectMeta m)"
    if "LibSetControllerReference L (mcs_ObjectMeta m) (si_ObjectMeta s) = Inr om" for s om
    using assms(2) that unfolding owner_laws_def by (metis, metis sum.disc(2))
  have cr: "MCS_guard L ns (h @ k) (Create Mem (OSI ((newSI n)\<lparr>si_ObjectMeta := om\<rparr>)))"
    if "LibSetControllerReference L (mcs_ObjectMeta m) (si_ObjectMeta (newSI n)) = Inr om" for k om
    using own(1) [OF that] shown_mono [OF assms(3), of k] records_mono(1) [OF assms(5), of k] by (simp add: MCS_guard_def key)
  have up: "MCS_guard L ns (h @ [(Get Mem KServiceImport n, RObj (OSI s))]) (Update Mem (OSI (s\<lparr>si_ObjectMeta := om\<rparr>)))"
    if "LibSetControllerReference L (mcs_ObjectMeta m) (si_ObjectMeta s) = Inr om" for s om
  proof -
    let ?h = "h @ [(Get Mem KServiceImport n, RObj (OSI s))]"
    have "claims ?h (s\<lparr>si_ObjectMeta := om\<rparr>)"
      unfolding claims_def
      by (intro exI [of _ n] exI [of _ s] exI [of _ m] exI [of _ om] conjI records_mono assms answered_mono own [OF that] refl) simp
    then show ?thesis using shown_mono [OF assms(3)] by (simp add: MCS_guard_def)
  qed
  have doc: "LibCreateOrUpdate L Mem x f = createOrUpdateDoc Mem x f" for x f
    using assms(1) by (simp add: createOrUpdate_laws_def)
  show ?thesis
    unfolding doc createOrUpdateDoc_def
    by (auto simp: prog_simps MCS_ensureServiceImport_def kindOf_SI cr up key answered_set split: sum.splits)
qed

lemma MCS_import_wp:
  assumes "createOrUpdate_laws L" and "owner_laws L" and "shown Mem hasMCSFinalizer h" and "answered (OMCS m) h"
    and "nn_Namespace n = om_Namespace (mcs_ObjectMeta m)"
    and "\<forall>k. MCS_serviceImportFromLabel m = Some k \<longrightarrow> nn_Name k = nn_Name n \<or> gone Mem KServiceImport k h"
  shows "wp (MCS_guard L ns) (\<lambda>_ _. True) (MCS_import L ns m n) h"
proof -
  have n: "\<lparr>nn_Namespace = om_Namespace (mcs_ObjectMeta m), nn_Name = nn_Name n\<rparr> = n" using assms(5) by simp
  have imp: "wp (MCS_guard L ns) (\<lambda>h' (er, x). (\<exists>k'. h' = (h @ k) @ k') \<and> (er = None \<longrightarrow> (\<exists>s. x = OSI s \<and> answered (OSI s) h')))
    (LibCreateOrUpdate L Mem (OSI (newSI n)) (MCS_ensureServiceImport L m1)) (h @ k)" if "answered (OMCS m1) (h @ k)" "recordsImport n (h @ k)" for m1 k
    by (rule MCS_serviceImport_wp [OF assms(1,2) shown_mono [OF assms(3)] that])
  have fl: "wp (MCS_guard L ns) (\<lambda>_ _. True) (MCS_claimFailed L ns m1 n e) ((h @ k) @ k')" if "answered (OMCS m1) (h @ k)" for m1 k k' e
    by (rule MCS_claimFailed_wp [OF answered_mono [OF that]])
  have ex: "wp (MCS_guard L ns) (\<lambda>_ _. True) (MCS_expose L ns m1 s) ((h @ k) @ k')"
    if "answered (OMCS m1) (h @ k)" "answered (OSI s) ((h @ k) @ k')" "sis_Clusters (si_Status s) \<noteq> []" for m1 k k' s
    by (rule MCS_expose_wp [OF assms(1) _ answered_mono [OF that(1)] that(2,3)]) (simp add: shown_mono [OF assms(3)])
  have iv: "wp (MCS_guard L ns) (\<lambda>_ _. True) (MCS_handleInvalidServiceImport L ns m1 s) ((h @ k) @ k')"
    if "answered (OMCS m1) (h @ k)" "answered (OSI s) ((h @ k) @ k')" "sis_Clusters (si_Status s) = []" for m1 k k' s
    by (rule MCS_invalid_wp [OF answered_mono [OF that(1)] that(3)]) (use answered_mono [OF that(1)] that(2,3) in \<open>auto simp: unusable_def\<close>)
  show ?thesis
    unfolding MCS_import_def
    by (rule wp_bindI [OF MCS_importLabel_wp [OF assms(4,6)]], unfold n)
      (auto simp: Let_def asSI_def split: option.splits intro!: wp_bindI [OF imp] fl [simplified] ex [simplified] wp_bindI [OF iv [simplified]])
qed

lemma MCS_handleUpdate_wp:
  assumes "createOrUpdate_laws L" and "owner_laws L" and "shown Mem hasMCSFinalizer h" and "answered (OMCS m) h"
  shows "wp (MCS_guard L ns) (\<lambda>_ _. True) (MCS_handleUpdate L ns m) h"
proof -
  let ?n = "\<lparr>nn_Namespace = om_Namespace (mcs_ObjectMeta m), nn_Name = mcs_ServiceImport m\<rparr>"
  have go: "wp (MCS_guard L ns) (\<lambda>_ _. True) (MCS_import L ns m ?n) h"
    if "\<forall>k. MCS_serviceImportFromLabel m = Some k \<longrightarrow> nn_Name k = mcs_ServiceImport m"
    by (rule MCS_import_wp [OF assms]) (use that in auto)
  have go': "wp (MCS_guard L ns) (\<lambda>_ _. True) (MCS_import L ns m ?n) (h @ [(Delete Mem KServiceImport k, a)])"
    if "MCS_serviceImportFromLabel m = Some k" "deletedBy a" for k a
    by (rule MCS_import_wp [OF assms(1,2) shown_mono [OF assms(3)] answered_mono [OF assms(4)]]) (use that gone_deleted [OF that(2), of Mem KServiceImport k h "[]"] in auto)
  have del: "MCS_guard L ns h (Delete Mem KServiceImport k)" if "MCS_serviceImportFromLabel m = Some k" "nn_Name k \<noteq> mcs_ServiceImport m" for k
    using assms(4) that by (auto simp: MCS_guard_def)
  show ?thesis
    unfolding MCS_handleUpdate_def Let_def MCS_deleteServiceImport_def
    by (auto simp: prog_simps deletedBy_def split: option.splits intro!: go go' del)
qed

lemma MCS_handleDelete_wp:
  assumes "finalizer_laws L" and "answered (OMCS m) h" and "om_DeletionTimestamp (mcs_ObjectMeta m) \<noteq> None"
  shows "wp (MCS_guard L ns) (\<lambda>_ _. True) (MCS_handleDelete L ns m) h"
proof -
  let ?rem = "m\<lparr>mcs_ObjectMeta := LibRemoveFinalizer L (mcs_ObjectMeta m) multiClusterServiceFinalizer\<rparr>"
  have lb: "MCS_derivedServiceFromLabel ns ?rem = MCS_derivedServiceFromLabel ns m" "MCS_serviceImportFromLabel ?rem = MCS_serviceImportFromLabel m"
    by (rule fromLabel_cong; simp add: finalizer_laws_fields [OF assms(1)] metaKey_def)+
  have del: "MCS_guard L ns (h @ k) (Delete Mem KService n)" if "MCS_derivedServiceFromLabel ns m = Some n" for n k
    using answered_mono [OF assms(2), of k] assms(3) that by (auto simp: MCS_guard_def)
  have del2: "MCS_guard L ns (h @ k) (Delete Mem KServiceImport n)" if "MCS_serviceImportFromLabel m = Some n" for n k
    using answered_mono [OF assms(2), of k] assms(3) that by (auto simp: MCS_guard_def)
  have rem: "MCS_guard L ns (h @ k) (Update Mem (OMCS ?rem))"
    if "\<forall>n. MCS_derivedServiceFromLabel ns m = Some n \<longrightarrow> gone Mem KService n (h @ k)" "\<forall>n. MCS_serviceImportFromLabel m = Some n \<longrightarrow> gone Mem KServiceImport n (h @ k)" for k
    using that answered_mono [OF assms(2), of k] assms(3)
    by (auto simp: MCS_guard_def mcsUpdate_def keepsTrack_def allGone_def lb intro!: exI [of _ m])
  have g: "gone Mem kd n (h @ (Delete Mem kd n, a) # k)" "gone Mem kd n (h @ x # (Delete Mem kd n, a) # k)" if "deletedBy a" for kd n a x k
    by (rule gone_delete [OF that], simp)+
  show ?thesis
    unfolding MCS_handleDelete_def MCS_deleteServiceImport_def MCS_deleteDerivedService_def
    by (auto simp: prog_simps deletedBy_def decUpd_def split: option.splits sum.splits
        intro!: rem g del [of _ "[]", simplified] del2 [of _ "[]", simplified] del2)
qed

lemma MCS_Reconcile_wp:
  assumes "finalizer_laws L" and "createOrUpdate_laws L" and "owner_laws L"
  shows "wp (MCS_guard L ns) (\<lambda>_ _. True) (MCS_Reconcile L ns n) []"
proof -
  let ?add = "\<lambda>m. m\<lparr>mcs_ObjectMeta := LibAddFinalizer L (mcs_ObjectMeta m) multiClusterServiceFinalizer\<rparr>"
  have lb: "MCS_derivedServiceFromLabel ns (?add m) = MCS_derivedServiceFromLabel ns m" "MCS_serviceImportFromLabel (?add m) = MCS_serviceImportFromLabel m" for m
    by (rule fromLabel_cong; simp add: finalizer_laws_fields [OF assms(1)] metaKey_def)+
  have add: "MCS_guard L ns [(Get Mem KMultiClusterService n, RObj (OMCS m))] (Update Mem (OMCS (?add m)))" for m
    using mcsf.added [OF assms(1), of m] by (auto simp: MCS_guard_def mcsUpdate_def keepsTrack_def lb answered_def intro!: exI [of _ m])
  have up: "wp (MCS_guard L ns) (\<lambda>_ _. True) (MCS_handleUpdate L ns m1) [(Get Mem KMultiClusterService n, RObj (OMCS m)), (Update Mem (OMCS (?add m)), RObj (OMCS m1))]" for m m1
    by (rule MCS_handleUpdate_wp [OF assms(2,3) mcsf.shown_added [OF assms(1), of _ m m1]]) (auto simp: answered_set)
  have up': "wp (MCS_guard L ns) (\<lambda>_ _. True) (MCS_handleUpdate L ns m) [(Get Mem KMultiClusterService n, RObj (OMCS m))]"
    if "LibContainsFinalizer L (mcs_ObjectMeta m) multiClusterServiceFinalizer" for m
    by (rule MCS_handleUpdate_wp [OF assms(2,3) mcsf.shown_read [OF assms(1) that]]) (auto simp: answered_set)
  have dl: "wp (MCS_guard L ns) (\<lambda>_ _. True) (MCS_handleDelete L ns m) [(Get Mem KMultiClusterService n, RObj (OMCS m))]"
    if "om_DeletionTimestamp (mcs_ObjectMeta m) = Some t" for m t
    by (rule MCS_handleDelete_wp [OF assms(1)]) (use that in \<open>auto simp: answered_set\<close>)
  show ?thesis
    by (auto simp: MCS_Reconcile_def prog_simps decUpd_def add split: sum.splits option.splits intro!: up up' dl)
qed

section \<open>Properties\<close>

text \<open>C7. The protocol of the MultiClusterService controller: for all answers and at every point where the
  process may stop, it creates a ServiceImport or the derived service only after the finalizer and the
  label that names the object are on record, so that a later pass can find it; the derived service is
  derived from an import that was read and lists a cluster; an import whose controller is another
  MultiClusterService is not taken over; a label is changed or removed, and the finalizer is removed,
  only when the objects it stands for are gone; objects are deleted only under the names of the labels
  and for a reason; and the status shows the load balancer only of a derived service of a valid import.\<close>

theorem MCS_protocol:
  assumes "finalizer_laws L" and "createOrUpdate_laws L" and "owner_laws L" and "steps (MCS_Reconcile L ns n) tr p"
  shows "guarded (MCS_guard L ns) [] tr"
  by (rule wp_guarded [OF assms(4) MCS_Reconcile_wp [OF assms(1-3)]])

theorem MCS_protocol_witness:
  "guarded (MCS_guard refLib ''fleet-system'') [] (fst (play demoExposeAnswers (MCS_Reconcile refLib ''fleet-system'' (metaKey (mcs_ObjectMeta demoImporter))))) \<and>
   map snd (fst (play demoExposeAnswers (MCS_Reconcile refLib ''fleet-system'' (metaKey (mcs_ObjectMeta demoImporter))))) = demoExposeAnswers"
proof -
  let ?p = "MCS_Reconcile refLib ''fleet-system'' (metaKey (mcs_ObjectMeta demoImporter))"
  have "steps ?p (fst (play demoExposeAnswers ?p)) (snd (play demoExposeAnswers ?p))" by (rule play_trace_steps) simp
  from MCS_protocol [OF refLib_finalizer_laws refLib_createOrUpdate_laws refLib_owner_laws this]
  show ?thesis by (rule conjI) code_simp
qed

text \<open>The events of a derived service reach its MultiClusterService: whatever the service was before,
  the labels of the derived service lead the watch back to the MultiClusterService it is derived for, and
  services outside the reserved namespace lead nowhere.\<close>

theorem MCS_events_reach_owner:
  assumes "om_Namespace (mcs_ObjectMeta m) \<noteq> []" and "om_Name (mcs_ObjectMeta m) \<noteq> []"
  shows "MCS_serviceEventHandler ns (svc_ObjectMeta (MCS_deriveService m s svc)) =
    (if om_Namespace (svc_ObjectMeta svc) = ns then [metaKey (mcs_ObjectMeta m)] else [])"
proof -
  have "om_Labels (svc_ObjectMeta (configureInternalLoadBalancer m x)) = om_Labels (svc_ObjectMeta x)"
    "om_Namespace (svc_ObjectMeta (configureInternalLoadBalancer m x)) = om_Namespace (svc_ObjectMeta x)" for x
    by (simp_all add: configureInternalLoadBalancer_def split: option.splits bool.splits)
  with assms show ?thesis
    by (simp add: MCS_serviceEventHandler_def MCS_deriveService_def mgets_def metaKey_def Let_def)
qed

theorem MCS_events_reach_owner_witness:
  "MCS_serviceEventHandler ''fleet-system'' (svc_ObjectMeta (MCS_deriveService demoImporter demoExposed (newService ''fleet-system'' ''work-app-mcs''))) =
    [\<lparr>nn_Namespace = ''work'', nn_Name = ''app-mcs''\<rparr>]"
proof -
  have "om_Namespace (mcs_ObjectMeta demoImporter) \<noteq> []" "om_Name (mcs_ObjectMeta demoImporter) \<noteq> []"
    by (simp_all add: demoImporter_def metaOf_def)
  from MCS_events_reach_owner [OF this, of "''fleet-system''" demoExposed "newService ''fleet-system'' ''work-app-mcs''"]
  show ?thesis by (simp add: demoImporter_def metaOf_def newService_def metaKey_def)
qed

end
