(* ===== verification/Member_InternalMemberCluster.thy ===== *)
theory Member_InternalMemberCluster
  imports Observations
begin

text \<open>
  The two versions of the InternalMemberCluster controller
  (\<open>pkg/controllers/member/internalmembercluster/v1beta1\<close> and \<open>v1alpha1\<close>): an agent in a member cluster reports
  its heartbeat to the hub, and deletes its resources when the cluster leaves the fleet. The definitions of the
  v1alpha1 version have the prefix \<open>IMC1\<close>. The type of the condition is a constant of the fleet API and a
  parameter of the definitions.
\<close>

section \<open>The model\<close>

definition conditionReasonJoined :: string where
  "conditionReasonJoined = ''AgentJoined''"

definition conditionReasonLeft :: string where
  "conditionReasonLeft = ''AgentLeft''"

definition jitterPercent :: int where
  "jitterPercent = 10"

definition joinedCondition :: "string \<Rightarrow> InternalMemberCluster \<Rightarrow> bool \<Rightarrow> Condition" where
  "joinedCondition agentJoined imc joined =
     \<lparr>c_Type = agentJoined, c_Status = (if joined then ConditionTrue else ConditionFalse), c_ObservedGeneration = om_Generation (imc_ObjectMeta imc),
      c_LastTransitionTime = None, c_Reason = (if joined then conditionReasonJoined else conditionReasonLeft), c_Message = []\<rparr>"

subsection \<open>The clean-up\<close>

text \<open>
  Both clean-ups list the objects of a kind in all namespaces, delete those that are not yet being
  deleted, and wait until all are gone.
\<close>

definition IMC_deleteItem :: "Lib \<Rightarrow> kind \<Rightarrow> kobj \<Rightarrow> unit \<Rightarrow> (err + unit) op" where
  "IMC_deleteItem L kd x u =
     (if om_DeletionTimestamp (metaOfObj x) \<noteq> None then Ret (Inr ())
      else bindP (retryDo L (\<lambda>y. call (Delete Mem kd (metaKey (metaOfObj x))) (\<lambda>a. (decOk a, y))) x) (\<lambda>(er, _).
        case er of None \<Rightarrow> Ret (Inr ()) | Some e \<Rightarrow> if IsNotFound e then Ret (Inr ()) else Ret (Inl e)))"

definition decErr :: "kind \<Rightarrow> response \<Rightarrow> err option" where
  "decErr kd a = (case decObj kd a of Inl e \<Rightarrow> Some e | Inr _ \<Rightarrow> None)"

definition IMC_awaitItem :: "Lib \<Rightarrow> kind \<Rightarrow> kobj \<Rightarrow> unit \<Rightarrow> (err + unit) op" where
  "IMC_awaitItem L kd x u =
     bindP (WaitUntilObjectDeleted L (call (Get Mem kd (metaKey (metaOfObj x))) (decErr kd))) (\<lambda>er.
       case er of Some e \<Rightarrow> Ret (Inl e) | None \<Rightarrow> Ret (Inr ()))"

definition IMC_cleanup :: "Lib \<Rightarrow> kind \<Rightarrow> err option op" where
  "IMC_cleanup L kd =
     bindP (doList Mem kd (decObj kd) selAll) (\<lambda>l.
       case l of
         Inl e \<Rightarrow> Ret (Some e)
       | Inr items \<Rightarrow>
           bindP (forP items () (IMC_deleteItem L kd)) (\<lambda>r.
             case r of
               Inl er \<Rightarrow> Ret (Some er)
             | Inr _ \<Rightarrow>
                 bindP (forP items () (IMC_awaitItem L kd)) (\<lambda>r2. case r2 of Inl er \<Rightarrow> Ret (Some er) | Inr _ \<Rightarrow> Ret None)))"

definition IMC_cleanupMCSRelatedResources :: "Lib \<Rightarrow> err option op" where
  "IMC_cleanupMCSRelatedResources L = IMC_cleanup L KMultiClusterService"

definition IMC_cleanupServiceExportRelatedResources :: "Lib \<Rightarrow> err option op" where
  "IMC_cleanupServiceExportRelatedResources L = IMC_cleanup L KServiceExport"

definition IMC1_cleanupMCSRelatedResources :: "Lib \<Rightarrow> err option op" where
  "IMC1_cleanupMCSRelatedResources L = IMC_cleanup L KMultiClusterService"

text \<open>The list and the look-up are for the v1alpha1 version of the same objects, of which the metadata is used.\<close>

definition IMC1_cleanupServiceExportRelatedResources :: "Lib \<Rightarrow> err option op" where
  "IMC1_cleanupServiceExportRelatedResources L = IMC_cleanup L KServiceExport"

text \<open>The order of a leave: the clean-up for the type of the agent, then the report.\<close>

definition IMC_leave :: "AgentType \<Rightarrow> err option op \<Rightarrow> err option op \<Rightarrow> outcome op \<Rightarrow> outcome op" where
  "IMC_leave agentType cleanupMCS cleanupServiceExport report =
     bindP (if agentType = MultiClusterServiceAgent then cleanupMCS else Ret None) (\<lambda>er.
       case er of
         Some e \<Rightarrow> Ret (emptyResult, Some e)
       | None \<Rightarrow>
           bindP (if agentType = ServiceExportImportAgent then cleanupServiceExport else Ret None) (\<lambda>er2.
             case er2 of Some e \<Rightarrow> Ret (emptyResult, Some e) | None \<Rightarrow> report))"

subsection \<open>The heartbeat\<close>

text \<open>
  The interval is an \<open>int32\<close> of milliseconds, and the random number of \<open>rand.Int63nRange\<close> panics on an empty
  range.
\<close>

definition hbInterval :: "int \<Rightarrow> int" where
  "hbInterval period = wrap32 (1000 * period)"

definition jitterRange :: "int \<Rightarrow> int" where
  "jitterRange period = quot (wrap32 (hbInterval period * jitterPercent)) 100"

definition requeueDuration :: "int \<Rightarrow> int \<Rightarrow> int" where
  "requeueDuration period r = wrap64 (1000000 * wrap64 (hbInterval period + (r - quot (jitterRange period) 2)))"

definition IMC_requeue :: "InternalMemberCluster \<Rightarrow> outcome op" where
  "IMC_requeue imc =
     (let period = imc_HeartbeatPeriodSeconds imc in
      if jitterRange period \<le> 0 then Panic ''invalid argument to Int63n''
      else bindP (call (RandInt63nRange 0 (jitterRange period)) decInt) (\<lambda>r. Ret (emptyResult\<lparr>res_RequeueAfter := requeueDuration period r\<rparr>, None)))"

subsection \<open>The v1beta1 controller\<close>

definition IMC_sendStatus :: "InternalMemberCluster \<Rightarrow> err option op" where
  "IMC_sendStatus imc =
     bindP (doStatusUpdate Hub OIMC decIMC imc) (\<lambda>(er, _).
       case er of Some e \<Rightarrow> if IsConflict e then Ret None else Ret (Some e) | None \<Rightarrow> Ret None)"

definition IMC_updateAgentStatus :: "Lib \<Rightarrow> string \<Rightarrow> AgentType \<Rightarrow> InternalMemberCluster \<Rightarrow> err option op" where
  "IMC_updateAgentStatus L agentJoined agentType imc =
     (let (as, i) = LibGetAgentStatus L agentType (imc_AgentStatus imc); joined = (imc_State imc = StateJoin);
          a = (as ! i)\<lparr>as_Conditions := LibSetStatusCondition L (as_Conditions (as ! i)) (joinedCondition agentJoined imc joined)\<rparr> in
      if joined then
        bindP timeNow (\<lambda>now. IMC_sendStatus (imc\<lparr>imc_AgentStatus := as[i := a\<lparr>as_LastReceivedHeartbeat := Some now\<rparr>]\<rparr>))
      else IMC_sendStatus (imc\<lparr>imc_AgentStatus := as[i := a]\<rparr>))"

definition IMC_afterCleanup :: "Lib \<Rightarrow> string \<Rightarrow> AgentType \<Rightarrow> InternalMemberCluster \<Rightarrow> outcome op" where
  "IMC_afterCleanup L agentJoined agentType imc = bindP (IMC_updateAgentStatus L agentJoined agentType imc) (\<lambda>er. Ret (emptyResult, er))"

definition IMC_Reconcile :: "Lib \<Rightarrow> string \<Rightarrow> AgentType \<Rightarrow> NamespacedName \<Rightarrow> outcome op" where
  "IMC_Reconcile L agentJoined agentType req =
     bindP (getIMC Hub req) (\<lambda>g.
       case g of
         Inl e \<Rightarrow> if IsNotFound e then Ret (emptyResult, None) else Ret (emptyResult, Some e)
       | Inr imc \<Rightarrow>
           (case imc_State imc of
              StateLeave \<Rightarrow>
                IMC_leave agentType (IMC_cleanupMCSRelatedResources L) (IMC_cleanupServiceExportRelatedResources L)
                  (IMC_afterCleanup L agentJoined agentType imc)
            | StateJoin \<Rightarrow>
                bindP (IMC_updateAgentStatus L agentJoined agentType imc) (\<lambda>er.
                  case er of Some e \<Rightarrow> Ret (emptyResult, Some e) | None \<Rightarrow> IMC_requeue imc)
            | StateOther _ \<Rightarrow> Ret (emptyResult, None)))"

subsection \<open>The v1alpha1 controller\<close>

definition findAgentStatus :: "AgentStatus list \<Rightarrow> AgentType \<Rightarrow> nat option" where
  "findAgentStatus status agentType = find (\<lambda>i. as_Type (status ! i) = agentType) [0..<length status]"

primrec stampConditions :: "Condition list \<Rightarrow> Condition list op" where
  "stampConditions [] = Ret []"
| "stampConditions (c # cs) =
     bindP (if c_LastTransitionTime c = None then bindP timeNow (\<lambda>now. Ret (c\<lparr>c_LastTransitionTime := Some now\<rparr>)) else Ret c) (\<lambda>d.
       bindP (stampConditions cs) (\<lambda>ds. Ret (d # ds)))"

definition setAgentStatus :: "Lib \<Rightarrow> AgentStatus list \<Rightarrow> AgentStatus \<Rightarrow> AgentStatus list op" where
  "setAgentStatus L status newStatus =
     (case findAgentStatus status (as_Type newStatus) of
        None \<Rightarrow> bindP (stampConditions (as_Conditions newStatus)) (\<lambda>cs. Ret (status @ [newStatus\<lparr>as_Conditions := cs\<rparr>]))
      | Some i \<Rightarrow> Ret (status[i := (status ! i)\<lparr>
          as_Conditions := foldl (LibSetStatusCondition L) (as_Conditions (status ! i)) (as_Conditions newStatus),
          as_LastReceivedHeartbeat := as_LastReceivedHeartbeat newStatus\<rparr>]))"

definition IMC1_updateAgentStatus :: "Lib \<Rightarrow> InternalMemberCluster \<Rightarrow> AgentStatus \<Rightarrow> err option op" where
  "IMC1_updateAgentStatus L imc desiredAgentStatus =
     bindP (setAgentStatus L (imc_AgentStatus imc) desiredAgentStatus) (\<lambda>as.
       bindP (doStatusUpdate Hub OIMC decIMC (imc\<lparr>imc_AgentStatus := as\<rparr>)) (\<lambda>(er, _). Ret er))"

definition IMC1_Reconcile :: "Lib \<Rightarrow> string \<Rightarrow> AgentType \<Rightarrow> NamespacedName \<Rightarrow> outcome op" where
  "IMC1_Reconcile L agentJoined agentType req =
     bindP (getIMC Hub req) (\<lambda>g.
       case g of
         Inl e \<Rightarrow> if IsNotFound e then Ret (emptyResult, None) else Ret (emptyResult, Some e)
       | Inr imc \<Rightarrow>
           (case imc_State imc of
              StateJoin \<Rightarrow>
                bindP timeNow (\<lambda>now.
                bindP (IMC1_updateAgentStatus L imc
                    \<lparr>as_Type = agentType, as_Conditions = [joinedCondition agentJoined imc True], as_LastReceivedHeartbeat = Some now\<rparr>) (\<lambda>er.
                  case er of Some e \<Rightarrow> Ret (emptyResult, Some e) | None \<Rightarrow> IMC_requeue imc))
            | StateLeave \<Rightarrow>
                IMC_leave agentType (IMC1_cleanupMCSRelatedResources L) (IMC1_cleanupServiceExportRelatedResources L)
                  (bindP (IMC1_updateAgentStatus L imc
                      \<lparr>as_Type = agentType, as_Conditions = [joinedCondition agentJoined imc False], as_LastReceivedHeartbeat = None\<rparr>)
                    (\<lambda>er. Ret (emptyResult, er)))
            | StateOther _ \<Rightarrow> Ret (emptyResult, None)))"

section \<open>What is said of the controllers\<close>

text \<open>The resources of an agent.\<close>

definition kindsOf :: "AgentType \<Rightarrow> kind list" where
  "kindsOf ag = (case ag of MemberAgent \<Rightarrow> [] | MultiClusterServiceAgent \<Rightarrow> [KMultiClusterService] | ServiceExportImportAgent \<Rightarrow> [KServiceExport])"

definition cleanedUp :: "AgentType \<Rightarrow> trace \<Rightarrow> bool" where
  "cleanedUp ag h \<longleftrightarrow> (\<forall>kd \<in> set (kindsOf ag). \<exists>os. listed Mem kd selAll os h \<and> (\<forall>x \<in> set os. absent Mem kd (metaKey (metaOfObj x)) h))"

text \<open>
  The status that an agent reports: it joined, with a heartbeat read from the clock, while the cluster is in
  the fleet; it left, when the cluster leaves and the API server does not have its resources any more. The status of other agents is kept.
\<close>

definition reportsAgent :: "Lib \<Rightarrow> string \<Rightarrow> AgentType \<Rightarrow> trace \<Rightarrow> InternalMemberCluster \<Rightarrow> InternalMemberCluster \<Rightarrow> bool" where
  "reportsAgent L agentJoined ag h imc0 imc \<longleftrightarrow>
     imc = imc0\<lparr>imc_AgentStatus := imc_AgentStatus imc\<rparr> \<and>
     filter (\<lambda>a. as_Type a \<noteq> ag) (imc_AgentStatus imc) = filter (\<lambda>a. as_Type a \<noteq> ag) (imc_AgentStatus imc0) \<and>
     (\<exists>a c. a \<in> set (imc_AgentStatus imc) \<and> as_Type a = ag \<and> LibFindStatusCondition L (as_Conditions a) agentJoined = Some c \<and>
        c_ObservedGeneration c = om_Generation (imc_ObjectMeta imc0) \<and>
        (case imc_State imc0 of
           StateJoin \<Rightarrow> c_Status c = ConditionTrue \<and> (\<exists>r. (Now, r) \<in> set h \<and> as_LastReceivedHeartbeat a = Some (decTime r))
         | StateLeave \<Rightarrow> c_Status c = ConditionFalse \<and> cleanedUp ag h
         | StateOther _ \<Rightarrow> False))"

definition IMC_guard :: "Lib \<Rightarrow> string \<Rightarrow> AgentType \<Rightarrow> trace \<Rightarrow> request \<Rightarrow> bool" where
  "IMC_guard L agentJoined ag h q \<longleftrightarrow>
     (case q of
        Delete cl kd n \<Rightarrow> cl = Mem \<and> kd \<in> set (kindsOf ag) \<and> (\<exists>imc. answered (OIMC imc) h \<and> imc_State imc = StateLeave) \<and>
          (\<exists>os x. listed Mem kd selAll os h \<and> x \<in> set os \<and> n = metaKey (metaOfObj x) \<and> om_DeletionTimestamp (metaOfObj x) = None)
      | StatusUpdate cl x \<Rightarrow> cl = Hub \<and> (\<exists>imc0 imc. answered (OIMC imc0) h \<and> x = OIMC imc \<and> reportsAgent L agentJoined ag h imc0 imc)
      | Create cl x \<Rightarrow> False
      | Update cl x \<Rightarrow> False
      | _ \<Rightarrow> True)"

text \<open>Objects and answers for the examples.\<close>

definition demoMembership :: "ClusterState \<Rightarrow> InternalMemberCluster" where
  "demoMembership s = \<lparr>imc_ObjectMeta = (metaOf ''fleet-member-c1'' ''c1'')\<lparr>om_Generation := 3\<rparr>, imc_State = s, imc_HeartbeatPeriodSeconds = 60,
     imc_AgentStatus = [\<lparr>as_Type = MemberAgent, as_Conditions = [], as_LastReceivedHeartbeat = None\<rparr>]\<rparr>"

definition demoService :: kobj where
  "demoService = OMCS \<lparr>mcs_TypeMeta = zeroType, mcs_ObjectMeta = metaOf ''work'' ''m1'', mcs_ServiceImport = ''app'', mcs_LoadBalancer = [], mcs_Conditions = []\<rparr>"

definition demoLeaveAnswers :: "response list" where
  "demoLeaveAnswers = [RObj (OIMC (demoMembership StateLeave)), RObjs [demoService], RErr (StatusErr ReasonTimeout [] []), ROk, RObj demoService, notFound,
     RObj (OIMC (demoMembership StateLeave))]"

section \<open>Lemmas\<close>

subsection \<open>The clean-up\<close>

lemma IMC_guard_other [simp]:
  "IMC_guard L j ag h (Get c kd n)" "IMC_guard L j ag h (ListObjs c kd sel)" "IMC_guard L j ag h Now" "IMC_guard L j ag h (RandInt63nRange a b)"
  by (simp_all add: IMC_guard_def)

lemma wp_backoffLoop:
  assumes "\<And>h. G h q"
  shows "wp G (\<lambda>h' r. fst r = None \<longrightarrow> (\<exists>a e. (q, a) \<in> set h' \<and> dec a = Some e \<and> IsNotFound e)) (backoffLoop n te (waitCondition (call q dec)) s) h"
proof (induction n arbitrary: s h)
  case (Suc n)
  then show ?case using assms by (auto simp: waitCondition_def [of "call q dec"] wp_simps wp_call split: option.splits)
qed simp

lemma wp_WaitUntilObjectDeleted:
  assumes "backoff_laws L" and "\<And>h. G h q"
  shows "wp G (\<lambda>h' r. r = None \<longrightarrow> (\<exists>a e. (q, a) \<in> set h' \<and> dec a = Some e \<and> IsNotFound e)) (WaitUntilObjectDeleted L (call q dec)) h"
proof -
  let ?b = "\<lparr>bo_Steps = 5, bo_DurationMillis = 500, bo_FactorTenths = 16, bo_JitterTenths = 2, bo_CapMillis = 5000\<rparr>"
  obtain n te where n: "LibExponentialBackoff L ?b (waitCondition (call q dec)) None = backoffLoop n te (waitCondition (call q dec)) None"
    using assms(1) unfolding backoff_laws_def by blast
  show ?thesis
    unfolding WaitUntilObjectDeleted_def n
    by (rule wp_bindI [OF wp_backoffLoop [where G = G and q = q, OF assms(2)]]) (auto split: option.splits, blast+)
qed

lemma decErr_NotFound: "decErr kd a = Some e \<Longrightarrow> IsNotFound e \<Longrightarrow> a = RErr e"
  by (auto simp: decErr_def decObj_NotFound split: sum.splits)

lemma IMC_deleteItem_wp:
  assumes "retry_laws L" and "om_DeletionTimestamp (metaOfObj x) = None \<Longrightarrow> \<forall>k. IMC_guard L j ag (h @ k) (Delete Mem kd (metaKey (metaOfObj x)))"
  shows "wp (IMC_guard L j ag) (\<lambda>_ _. True) (IMC_deleteItem L kd x u) h"
  unfolding IMC_deleteItem_def
  by (auto split: option.splits prod.splits intro!: wp_bindI [OF wp_retry_delete [OF assms(1)]] assms(2) [rule_format])

lemma IMC_awaitItem_wp:
  assumes "backoff_laws L"
  shows "wp (IMC_guard L j ag) (\<lambda>h' r. r = Inr () \<longrightarrow> absent Mem kd (metaKey (metaOfObj x)) h') (IMC_awaitItem L kd x u) h"
  unfolding IMC_awaitItem_def
  by (rule wp_bindI [OF wp_WaitUntilObjectDeleted [OF assms]]) (auto simp: absent_def dest: decErr_NotFound split: option.splits)

lemma decList_decObj: "decList (decObj kd) a = Inr xs \<Longrightarrow> a = RObjs xs"
proof -
  assume "decList (decObj kd) a = Inr xs"
  then obtain os where os: "a = RObjs os" "list_all2 (\<lambda>o1 x. decObj kd (RObj o1) = Inr x) os xs" by (auto simp: decList_Inr)
  have "list_all2 (=) os xs" by (rule list_all2_mono [OF os(2)]) (simp add: decObj_def split: if_splits)
  with os(1) show ?thesis by (simp add: list.rel_eq)
qed

lemma IMC_cleanup_wp:
  assumes rl: "retry_laws L" and bl: "backoff_laws L" and kd: "kd \<in> set (kindsOf ag)" and imc: "answered (OIMC imc) h" "imc_State imc = StateLeave"
  shows "wp (IMC_guard L j ag) (\<lambda>h' r. (r = None \<longrightarrow> (\<exists>os. listed Mem kd selAll os h' \<and> (\<forall>x \<in> set os. absent Mem kd (metaKey (metaOfObj x)) h'))) \<and> (\<exists>k. h' = h @ k))
    (IMC_cleanup L kd) h"
proof (rule wp_ext)
  let ?l = "\<lambda>xs. (ListObjs Mem kd selAll, RObjs xs)"
  have del: "wp (IMC_guard L j ag) (\<lambda>h' r. \<exists>k. h' = (h @ [?l xs]) @ k) (forP xs () (IMC_deleteItem L kd)) (h @ [?l xs])" for xs
  proof (rule wp_forP [where I = "\<lambda>h' _. \<exists>k. h' = (h @ [?l xs]) @ k"])
    fix x s h'
    assume x: "x \<in> set xs" and "\<exists>k. h' = (h @ [?l xs]) @ k"
    then obtain k where k: "h' = (h @ [?l xs]) @ k" by blast
    have g: "IMC_guard L j ag (h' @ k') (Delete Mem kd (metaKey (metaOfObj x)))" if "om_DeletionTimestamp (metaOfObj x) = None" for k'
    proof -
      have "listed Mem kd selAll xs (h' @ k')" by (simp add: k listed_def)
      moreover have "answered (OIMC imc) (h' @ k')" unfolding k by (intro answered_mono imc(1))
      ultimately show ?thesis using x that kd imc(2) unfolding IMC_guard_def request.case by blast
    qed
    show "wp (IMC_guard L j ag) (\<lambda>h' r. case r of Inl a \<Rightarrow> \<exists>k. h' = (h @ [?l xs]) @ k | Inr s' \<Rightarrow> \<exists>k. h' = (h @ [?l xs]) @ k) (IMC_deleteItem L kd x s) h'"
      by (rule wp_conseq [OF wp_ext [OF IMC_deleteItem_wp [OF rl]]]) (use g in \<open>auto simp: k split: sum.splits\<close>)
  qed auto
  have wait: "wp (IMC_guard L j ag) (\<lambda>h' r. case r of Inl _ \<Rightarrow> True | Inr _ \<Rightarrow> \<forall>x \<in> set xs. absent Mem kd (metaKey (metaOfObj x)) h') (forP xs () (IMC_awaitItem L kd)) h1" for xs h1
  proof (rule wp_forP_prefix [where I = "\<lambda>pre h' _. \<forall>x \<in> set pre. absent Mem kd (metaKey (metaOfObj x)) h'"])
    fix pre x post s h'
    assume I: "\<forall>x \<in> set pre. absent Mem kd (metaKey (metaOfObj x)) h'"
    show "wp (IMC_guard L j ag) (\<lambda>h' r. case r of Inl a \<Rightarrow> (case Inl a of Inl _ \<Rightarrow> True | Inr _ \<Rightarrow> \<forall>x \<in> set xs. absent Mem kd (metaKey (metaOfObj x)) h')
        | Inr s' \<Rightarrow> \<forall>x \<in> set (pre @ [x]). absent Mem kd (metaKey (metaOfObj x)) h') (IMC_awaitItem L kd x s) h'"
      by (rule wp_conseq [OF wp_ext [OF IMC_awaitItem_wp [OF bl]]]) (use I in \<open>auto split: sum.splits\<close>)
  qed auto
  have body: "wp (IMC_guard L j ag) (\<lambda>h' r. r = None \<longrightarrow> (\<exists>os. listed Mem kd selAll os h' \<and> (\<forall>x \<in> set os. absent Mem kd (metaKey (metaOfObj x)) h')))
      (bindP (forP xs () (IMC_deleteItem L kd)) (\<lambda>r. case r of Inl er \<Rightarrow> Ret (Some er) | Inr _ \<Rightarrow>
         bindP (forP xs () (IMC_awaitItem L kd)) (\<lambda>r2. case r2 of Inl er \<Rightarrow> Ret (Some er) | Inr _ \<Rightarrow> Ret None))) (h @ [?l xs])" for xs
  proof (rule wp_bindI [OF del])
    fix h1 r
    assume "\<exists>k. h1 = (h @ [?l xs]) @ k"
    then have "listed Mem kd selAll xs (h1 @ k)" for k by (auto simp: listed_def)
    then show "wp (IMC_guard L j ag) (\<lambda>h' r. r = None \<longrightarrow> (\<exists>os. listed Mem kd selAll os h' \<and> (\<forall>x \<in> set os. absent Mem kd (metaKey (metaOfObj x)) h')))
        (case r of Inl er \<Rightarrow> Ret (Some er) | Inr _ \<Rightarrow> bindP (forP xs () (IMC_awaitItem L kd)) (\<lambda>r2. case r2 of Inl er \<Rightarrow> Ret (Some er) | Inr _ \<Rightarrow> Ret None)) h1"
      by (auto split: sum.splits intro!: wp_bindI [OF wp_ext [OF wait]] exI [of _ xs])
  qed
  show "wp (IMC_guard L j ag) (\<lambda>h' r. r = None \<longrightarrow> (\<exists>os. listed Mem kd selAll os h' \<and> (\<forall>x \<in> set os. absent Mem kd (metaKey (metaOfObj x)) h'))) (IMC_cleanup L kd) h"
    using body by (auto simp: IMC_cleanup_def prog_simps dest!: decList_decObj split: sum.splits)
qed

subsection \<open>The status\<close>

lemma joinedCondition_fields [simp]:
  "c_Type (joinedCondition j imc b) = j" "c_Status (joinedCondition j imc b) = (if b then ConditionTrue else ConditionFalse)"
  "c_ObservedGeneration (joinedCondition j imc b) = om_Generation (imc_ObjectMeta imc)"
  by (simp_all add: joinedCondition_def)

text \<open>The entry of the agent at index \<open>i\<close>, with the condition set.\<close>

lemma reportsAgent_entry:
  assumes "condition_laws L" and "i < length as" and "as_Type (as ! i) = ag" and "as_Type a = ag"
    and "as = imc_AgentStatus imc0 \<or> (\<exists>b. as = imc_AgentStatus imc0 @ [b] \<and> as_Type b = ag)"
    and "LibFindStatusCondition L (as_Conditions a) j = Some c" and "c_ObservedGeneration c = om_Generation (imc_ObjectMeta imc0)"
    and "case imc_State imc0 of StateJoin \<Rightarrow> c_Status c = ConditionTrue \<and> (\<exists>r. (Now, r) \<in> set h \<and> as_LastReceivedHeartbeat a = Some (decTime r))
      | StateLeave \<Rightarrow> c_Status c = ConditionFalse \<and> cleanedUp ag h | StateOther _ \<Rightarrow> False"
  shows "reportsAgent L j ag h imc0 (imc0\<lparr>imc_AgentStatus := as[i := a]\<rparr>)"
proof -
  let ?P = "\<lambda>a. as_Type a \<noteq> ag"
  have "filter ?P as = filter ?P (take i as @ as ! i # drop (Suc i) as)" by (rule arg_cong [OF id_take_nth_drop [OF assms(2)]])
  then have "filter ?P (as[i := a]) = filter ?P as" using assms(3,4) by (simp add: upd_conv_take_nth_drop [OF assms(2)])
  also have "\<dots> = filter ?P (imc_AgentStatus imc0)" using assms(5) by auto
  finally have others: "filter ?P (as[i := a]) = filter ?P (imc_AgentStatus imc0)" .
  have "a \<in> set (as[i := a])" using assms(2) by (rule set_update_memI)
  with assms(4,6-8) have "\<exists>a' c. a' \<in> set (as[i := a]) \<and> as_Type a' = ag \<and> LibFindStatusCondition L (as_Conditions a') j = Some c \<and>
      c_ObservedGeneration c = om_Generation (imc_ObjectMeta imc0) \<and>
      (case imc_State imc0 of StateJoin \<Rightarrow> c_Status c = ConditionTrue \<and> (\<exists>r. (Now, r) \<in> set h \<and> as_LastReceivedHeartbeat a' = Some (decTime r))
       | StateLeave \<Rightarrow> c_Status c = ConditionFalse \<and> cleanedUp ag h | StateOther _ \<Rightarrow> False)" by blast
  with others show ?thesis by (simp add: reportsAgent_def)
qed

lemma guard_report:
  "answered (OIMC imc0) h \<Longrightarrow> reportsAgent L j ag h imc0 imc \<Longrightarrow> IMC_guard L j ag h (StatusUpdate Hub (OIMC imc))"
  unfolding IMC_guard_def request.case by blast

lemma agent_lawsD:
  assumes "agent_laws L" and "LibGetAgentStatus L ag as = (bs, i)"
  shows "i < length bs" and "as_Type (bs ! i) = ag" and "bs = as \<or> (\<exists>b. bs = as @ [b] \<and> as_Type b = ag)"
proof -
  have *: "i < length bs \<and> as_Type (bs ! i) = ag \<and> (bs = as \<or> (\<exists>b. bs = as @ [b]) \<and> (\<forall>a \<in> set as. as_Type a \<noteq> ag))"
    using assms unfolding agent_laws_def by blast
  then show "i < length bs" "as_Type (bs ! i) = ag" by simp_all
  show "bs = as \<or> (\<exists>b. bs = as @ [b] \<and> as_Type b = ag)"
  proof (cases "bs = as")
    case False
    with * obtain b where b: "bs = as @ [b]" "\<forall>a \<in> set as. as_Type a \<noteq> ag" by blast
    with * have "i = length as" by (metis length_append_singleton less_Suc_eq nth_append nth_mem)
    with * b(1) show ?thesis by simp
  qed simp
qed

lemma IMC_updateAgentStatus_wp:
  assumes cl: "condition_laws L" and al: "agent_laws L" and imc: "answered (OIMC imc) h"
    and st: "imc_State imc = StateJoin \<or> imc_State imc = StateLeave \<and> cleanedUp ag h"
  shows "wp (IMC_guard L j ag) (\<lambda>_ _. True) (IMC_updateAgentStatus L j ag imc) h"
proof -
  obtain as i where g: "LibGetAgentStatus L ag (imc_AgentStatus imc) = (as, i)" by force
  note law = agent_lawsD [OF al g]
  let ?a = "\<lambda>b. (as ! i)\<lparr>as_Conditions := LibSetStatusCondition L (as_Conditions (as ! i)) (joinedCondition j imc b)\<rparr>"
  have cond: "\<exists>u. LibFindStatusCondition L (as_Conditions (?a b)) j = Some ((joinedCondition j imc b)\<lparr>c_LastTransitionTime := u\<rparr>)" for b
    using condition_lawsD(2) [OF cl, of _ "joinedCondition j imc b"] by simp
  have send: "wp (IMC_guard L j ag) (\<lambda>_ _. True) (IMC_sendStatus x) h'" if "IMC_guard L j ag h' (StatusUpdate Hub (OIMC x))" for x h'
    using that by (auto simp: IMC_sendStatus_def prog_simps decUpd_def split: sum.splits)
  have "IMC_guard L j ag (h @ [(Now, r)]) (StatusUpdate Hub (OIMC (imc\<lparr>imc_AgentStatus := as[i := (?a True)\<lparr>as_LastReceivedHeartbeat := Some (decTime r)\<rparr>]\<rparr>)))"
    if "imc_State imc = StateJoin" for r
  proof -
    obtain u where u: "LibFindStatusCondition L (as_Conditions (?a True)) j = Some ((joinedCondition j imc True)\<lparr>c_LastTransitionTime := u\<rparr>)" using cond by blast
    show ?thesis by (rule guard_report [OF answered_mono [OF imc] reportsAgent_entry [OF cl law(1,2) _ law(3)]]) (use u that law(2) in \<open>auto\<close>)
  qed
  moreover have "IMC_guard L j ag h (StatusUpdate Hub (OIMC (imc\<lparr>imc_AgentStatus := as[i := ?a False]\<rparr>)))" if "imc_State imc = StateLeave"
  proof -
    obtain u where u: "LibFindStatusCondition L (as_Conditions (?a False)) j = Some ((joinedCondition j imc False)\<lparr>c_LastTransitionTime := u\<rparr>)" using cond by blast
    show ?thesis by (rule guard_report [OF imc reportsAgent_entry [OF cl law(1,2) _ law(3)]]) (use u that law(2) st in \<open>auto\<close>)
  qed
  ultimately show ?thesis
    using st by (auto simp: IMC_updateAgentStatus_def g Let_def prog_simps intro!: send)
qed

lemma findAgentStatus_Some: "findAgentStatus as ag = Some i \<Longrightarrow> i < length as \<and> as_Type (as ! i) = ag"
  by (auto simp: findAgentStatus_def find_Some_iff)

lemma IMC1_updateAgentStatus_wp:
  assumes cl: "condition_laws L" and imc: "answered (OIMC imc) h" and ty: "as_Type n = ag" and cs: "as_Conditions n = [joinedCondition j imc b]"
    and st: "case imc_State imc of StateJoin \<Rightarrow> b \<and> (\<exists>r. (Now, r) \<in> set h \<and> as_LastReceivedHeartbeat n = Some (decTime r))
      | StateLeave \<Rightarrow> \<not> b \<and> cleanedUp ag h | StateOther _ \<Rightarrow> False"
  shows "wp (IMC_guard L j ag) (\<lambda>_ _. True) (IMC1_updateAgentStatus L imc n) h"
proof -
  have send: "wp (IMC_guard L j ag) (\<lambda>_ _. True) (bindP (doStatusUpdate Hub OIMC decIMC x) (\<lambda>(er, _). Ret er)) h'" if "IMC_guard L j ag h' (StatusUpdate Hub (OIMC x))" for x h'
    using that by (simp add: prog_simps case_prod_unfold)
  have mono: "cleanedUp ag h \<Longrightarrow> cleanedUp ag (h @ k)" for k unfolding cleanedUp_def by (meson absent_mono listed_mono)
  show ?thesis
  proof (cases "findAgentStatus (imc_AgentStatus imc) ag")
    case None
    let ?n = "\<lambda>r. n\<lparr>as_Conditions := [(joinedCondition j imc b)\<lparr>c_LastTransitionTime := Some (decTime r)\<rparr>]\<rparr>"
    have "reportsAgent L j ag (h @ [(Now, r)]) imc (imc\<lparr>imc_AgentStatus := (imc_AgentStatus imc @ [?n r])[length (imc_AgentStatus imc) := ?n r]\<rparr>)" for r
      by (rule reportsAgent_entry [OF cl, where c = "(joinedCondition j imc b)\<lparr>c_LastTransitionTime := Some (decTime r)\<rparr>"])
        (use ty st mono in \<open>auto simp: condition_lawsD(1) [OF cl] split: ClusterState.splits\<close>)
    then have "IMC_guard L j ag (h @ [(Now, r)]) (StatusUpdate Hub (OIMC (imc\<lparr>imc_AgentStatus := imc_AgentStatus imc @ [?n r]\<rparr>)))" for r
      by (intro guard_report [OF answered_mono [OF imc]]) simp
    then show ?thesis
      using cs by (auto simp: IMC1_updateAgentStatus_def setAgentStatus_def ty None prog_simps joinedCondition_def case_prod_unfold)
  next
    case (Some i)
    let ?a = "(imc_AgentStatus imc ! i)\<lparr>as_Conditions := LibSetStatusCondition L (as_Conditions (imc_AgentStatus imc ! i)) (joinedCondition j imc b),
      as_LastReceivedHeartbeat := as_LastReceivedHeartbeat n\<rparr>"
    obtain u where u: "LibFindStatusCondition L (as_Conditions ?a) j = Some ((joinedCondition j imc b)\<lparr>c_LastTransitionTime := u\<rparr>)"
      using condition_lawsD(2) [OF cl, of _ "joinedCondition j imc b"] by auto
    have "reportsAgent L j ag h imc (imc\<lparr>imc_AgentStatus := (imc_AgentStatus imc)[i := ?a]\<rparr>)"
      by (rule reportsAgent_entry [OF cl _ _ _ _ u]) (use findAgentStatus_Some [OF Some] st in \<open>auto split: ClusterState.splits\<close>)
    from send [OF guard_report [OF imc this]] show ?thesis by (simp add: IMC1_updateAgentStatus_def setAgentStatus_def ty Some cs)
  qed
qed

subsection \<open>The controllers\<close>

lemma IMC_requeue_wp: "wp (IMC_guard L j ag) (\<lambda>_ _. True) (IMC_requeue imc) h"
  by (auto simp: IMC_requeue_def Let_def prog_simps)

lemma IMC_leave_wp:
  assumes rl: "retry_laws L" and bl: "backoff_laws L" and imc: "answered (OIMC imc) h" "imc_State imc = StateLeave"
    and fin: "\<And>k. cleanedUp ag (h @ k) \<Longrightarrow> wp (IMC_guard L j ag) (\<lambda>_ _. True) p (h @ k)"
  shows "wp (IMC_guard L j ag) (\<lambda>_ _. True) (IMC_leave ag (IMC_cleanup L KMultiClusterService) (IMC_cleanup L KServiceExport) p) h"
proof -
  have one: "wp (IMC_guard L j ag) (\<lambda>_ _. True) (bindP (IMC_cleanup L kd) (\<lambda>er. case er of Some e \<Rightarrow> Ret (emptyResult, Some e) | None \<Rightarrow> p)) h"
    if "kindsOf ag = [kd]" for kd
  proof (rule wp_bindI [OF IMC_cleanup_wp [OF rl bl _ imc]])
    fix h' and r :: "err option"
    assume *: "(r = None \<longrightarrow> (\<exists>os. listed Mem kd selAll os h' \<and> (\<forall>x \<in> set os. absent Mem kd (metaKey (metaOfObj x)) h'))) \<and> (\<exists>k. h' = h @ k)"
    then obtain k where "h' = h @ k" by blast
    with * that fin [of k] show "wp (IMC_guard L j ag) (\<lambda>_ _. True) (case r of Some e \<Rightarrow> Ret (emptyResult, Some e) | None \<Rightarrow> p) h'"
      by (auto simp: cleanedUp_def split: option.splits)
  qed (simp add: that)
  show ?thesis
  proof (cases ag)
    case MemberAgent
    with fin [of "[]"] show ?thesis by (simp add: IMC_leave_def cleanedUp_def kindsOf_def)
  qed (use one in \<open>simp_all add: IMC_leave_def kindsOf_def cong del: option.case_cong_weak\<close>)
qed

lemma IMC_Reconcile_wp:
  assumes "retry_laws L" and "backoff_laws L" and "condition_laws L" and "agent_laws L"
  shows "wp (IMC_guard L j ag) (\<lambda>_ _. True) (IMC_Reconcile L j ag n) []"
proof -
  let ?get = "\<lambda>imc. (Get Hub KInternalMemberCluster n, RObj (OIMC imc))"
  have seen: "answered (OIMC imc) (?get imc # k)" for imc k by (auto simp: answered_def)
  have join: "wp (IMC_guard L j ag) (\<lambda>_ _. True) (IMC_updateAgentStatus L j ag imc) [?get imc]" if "imc_State imc = StateJoin" for imc
    by (rule IMC_updateAgentStatus_wp [OF assms(3,4) seen]) (simp add: that)
  have leave: "wp (IMC_guard L j ag) (\<lambda>_ _. True) (IMC_afterCleanup L j ag imc) ([?get imc] @ k)" if "imc_State imc = StateLeave" "cleanedUp ag ([?get imc] @ k)" for imc k
    unfolding IMC_afterCleanup_def by (rule wp_bindI [OF IMC_updateAgentStatus_wp [OF assms(3,4)]]) (use seen that in auto)
  show ?thesis
    unfolding IMC_Reconcile_def IMC_cleanupMCSRelatedResources_def IMC_cleanupServiceExportRelatedResources_def
    by (auto simp: getIMC_def wp_bindP_call split: sum.splits ClusterState.splits option.splits
        intro!: wp_bindI [OF join] IMC_requeue_wp IMC_leave_wp [OF assms(1,2) seen] leave [simplified])
qed

lemma IMC1_Reconcile_wp:
  assumes "retry_laws L" and "backoff_laws L" and "condition_laws L"
  shows "wp (IMC_guard L j ag) (\<lambda>_ _. True) (IMC1_Reconcile L j ag n) []"
proof -
  let ?get = "\<lambda>imc. (Get Hub KInternalMemberCluster n, RObj (OIMC imc))"
  have seen: "answered (OIMC imc) (?get imc # k)" for imc k by (auto simp: answered_def)
  have join: "wp (IMC_guard L j ag) (\<lambda>_ _. True) (IMC1_updateAgentStatus L imc
      \<lparr>as_Type = ag, as_Conditions = [joinedCondition j imc True], as_LastReceivedHeartbeat = Some (decTime r)\<rparr>) [?get imc, (Now, r)]" if "imc_State imc = StateJoin" for imc r
    by (rule IMC1_updateAgentStatus_wp [OF assms(3) seen, where b = True]) (auto simp: that)
  have leave: "wp (IMC_guard L j ag) (\<lambda>_ _. True) (bindP (IMC1_updateAgentStatus L imc
      \<lparr>as_Type = ag, as_Conditions = [joinedCondition j imc False], as_LastReceivedHeartbeat = None\<rparr>) (\<lambda>er. Ret (emptyResult, er))) ([?get imc] @ k)"
    if "imc_State imc = StateLeave" "cleanedUp ag ([?get imc] @ k)" for imc k
    by (rule wp_bindI [OF IMC1_updateAgentStatus_wp [OF assms(3), where b = False]]) (use seen that in auto)
  show ?thesis
    unfolding IMC1_Reconcile_def IMC1_cleanupMCSRelatedResources_def IMC1_cleanupServiceExportRelatedResources_def
    by (auto simp: getIMC_def timeNow_def wp_bindP_call split: sum.splits ClusterState.splits option.splits
        intro!: wp_bindI [OF join] IMC_requeue_wp IMC_leave_wp [OF assms(1,2) seen] leave [simplified])
qed

text \<open>The heartbeat interval within the range of an \<open>int32\<close>.\<close>

lemma jitter_exact:
  assumes "1 \<le> period" and "period \<le> 214748"
  shows "hbInterval period = 1000 * period" and "jitterRange period = 100 * period"
proof -
  show h: "hbInterval period = 1000 * period" unfolding hbInterval_def by (rule wrap32_id) (use assms in simp_all)
  have "wrap32 (hbInterval period * jitterPercent) = 10000 * period" unfolding h jitterPercent_def by (subst wrap32_id) (use assms in simp_all)
  then show "jitterRange period = 100 * period" using assms(1) by (simp add: jitterRange_def quot_nonneg)
qed

lemma requeueDuration_bounds:
  assumes "1 \<le> period" and "period \<le> 214748" and "0 \<le> r" and "r < jitterRange period"
  shows "20 * \<bar>requeueDuration period r - seconds period\<bar> \<le> seconds period"
proof -
  note e = jitter_exact [OF assms(1,2)]
  have half: "quot (100 * period) 2 = 50 * period" using assms(1) by (simp add: quot_nonneg)
  let ?d = "1000 * period + (r - 50 * period)"
  have d: "950 * period \<le> ?d" "?d < 1050 * period" using assms(3,4) by (simp_all add: e)
  have "wrap64 ?d = ?d" by (rule wrap64_id) (use d assms(1,2) in simp_all)
  moreover have "wrap64 (1000000 * ?d) = 1000000 * ?d" by (rule wrap64_id) (use d assms(1,2) in simp_all)
  ultimately have "requeueDuration period r = 1000000 * ?d" by (simp add: requeueDuration_def e half)
  with d show ?thesis by (simp add: seconds_def abs_le_iff)
qed

lemma IMC_requeue_result:
  "wp (\<lambda>_ _. True) (\<lambda>h' r. \<exists>a. (RandInt63nRange 0 (jitterRange (imc_HeartbeatPeriodSeconds imc)), a) \<in> set h' \<and>
     res_RequeueAfter (fst r) = requeueDuration (imc_HeartbeatPeriodSeconds imc) (decInt a)) (IMC_requeue imc) h"
  by (auto simp: IMC_requeue_def Let_def prog_simps intro!: exI)

lemma IMC_join_result:
  assumes "imc_State imc = StateJoin" and "p \<in> {IMC_Reconcile L j ag n, IMC1_Reconcile L j ag n}"
    and "steps p ((Get Hub KInternalMemberCluster n, RObj (OIMC imc)) # ts) (Ret (res, None))"
  shows "\<exists>a. (RandInt63nRange 0 (jitterRange (imc_HeartbeatPeriodSeconds imc)), a) \<in> set ts \<and> res_RequeueAfter res = requeueDuration (imc_HeartbeatPeriodSeconds imc) (decInt a)"
proof -
  let ?Q = "\<lambda>h' r. snd r = None \<longrightarrow> (\<exists>a. (RandInt63nRange 0 (jitterRange (imc_HeartbeatPeriodSeconds imc)), a) \<in> set h' \<and>
     res_RequeueAfter (fst r) = requeueDuration (imc_HeartbeatPeriodSeconds imc) (decInt a))"
  have req: "wp (\<lambda>_ _. True) ?Q (IMC_requeue imc) h" for h by (rule wp_conseq [OF IMC_requeue_result]) auto
  have then_req: "wp (\<lambda>_ _. True) ?Q (bindP m (\<lambda>er. case er of Some e \<Rightarrow> Ret (emptyResult, Some e) | None \<Rightarrow> IMC_requeue imc)) h" for m h
    by (rule wp_bindI [OF wp_extends]) (auto split: option.splits intro!: req)
  obtain p' where p': "steps p' ts (Ret (res, None))"
    "p' = bindP (IMC_updateAgentStatus L j ag imc) (\<lambda>er. case er of Some e \<Rightarrow> Ret (emptyResult, Some e) | None \<Rightarrow> IMC_requeue imc) \<or>
     p' = bindP timeNow (\<lambda>now. bindP (IMC1_updateAgentStatus L imc \<lparr>as_Type = ag, as_Conditions = [joinedCondition j imc True], as_LastReceivedHeartbeat = Some now\<rparr>)
       (\<lambda>er. case er of Some e \<Rightarrow> Ret (emptyResult, Some e) | None \<Rightarrow> IMC_requeue imc))"
    using assms by (auto simp: IMC_Reconcile_def IMC1_Reconcile_def getIMC_def call_def steps_Call)
  have "wp (\<lambda>_ _. True) ?Q p' []" using p'(2) then_req by (auto simp: timeNow_def wp_bindP_call)
  from wp_result [OF p'(1) refl this] show ?thesis by simp
qed

section \<open>Properties\<close>

text \<open>C15. The protocol of membership, for both versions of the controller and all answers: an agent deletes only
  its own kind of resources, only when the cluster leaves the fleet, and only objects that were listed and are not
  being deleted; it reports that it left only when the API server has answered for every listed object that there
  is none, and that it joined only while the cluster is in the fleet, with the generation that was read and a
  heartbeat read from the clock; and it never touches the status of another agent.\<close>

theorem IMC_protocol:
  assumes "retry_laws L" and "backoff_laws L" and "condition_laws L" and "agent_laws L"
    and "p0 \<in> {IMC_Reconcile L agentJoined ag n, IMC1_Reconcile L agentJoined ag n}" and "steps p0 tr p"
  shows "guarded (IMC_guard L agentJoined ag) [] tr"
  using wp_guarded [OF assms(6), of "IMC_guard L agentJoined ag" "\<lambda>_ _. True" "[]"] IMC_Reconcile_wp [OF assms(1-4)] IMC1_Reconcile_wp [OF assms(1-3)] assms(5) by auto

theorem IMC_protocol_witness:
  "guarded (IMC_guard refLib ''Joined'' MultiClusterServiceAgent) []
     (fst (play demoLeaveAnswers (IMC_Reconcile refLib ''Joined'' MultiClusterServiceAgent demoExportKey))) \<and>
   length (fst (play demoLeaveAnswers (IMC_Reconcile refLib ''Joined'' MultiClusterServiceAgent demoExportKey))) = 7"
proof -
  let ?p = "IMC_Reconcile refLib ''Joined'' MultiClusterServiceAgent demoExportKey"
  have "steps ?p (fst (play demoLeaveAnswers ?p)) (snd (play demoLeaveAnswers ?p))" by (rule play_trace_steps) simp
  from IMC_protocol [OF refLib_retry_laws refLib_backoff_laws refLib_condition_laws refLib_agent_laws insertI1 this]
  show ?thesis by (rule conjI) code_simp
qed

text \<open>C37. The heartbeat: when a member cluster is in the fleet, its period is between 1 and 214748 seconds and the
  random number is in the range asked for, a pass that succeeds asks to be run again after the period, give or
  take five percent; within these bounds the 32-bit arithmetic does not overflow.\<close>

theorem IMC_heartbeat:
  assumes "imc_State imc = StateJoin" and "p \<in> {IMC_Reconcile L agentJoined ag n, IMC1_Reconcile L agentJoined ag n}"
    and "steps p ((Get Hub KInternalMemberCluster n, RObj (OIMC imc)) # ts) (Ret (res, None))"
    and "1 \<le> imc_HeartbeatPeriodSeconds imc" and "imc_HeartbeatPeriodSeconds imc \<le> 214748"
    and "\<forall>(q, a) \<in> set ts. \<forall>lo hi. q = RandInt63nRange lo hi \<longrightarrow> lo \<le> decInt a \<and> decInt a < hi"
  shows "20 * \<bar>res_RequeueAfter res - seconds (imc_HeartbeatPeriodSeconds imc)\<bar> \<le> seconds (imc_HeartbeatPeriodSeconds imc)"
proof -
  obtain a where a: "(RandInt63nRange 0 (jitterRange (imc_HeartbeatPeriodSeconds imc)), a) \<in> set ts"
    "res_RequeueAfter res = requeueDuration (imc_HeartbeatPeriodSeconds imc) (decInt a)"
    using IMC_join_result [OF assms(1-3)] by blast
  from assms(6) a(1) have "0 \<le> decInt a" "decInt a < jitterRange (imc_HeartbeatPeriodSeconds imc)" by auto
  from requeueDuration_bounds [OF assms(4,5) this] show ?thesis by (simp add: a(2))
qed

theorem IMC_heartbeat_witness:
  "\<exists>ts res. steps (IMC1_Reconcile refLib ''Joined'' MultiClusterServiceAgent demoExportKey)
      ((Get Hub KInternalMemberCluster demoExportKey, RObj (OIMC (demoMembership StateJoin))) # ts) (Ret (res, None)) \<and>
     20 * \<bar>res_RequeueAfter res - seconds 60\<bar> \<le> seconds 60"
proof -
  let ?p = "IMC1_Reconcile refLib ''Joined'' MultiClusterServiceAgent demoExportKey"
  let ?m = "demoMembership StateJoin"
  let ?new = "\<lparr>as_Type = MultiClusterServiceAgent, as_Conditions = [(joinedCondition ''Joined'' ?m True)\<lparr>c_LastTransitionTime := Some 8\<rparr>], as_LastReceivedHeartbeat = Some 7\<rparr>"
  let ?ts = "[(Now, RTime 7), (Now, RTime 8), (StatusUpdate Hub (OIMC (?m\<lparr>imc_AgentStatus := imc_AgentStatus ?m @ [?new]\<rparr>)), RObj (OIMC ?m)),
    (RandInt63nRange 0 6000, RInt 5999)]"
  have "playRet [RObj (OIMC ?m), RTime 7, RTime 8, RObj (OIMC ?m), RInt 5999] ?p =
      Some ((Get Hub KInternalMemberCluster demoExportKey, RObj (OIMC ?m)) # ?ts, (emptyResult\<lparr>res_RequeueAfter := 62999000000\<rparr>, None))" by code_simp
  then have st: "steps ?p ((Get Hub KInternalMemberCluster demoExportKey, RObj (OIMC ?m)) # ?ts) (Ret (emptyResult\<lparr>res_RequeueAfter := 62999000000\<rparr>, None))"
    by (rule playRet_steps)
  have m: "imc_State ?m = StateJoin" "imc_HeartbeatPeriodSeconds ?m = 60" by (simp_all add: demoMembership_def)
  have "?p \<in> {IMC_Reconcile refLib ''Joined'' MultiClusterServiceAgent demoExportKey, ?p}" by simp
  from IMC_heartbeat [OF m(1) this st] have "20 * \<bar>62999000000 - seconds 60\<bar> \<le> seconds 60" by (simp add: m decInt_def)
  with st show ?thesis by (intro exI conjI) (assumption, simp)
qed

end
