(* ===== verification/HttpClient.thy ===== *)
theory HttpClient
  imports Client
begin

text \<open>
  The round tripper of \<open>pkg/common/httpclient\<close>, which adds configured headers to a request before another
  round tripper sends it. That other one is a parameter; so is the order in which the range over a map
  visits its keys. The canonical form of a header key is the one of \<open>net/textproto\<close>.
\<close>

section \<open>Headers\<close>

text \<open>A header maps keys to lists of values.\<close>

type_synonym httpHeader = "string list gomap"

definition validHeaderFieldByte :: "char \<Rightarrow> bool" where
  "validHeaderFieldByte c = (let n = (of_char c :: nat) in
     48 \<le> n \<and> n \<le> 57 \<or> 65 \<le> n \<and> n \<le> 90 \<or> 97 \<le> n \<and> n \<le> 122 \<or> c \<in> set ''!#$%&*+-.^_|~'' \<or> n \<in> set [39, 96])"

primrec canonicalMIMEHeaderKey :: "string \<Rightarrow> bool \<Rightarrow> string" where
  "canonicalMIMEHeaderKey [] upper = []"
| "canonicalMIMEHeaderKey (c # cs) upper =
     (let n = (of_char c :: nat);
          d = (if upper \<and> 97 \<le> n \<and> n \<le> 122 then char_of (n - 32)
               else if \<not> upper \<and> 65 \<le> n \<and> n \<le> 90 then char_of (n + 32) else c)
      in d # canonicalMIMEHeaderKey cs (d = CHR ''-''))"

definition CanonicalMIMEHeaderKey :: "string \<Rightarrow> string" where
  "CanonicalMIMEHeaderKey s = (if list_all validHeaderFieldByte s then canonicalMIMEHeaderKey s True else s)"

definition headerValues :: "httpHeader \<Rightarrow> string \<Rightarrow> string list" where
  "headerValues h key = (case mget h (CanonicalMIMEHeaderKey key) of None \<Rightarrow> [] | Some vs \<Rightarrow> vs)"

definition HeaderGet :: "httpHeader \<Rightarrow> string \<Rightarrow> string" where
  "HeaderGet h key = (case headerValues h key of [] \<Rightarrow> [] | v # _ \<Rightarrow> v)"

definition HeaderAdd :: "string \<Rightarrow> string \<Rightarrow> httpHeader \<Rightarrow> httpHeader" where
  "HeaderAdd key v h = mapPut (CanonicalMIMEHeaderKey key) (headerValues h key @ [v]) h"

section \<open>The round tripper\<close>

text \<open>The loop over the configured header changes the header of the request. Keys are quoted in the message.\<close>

primrec addHeaders :: "httpHeader \<Rightarrow> string list \<Rightarrow> httpHeader \<Rightarrow> err option \<times> httpHeader" where
  "addHeaders header [] req = (None, req)"
| "addHeaders header (key # keys) req =
     (if HeaderGet req key \<noteq> [] then (Some (PlainErr (''custom header '' @ [CHR 0x22] @ key @ [CHR 0x22] @ '' can't override other header'')), req)
      else addHeaders header keys (fold (HeaderAdd key) (case mget header key of None \<Rightarrow> [] | Some values \<Rightarrow> values) req))"

definition RoundTrip :: "Lib \<Rightarrow> httpHeader \<Rightarrow> (httpHeader \<Rightarrow> err + 'r) \<Rightarrow> httpHeader \<Rightarrow> (err + 'r) \<times> httpHeader" where
  "RoundTrip L header delegatedRoundTripper req =
     (case addHeaders header (LibMapOrder L (mkeys header)) req of
        (Some e, req') \<Rightarrow> (Inl e, req')
      | (None, req') \<Rightarrow> (delegatedRoundTripper req', req'))"

section \<open>Lemmas\<close>

lemma headerValues_cong: "CanonicalMIMEHeaderKey k = CanonicalMIMEHeaderKey k' \<Longrightarrow> headerValues h k = headerValues h k'"
  by (simp add: headerValues_def)

lemma headerValues_add:
  "headerValues (HeaderAdd key v h) k =
     (if CanonicalMIMEHeaderKey k = CanonicalMIMEHeaderKey key then headerValues h key @ [v] else headerValues h k)"
  by (simp add: headerValues_def HeaderAdd_def)

lemma headerValues_adds:
  "headerValues (fold (HeaderAdd key) vs h) k =
     (if CanonicalMIMEHeaderKey k = CanonicalMIMEHeaderKey key then headerValues h key @ vs else headerValues h k)"
  by (induction vs arbitrary: h) (auto simp: headerValues_add, auto simp: headerValues_def)

lemma HeaderGet_cong: "CanonicalMIMEHeaderKey k = CanonicalMIMEHeaderKey k' \<Longrightarrow> HeaderGet h k = HeaderGet h k'"
  by (simp add: HeaderGet_def headerValues_def)

text \<open>The values of a request are kept; its first values, where there are any, stay first.\<close>

lemma addHeaders_keeps:
  "addHeaders header keys req = (er, req') \<Longrightarrow> set (headerValues req k) \<subseteq> set (headerValues req' k)"
proof (induction keys arbitrary: req)
  case (Cons key keys)
  show ?case
  proof (cases "HeaderGet req key = []")
    case True
    with Cons.prems Cons.IH have "set (headerValues (fold (HeaderAdd key) (case mget header key of None \<Rightarrow> [] | Some vs \<Rightarrow> vs) req) k)
        \<subseteq> set (headerValues req' k)" by simp
    moreover have "set (headerValues req k) \<subseteq> set (headerValues (fold (HeaderAdd key) (case mget header key of None \<Rightarrow> [] | Some vs \<Rightarrow> vs) req) k)"
      using headerValues_cong [of k key req] by (auto simp: headerValues_adds)
    ultimately show ?thesis by blast
  qed (use Cons.prems in simp)
qed simp

lemma addHeaders_never_overrides:
  "addHeaders header keys req = (er, req') \<Longrightarrow> HeaderGet req k \<noteq> [] \<Longrightarrow> HeaderGet req' k = HeaderGet req k"
proof (induction keys arbitrary: req)
  case (Cons key keys)
  show ?case
  proof (cases "HeaderGet req key = []")
    case True
    let ?r = "fold (HeaderAdd key) (case mget header key of None \<Rightarrow> [] | Some vs \<Rightarrow> vs) req"
    have "CanonicalMIMEHeaderKey k \<noteq> CanonicalMIMEHeaderKey key" using True Cons.prems(2) HeaderGet_cong by metis
    then have "HeaderGet ?r k = HeaderGet req k" by (simp add: HeaderGet_def headerValues_adds)
    with Cons.IH [of ?r] Cons.prems True show ?thesis by simp
  qed (use Cons.prems in simp)
qed simp

lemma addHeaders_adds:
  "addHeaders header keys req = (None, req') \<Longrightarrow> key \<in> set keys \<Longrightarrow> mget header key = Some vs \<Longrightarrow> set vs \<subseteq> set (headerValues req' key)"
proof (induction keys arbitrary: req)
  case (Cons k keys)
  let ?r = "fold (HeaderAdd k) (case mget header k of None \<Rightarrow> [] | Some vs \<Rightarrow> vs) req"
  from Cons.prems(1) have r: "addHeaders header keys ?r = (None, req')" by (simp split: if_splits)
  show ?case
  proof (cases "key = k")
    case True
    then have "set vs \<subseteq> set (headerValues ?r key)" using Cons.prems(3) by (auto simp: headerValues_adds)
    with addHeaders_keeps [OF r] show ?thesis by blast
  qed (use Cons r in auto)
qed simp

text \<open>
  A request that is sent has all its own headers with their first values, and all the configured
  ones; a configured header that the request already has is an error, and then nothing is sent.
\<close>

lemma RoundTrip_sends:
  assumes "range_laws L" and "\<And>r. delegated r = Inr r" and "RoundTrip L header delegated req = (Inr sent, req')"
  shows "(\<forall>k. HeaderGet req k \<noteq> [] \<longrightarrow> HeaderGet sent k = HeaderGet req k) \<and>
    (\<forall>key vs. mget header key = Some vs \<longrightarrow> set vs \<subseteq> set (headerValues sent key))"
proof -
  from assms(2,3) have a: "addHeaders header (LibMapOrder L (mkeys header)) req = (None, sent)"
    by (auto simp: RoundTrip_def split: prod.splits option.splits)
  have "key \<in> set (LibMapOrder L (mkeys header))" if "mget header key = Some vs" for key vs
    using assms(1) that by (auto simp: range_laws_def set_mkeys distinct_mkeys)
  with addHeaders_adds [OF a] addHeaders_never_overrides [OF a] show ?thesis by blast
qed

end
