(* ===== verification/CrdInstaller.thy ===== *)
theory CrdInstaller
  imports ObjectNames
begin

text \<open>
  The CRD installer (\<open>cmd/net-crd-installer\<close>): it collects the custom resource definitions of a
  directory tree that the mode asks for, and creates or updates each of them. The tree is a value; the
  decoder of \<open>apimachinery\<close>, the constructor of an unexpected-behaviour error of \<open>go.goms.io/fleet\<close> and
  \<open>controllerutil.CreateOrUpdate\<close> are parameters, the last with its documented behaviour as a law.
\<close>

section \<open>Data\<close>

text \<open>Of the specification the installer reads the group only and copies the rest.\<close>

record CRDSpec =
  crds_Group :: string
  crds_Rest :: string

record CRD =
  crd_ObjectMeta :: ObjectMeta
  crd_Spec :: CRDSpec

datatype crdRequest = CrdGet string | CrdCreate CRD | CrdUpdate CRD
datatype crdResponse = CrdObj CRD | CrdErr err

type_synonym 'r crdOp = "(crdRequest, crdResponse, 'r) prog"
type_synonym crdUpsert = "CRD \<Rightarrow> (CRD \<Rightarrow> err option \<times> CRD) \<Rightarrow> (err option \<times> CRD) crdOp"

text \<open>
  A tree of files: what reading a file gives, and for a directory the error of \<open>os.ReadDir\<close>, if any,
  beside the entries, which it returns sorted by name.
\<close>

datatype fsNode = FsFile "err + string" | FsDir "err option" "(string \<times> fsNode) list"

text \<open>The decoder gives a CRD, or an object of another type together with its type.\<close>

datatype decoded = DecodedCRD CRD | DecodedOther string

type_synonym decoder = "string \<Rightarrow> err + decoded"

definition crdName :: "CRD \<Rightarrow> string" where
  "crdName crd = om_Name (crd_ObjectMeta crd)"

definition crdInstallerLabelKey :: string where
  "crdInstallerLabelKey = ''crd-installer.networking.azure.fleet.com/managed''"

definition azureManagedLabelKey :: string where
  "azureManagedLabelKey = ''kubernetes.azure.com/managedby''"

definition fleetLabelValue :: string where
  "fleetLabelValue = ''fleet''"

definition memberIncludedCRDs :: "string \<Rightarrow> bool" where
  "memberIncludedCRDs name = (name \<in> set [''serviceexports.networking.fleet.azure.com'',
     ''serviceimports.networking.fleet.azure.com'', ''multiclusterservices.networking.fleet.azure.com''])"

section \<open>Installing\<close>

text \<open>The mutate function.\<close>

definition InstallCRD_mutate :: "CRD \<Rightarrow> bool \<Rightarrow> CRD \<Rightarrow> CRD" where
  "InstallCRD_mutate crd isE2ETest existing =
     (let m = crd_ObjectMeta existing;
          labels = mapPut crdInstallerLabelKey ''true'' (minit (om_Labels m));
          labels' = (if \<not> isE2ETest then mapPut azureManagedLabelKey fleetLabelValue labels else labels)
      in existing\<lparr>crd_Spec := crd_Spec crd, crd_ObjectMeta := m\<lparr>om_Labels := labels'\<rparr>\<rparr>)"

definition namedCRD :: "string \<Rightarrow> CRD" where
  "namedCRD name = \<lparr>crd_ObjectMeta = metaOf [] name, crd_Spec = \<lparr>crds_Group = [], crds_Rest = []\<rparr>\<rparr>"

definition InstallCRD :: "crdUpsert \<Rightarrow> CRD \<Rightarrow> bool \<Rightarrow> err option crdOp" where
  "InstallCRD createOrUpdate crd isE2ETest =
     bindP (createOrUpdate (namedCRD (crdName crd)) (\<lambda>x. (None, InstallCRD_mutate crd isE2ETest x))) (\<lambda>(er, _).
       case er of Some e \<Rightarrow> Ret (Some e) | None \<Rightarrow> Ret None)"

section \<open>Collecting\<close>

definition getCRDFromPath :: "decoder \<Rightarrow> (err \<Rightarrow> err) \<Rightarrow> string \<Rightarrow> err + string \<Rightarrow> err + CRD" where
  "getCRDFromPath decode unexpected crdPath file =
     (case file of
        Inl e \<Rightarrow> Inl (WrapErr (''failed to read CRD file '' @ crdPath) e)
      | Inr crdBytes \<Rightarrow>
          (case decode crdBytes of
             Inl e \<Rightarrow> Inl (WrapErr (''failed to decode CRD from '' @ crdPath) e)
           | Inr (DecodedOther gvk) \<Rightarrow> Inl (unexpected (PlainErr (''unexpected type from '' @ crdPath @ '', expected '' @ gvk @
               '' but got apiextensions.k8s.io/v1, Kind=CustomResourceDefinition'')))
           | Inr (DecodedCRD crd) \<Rightarrow> Inr crd))"

text \<open>The function that is called for every node; a missing root comes without a node.\<close>

type_synonym 's visitor = "string \<Rightarrow> fsNode option \<Rightarrow> err option \<Rightarrow> 's \<Rightarrow> err option \<times> 's"

definition CollectCRDs_visit :: "decoder \<Rightarrow> (err \<Rightarrow> err) \<Rightarrow> string \<Rightarrow> CRD list visitor" where
  "CollectCRDs_visit decode unexpected mode crdpath d er crdsToInstall =
     (case er of
        Some e \<Rightarrow> (Some e, crdsToInstall)
      | None \<Rightarrow>
          (case d of
             Some (FsFile file) \<Rightarrow>
               (case getCRDFromPath decode unexpected crdpath file of
                  Inl e \<Rightarrow> (Some e, crdsToInstall)
                | Inr crd \<Rightarrow>
                    if crds_Group (crd_Spec crd) = ''networking.fleet.azure.com'' then
                      let crds1 = (if mode = ''hub'' then crdsToInstall @ [crd] else crdsToInstall) in
                      if mode = ''member'' then
                        if \<not> memberIncludedCRDs (crdName crd) then (None, crds1) else (None, crds1 @ [crd])
                      else (None, crds1)
                    else (None, crdsToInstall))
           | _ \<Rightarrow> (None, crdsToInstall)))"

text \<open>
  \<open>filepath.WalkDir\<close>: a node is visited before its entries; an error of reading a directory is reported by
  a second visit; the walk ends with the first error of a visit. (The visits above never answer
  \<open>SkipDir\<close> or \<open>SkipAll\<close>.)
\<close>

fun walkDir :: "'s visitor \<Rightarrow> string \<Rightarrow> fsNode \<Rightarrow> 's \<Rightarrow> err option \<times> 's"
  and walkEntries :: "'s visitor \<Rightarrow> string \<Rightarrow> (string \<times> fsNode) list \<Rightarrow> 's \<Rightarrow> err option \<times> 's" where
  "walkDir f name (FsFile file) s = f name (Some (FsFile file)) None s"
| "walkDir f name (FsDir readErr entries) s =
     (case f name (Some (FsDir readErr entries)) None s of
        (Some e, s1) \<Rightarrow> (Some e, s1)
      | (None, s1) \<Rightarrow>
          (case (case readErr of None \<Rightarrow> (None, s1) | Some _ \<Rightarrow> f name (Some (FsDir readErr entries)) readErr s1) of
             (Some e, s2) \<Rightarrow> (Some e, s2)
           | (None, s2) \<Rightarrow> walkEntries f name entries s2))"
| "walkEntries f name [] s = (None, s)"
| "walkEntries f name ((n, d) # rest) s =
     (case walkDir f (name @ ''/'' @ n) d s of (Some e, s1) \<Rightarrow> (Some e, s1) | (None, s1) \<Rightarrow> walkEntries f name rest s1)"

definition WalkDir :: "'s visitor \<Rightarrow> string \<Rightarrow> err + fsNode \<Rightarrow> 's \<Rightarrow> err option \<times> 's" where
  "WalkDir f path root s = (case root of Inl e \<Rightarrow> f path None (Some e) s | Inr d \<Rightarrow> walkDir f path d s)"

definition CollectCRDs :: "decoder \<Rightarrow> (err \<Rightarrow> err) \<Rightarrow> string \<Rightarrow> string \<Rightarrow> err + fsNode \<Rightarrow> err + CRD list" where
  "CollectCRDs decode unexpected crdDirectoryPath mode root =
     (case WalkDir (CollectCRDs_visit decode unexpected mode) crdDirectoryPath root [] of
        (Some e, _) \<Rightarrow> Inl (WrapErr ''failed to walk CRD directory'' e)
      | (None, crdsToInstall) \<Rightarrow> Inr crdsToInstall)"

definition installCRDs :: "crdUpsert \<Rightarrow> decoder \<Rightarrow> (err \<Rightarrow> err) \<Rightarrow> string \<Rightarrow> string \<Rightarrow> bool \<Rightarrow> err + fsNode \<Rightarrow> err option crdOp" where
  "installCRDs createOrUpdate decode unexpected crdPath mode isE2ETest root =
     (case CollectCRDs decode unexpected crdPath mode root of
        Inl e \<Rightarrow> Ret (Some e)
      | Inr crdsToInstall \<Rightarrow>
          if crdsToInstall = [] then Ret (Some (PlainErr (''no CRDs found for mode '' @ mode @ '' in directory '' @ crdPath)))
          else bindP (forP crdsToInstall () (\<lambda>crd _. bindP (InstallCRD createOrUpdate crd isE2ETest) (\<lambda>er.
                 case er of Some e \<Rightarrow> Ret (Inl e) | None \<Rightarrow> Ret (Inr ())))) (\<lambda>r.
               case r of Inl e \<Rightarrow> Ret (Some e) | Inr _ \<Rightarrow> Ret None))"

section \<open>What is said of the installer\<close>

definition crdCreateOrUpdateDoc :: crdUpsert where
  "crdCreateOrUpdateDoc o1 mutate =
     Call (CrdGet (crdName o1)) (\<lambda>a.
       case a of
         CrdErr e \<Rightarrow>
           if \<not> IsNotFound e then Ret (Some e, o1)
           else (case mutate o1 of
             (Some e2, o2) \<Rightarrow> Ret (Some e2, o2)
           | (None, o2) \<Rightarrow> Call (CrdCreate o2) (\<lambda>b. case b of CrdErr e3 \<Rightarrow> Ret (Some e3, o2) | CrdObj o3 \<Rightarrow> Ret (None, o3)))
       | CrdObj o2 \<Rightarrow>
           (case mutate o2 of
             (Some e2, o3) \<Rightarrow> Ret (Some e2, o3)
           | (None, o3) \<Rightarrow>
               if o3 = o2 then Ret (None, o3)
               else Call (CrdUpdate o3) (\<lambda>b. case b of CrdErr e3 \<Rightarrow> Ret (Some e3, o3) | CrdObj o4 \<Rightarrow> Ret (None, o4))))"

definition crdUpsert_laws :: "crdUpsert \<Rightarrow> bool" where
  "crdUpsert_laws createOrUpdate \<longleftrightarrow> (\<forall>o1 f. createOrUpdate o1 f = crdCreateOrUpdateDoc o1 f)"

text \<open>The contents of the files of a tree, and whether all its directories can be read.\<close>

fun filesOf :: "fsNode \<Rightarrow> (err + string) list" where
  "filesOf (FsFile file) = [file]"
| "filesOf (FsDir readErr entries) = concat (map (\<lambda>(n, d). filesOf d) entries)"

fun readable :: "fsNode \<Rightarrow> bool" where
  "readable (FsFile file) = True"
| "readable (FsDir readErr entries) = (readErr = None \<and> list_all (\<lambda>(n, d). readable d) entries)"

primrec decodeAll :: "decoder \<Rightarrow> (err + string) list \<Rightarrow> CRD list option" where
  "decodeAll decode [] = Some []"
| "decodeAll decode (file # files) =
     (case file of
        Inr crdBytes \<Rightarrow> (case decode crdBytes of Inr (DecodedCRD crd) \<Rightarrow> map_option ((#) crd) (decodeAll decode files) | _ \<Rightarrow> None)
      | Inl e \<Rightarrow> None)"

definition wanted :: "string \<Rightarrow> CRD \<Rightarrow> bool" where
  "wanted mode crd \<longleftrightarrow> crds_Group (crd_Spec crd) = ''networking.fleet.azure.com'' \<and>
     (mode = ''hub'' \<or> mode = ''member'' \<and> memberIncludedCRDs (crdName crd))"

definition wantedIn :: "decoder \<Rightarrow> string \<Rightarrow> fsNode \<Rightarrow> CRD list option" where
  "wantedIn decode mode d = (if readable d then map_option (filter (wanted mode)) (decodeAll decode (filesOf d)) else None)"

text \<open>An object that carries a definition under the labels of the installer.\<close>

definition carries :: "CRD \<Rightarrow> bool \<Rightarrow> CRD \<Rightarrow> bool" where
  "carries crd isE2ETest x \<longleftrightarrow> crd_Spec x = crd_Spec crd \<and> mget (om_Labels (crd_ObjectMeta x)) crdInstallerLabelKey = Some ''true'' \<and>
     (isE2ETest \<or> mget (om_Labels (crd_ObjectMeta x)) azureManagedLabelKey = Some fleetLabelValue)"

text \<open>Nothing is changed but the specification and the two labels.\<close>

definition keepsRest :: "bool \<Rightarrow> CRD \<Rightarrow> CRD \<Rightarrow> bool" where
  "keepsRest isE2ETest x y \<longleftrightarrow> (crd_ObjectMeta y)\<lparr>om_Labels := om_Labels (crd_ObjectMeta x)\<rparr> = crd_ObjectMeta x \<and>
     (\<forall>k. k \<noteq> crdInstallerLabelKey \<and> (isE2ETest \<or> k \<noteq> azureManagedLabelKey) \<longrightarrow>
        mget (om_Labels (crd_ObjectMeta y)) k = mget (om_Labels (crd_ObjectMeta x)) k)"

definition CRD_guard :: "CRD list \<Rightarrow> bool \<Rightarrow> (crdRequest \<times> crdResponse) list \<Rightarrow> crdRequest \<Rightarrow> bool" where
  "CRD_guard crds isE2ETest h q =
     (case q of
        CrdGet n \<Rightarrow> n \<in> crdName ` set crds
      | CrdCreate x \<Rightarrow> (\<exists>crd \<in> set crds. \<exists>e. crdName x = crdName crd \<and> carries crd isE2ETest x \<and> (CrdGet (crdName crd), CrdErr e) \<in> set h \<and> IsNotFound e)
      | CrdUpdate y \<Rightarrow> (\<exists>crd \<in> set crds. \<exists>x. (CrdGet (crdName crd), CrdObj x) \<in> set h \<and> carries crd isE2ETest y \<and> keepsRest isE2ETest x y))"

definition installed :: "bool \<Rightarrow> (crdRequest \<times> crdResponse) list \<Rightarrow> CRD \<Rightarrow> bool" where
  "installed isE2ETest h crd \<longleftrightarrow>
     (\<exists>x y. (CrdCreate x, CrdObj y) \<in> set h \<and> crdName x = crdName crd \<and> carries crd isE2ETest x) \<or>
     (\<exists>x. (CrdGet (crdName crd), CrdObj x) \<in> set h \<and>
        (carries crd isE2ETest x \<or> (\<exists>y z. (CrdUpdate y, CrdObj z) \<in> set h \<and> keepsRest isE2ETest x y \<and> carries crd isE2ETest y)))"

text \<open>The walk as a function of the state that it ends with.\<close>

definition walked :: "err option \<times> 's \<Rightarrow> 's option" where
  "walked r = (case r of (Some e, s) \<Rightarrow> None | (None, s) \<Rightarrow> Some s)"

definition extendBy :: "CRD list \<Rightarrow> CRD list option \<Rightarrow> CRD list option" where
  "extendBy s z = map_option ((@) s) z"

definition demoCRD :: "string \<Rightarrow> CRD" where
  "demoCRD name = (namedCRD name)\<lparr>crd_Spec := \<lparr>crds_Group = ''networking.fleet.azure.com'', crds_Rest = name\<rparr>\<rparr>"

definition demoDecode :: decoder where
  "demoDecode s = Inr (DecodedCRD (demoCRD s))"

definition demoTree :: fsNode where
  "demoTree = FsDir None [(''a.yaml'', FsFile (Inr ''endpointsliceexports.networking.fleet.azure.com'')),
     (''b.yaml'', FsFile (Inr ''serviceexports.networking.fleet.azure.com'')), (''c.yaml'', FsFile (Inr ''serviceimports.networking.fleet.azure.com''))]"

section \<open>Lemmas\<close>

lemma decodeAll_append:
  "decodeAll decode (xs @ ys) = (case decodeAll decode xs of None \<Rightarrow> None | Some a \<Rightarrow> map_option ((@) a) (decodeAll decode ys))"
  by (induction xs; cases "decodeAll decode ys") (auto split: sum.splits decoded.splits option.splits)

lemma visit_simps:
  "CollectCRDs_visit decode u mode p (Some (FsDir r es)) None s = (None, s)"
  "CollectCRDs_visit decode u mode p d (Some e) s = (Some e, s)"
  by (simp_all add: CollectCRDs_visit_def)

lemma visit_file:
  "walked (CollectCRDs_visit decode u mode p (Some (FsFile file)) None s) = extendBy s (wantedIn decode mode (FsFile file))"
  by (auto simp: walked_def extendBy_def wantedIn_def CollectCRDs_visit_def getCRDFromPath_def wanted_def Let_def
      split: sum.splits decoded.splits)

lemma wantedIn_entries:
  "wantedIn decode mode (FsDir None ((n, d) # es)) =
     (case wantedIn decode mode d of None \<Rightarrow> None | Some a \<Rightarrow> extendBy a (wantedIn decode mode (FsDir None es)))"
  by (cases "decodeAll decode (filesOf (FsDir None es))") (auto simp: wantedIn_def extendBy_def decodeAll_append split: option.splits)

lemma walk_collects:
  "f = CollectCRDs_visit decode u mode \<Longrightarrow> walked (walkDir f p d s) = extendBy s (wantedIn decode mode d)"
  "f = CollectCRDs_visit decode u mode \<Longrightarrow> walked (walkEntries f p es s) = extendBy s (wantedIn decode mode (FsDir None es))"
proof (induction f p d s and f p es s rule: walkDir_walkEntries.induct)
  case (1 f name c s)
  then show ?case by (simp add: visit_file)
next
  case (2 f name readErr entries s)
  then show ?case
    by (cases readErr) (simp_all add: visit_simps, simp add: walked_def extendBy_def wantedIn_def)
next
  case (3 f name s)
  then show ?case by (simp add: walked_def extendBy_def wantedIn_def)
next
  case (4 f name n d rest s)
  obtain er s1 where w: "walkDir f (name @ ''/'' @ n) d s = (er, s1)" by fastforce
  with 4 show ?case
    by (cases er; cases "wantedIn decode mode d"; cases "wantedIn decode mode (FsDir None rest)")
      (auto simp: wantedIn_entries walked_def extendBy_def split: option.splits prod.splits)
qed

lemma CollectCRDs_eq:
  "(case CollectCRDs decode u path mode root of Inl e \<Rightarrow> None | Inr crds \<Rightarrow> Some crds) =
   (case root of Inl e \<Rightarrow> None | Inr d \<Rightarrow> wantedIn decode mode d)"
proof (cases root)
  case (Inr d)
  have "extendBy [] z = z" for z by (cases z) (simp_all add: extendBy_def)
  then have "walked (walkDir (CollectCRDs_visit decode u mode) path d []) = wantedIn decode mode d"
    by (simp add: walk_collects(1))
  with Inr show ?thesis
    by (auto simp: CollectCRDs_def WalkDir_def walked_def split: prod.splits option.splits)
qed (simp add: CollectCRDs_def WalkDir_def visit_simps)

lemma mutate_carries: "carries crd t (InstallCRD_mutate crd t x)"
  by (simp add: carries_def InstallCRD_mutate_def Let_def crdInstallerLabelKey_def azureManagedLabelKey_def)

lemma mutate_keepsRest: "keepsRest t x (InstallCRD_mutate crd t x)"
  by (auto simp: keepsRest_def InstallCRD_mutate_def Let_def)

lemma mutate_name: "crdName (InstallCRD_mutate crd t (namedCRD n)) = n"
  by (simp add: crdName_def InstallCRD_mutate_def namedCRD_def metaOf_def Let_def)

lemma namedCRD_name [simp]: "crdName (namedCRD n) = n"
  by (simp add: crdName_def namedCRD_def metaOf_def)

lemma installed_mono: "installed t h crd \<Longrightarrow> set h \<subseteq> set h' \<Longrightarrow> installed t h' crd"
  unfolding installed_def by blast

lemma InstallCRD_wp:
  assumes "crdUpsert_laws cou" and "crd \<in> set crds"
  shows "wp (CRD_guard crds t) (\<lambda>h' r. set h \<subseteq> set h' \<and> (r = None \<longrightarrow> installed t h' crd)) (InstallCRD cou crd t) h"
proof -
  let ?m = "InstallCRD_mutate crd t"
  have c: "CRD_guard crds t (h @ [(CrdGet (crdName crd), CrdErr e)]) (CrdCreate (?m (namedCRD (crdName crd))))" if "IsNotFound e" for e
    using assms(2) that mutate_carries mutate_name by (fastforce simp: CRD_guard_def)
  have u: "CRD_guard crds t (h @ [(CrdGet (crdName crd), CrdObj x)]) (CrdUpdate (?m x))" for x
    using assms(2) mutate_carries mutate_keepsRest by (fastforce simp: CRD_guard_def)
  have same: "carries crd t x" if "?m x = x" for x using mutate_carries [of crd t x] that by simp
  have i1: "installed t (h @ [g, (CrdCreate (?m (namedCRD (crdName crd))), CrdObj y)]) crd" for g y
    using mutate_carries mutate_name by (fastforce simp: installed_def)
  have i2: "installed t (h @ [(CrdGet (crdName crd), CrdObj x), (CrdUpdate (?m x), CrdObj y)]) crd" for x y
    using mutate_carries mutate_keepsRest by (fastforce simp: installed_def)
  have i3: "installed t (h @ [(CrdGet (crdName crd), CrdObj x)]) crd" if "?m x = x" for x
    using same [OF that] by (auto simp: installed_def)
  have "CRD_guard crds t h (CrdGet (crdName crd))" using assms(2) by (simp add: CRD_guard_def)
  then show ?thesis
    using assms(1) c u i1 i2 i3
    by (auto simp: InstallCRD_def crdUpsert_laws_def crdCreateOrUpdateDoc_def split: crdResponse.splits)
qed

lemma installCRDs_wp:
  assumes "crdUpsert_laws cou" and "CollectCRDs decode u path mode root = Inr crds"
  shows "wp (CRD_guard crds t) (\<lambda>h r. r = None \<longrightarrow> crds \<noteq> [] \<and> (\<forall>crd \<in> set crds. installed t h crd))
    (installCRDs cou decode u path mode t root) h"
proof -
  let ?Q = "\<lambda>h r. case r of Inl e \<Rightarrow> True | Inr _ \<Rightarrow> \<forall>crd \<in> set crds. installed t h crd"
  let ?body = "\<lambda>crd (_ :: unit). bindP (InstallCRD cou crd t) (\<lambda>er. case er of Some e \<Rightarrow> Ret (Inl e) | None \<Rightarrow> Ret (Inr ()))"
  have "wp (CRD_guard crds t) ?Q (forP crds () ?body) h"
  proof (rule wp_forP_prefix [where I = "\<lambda>pre h _. \<forall>crd \<in> set pre. installed t h crd"])
    fix pre x post s h
    assume "crds = pre @ x # post" and "\<forall>crd \<in> set pre. installed t h crd"
    then show "wp (CRD_guard crds t) (\<lambda>h' r. case r of Inl a \<Rightarrow> ?Q h' (Inl a) | Inr s' \<Rightarrow> \<forall>crd \<in> set (pre @ [x]). installed t h' crd) (?body x s) h"
      by (intro wp_bindI [OF InstallCRD_wp [OF assms(1)]]) (auto split: option.splits intro: installed_mono)
  qed simp_all
  then show ?thesis
    using assms(2) by (auto simp: installCRDs_def wp_bindP split: sum.splits elim!: wp_conseq)
qed

section \<open>Properties\<close>

text \<open>C40. What the installer does: it collects exactly the definitions of the fleet networking group that its
  mode asks for (all of them on the hub, three of them on a member), if every directory and file of the tree
  can be read and decoded, and otherwise fails without a write. It reads and writes those definitions only,
  creates one only after it was not found, changes nothing of an existing one but the specification and its two
  labels, and when it succeeds there was something to install and every collected definition is in place.\<close>

theorem installCRDs_protocol:
  assumes "crdUpsert_laws createOrUpdate" and "steps (installCRDs createOrUpdate decode unexpected path mode isE2ETest root) tr p"
  shows "case (case root of Inl e \<Rightarrow> None | Inr d \<Rightarrow> wantedIn decode mode d) of
      None \<Rightarrow> tr = [] \<and> (\<exists>e. p = Ret (Some e))
    | Some crds \<Rightarrow> guarded (CRD_guard crds isE2ETest) [] tr \<and>
        (p = Ret None \<longrightarrow> crds \<noteq> [] \<and> (\<forall>crd \<in> set crds. installed isE2ETest tr crd))"
proof (cases "CollectCRDs decode unexpected path mode root")
  case (Inl e)
  with CollectCRDs_eq [of decode unexpected path mode root] assms(2) show ?thesis
    by (auto simp: installCRDs_def elim: steps.cases)
next
  case (Inr crds)
  note w = installCRDs_wp [OF assms(1) Inr, of isE2ETest "[]"]
  from CollectCRDs_eq [of decode unexpected path mode root] Inr
  have c: "(case root of Inl e \<Rightarrow> None | Inr d \<Rightarrow> wantedIn decode mode d) = Some crds" by simp
  show ?thesis
    unfolding c using wp_guarded [OF assms(2) w] wp_result [OF assms(2) _ w] by auto
qed

theorem installCRDs_protocol_witness:
  "\<exists>tr. steps (installCRDs crdCreateOrUpdateDoc demoDecode id ''/crds'' ''member'' False (Inr demoTree)) tr (Ret None) \<and>
     installed False tr (demoCRD ''serviceexports.networking.fleet.azure.com'') \<and> map fst (take 1 tr) = [CrdGet ''serviceexports.networking.fleet.azure.com'']"
proof -
  let ?p = "installCRDs crdCreateOrUpdateDoc demoDecode id ''/crds'' ''member'' False (Inr demoTree)"
  let ?nf = "CrdErr (StatusErr ReasonNotFound [] [])"
  let ?as = "[?nf, CrdObj (demoCRD []), CrdObj (demoCRD ''serviceimports.networking.fleet.azure.com''), CrdObj (demoCRD [])]"
  have "map_option (\<lambda>(tr, r). (map fst (take 1 tr), r)) (playRet ?as ?p) = Some ([CrdGet ''serviceexports.networking.fleet.azure.com''], None)"
    by code_simp
  then obtain tr where tr: "playRet ?as ?p = Some (tr, None)" "map fst (take 1 tr) = [CrdGet ''serviceexports.networking.fleet.azure.com'']" by auto
  from playRet_steps [OF tr(1)] have st: "steps ?p tr (Ret None)" .
  have w: "wantedIn demoDecode ''member'' demoTree =
      Some [demoCRD ''serviceexports.networking.fleet.azure.com'', demoCRD ''serviceimports.networking.fleet.azure.com'']" by code_simp
  have "crdUpsert_laws crdCreateOrUpdateDoc" by (simp add: crdUpsert_laws_def)
  from installCRDs_protocol [OF this st] st tr(2) show ?thesis by (auto simp: w)
qed

end
