(* ===== verification/Spec2Isabelle.thy ===== *)
theory Spec2Isabelle
  imports Hub_InternalServiceExport Hub_ServiceImport Hub_InternalServiceImport Hub_EndpointSliceExport
    Hub_MemberCluster Hub_TrafficManagerProfile Hub_TrafficManagerBackend
    Member_ServiceExport Member_InternalServiceExport Member_ServiceImport
    Member_EndpointSlice Member_EndpointSliceImport Member_MultiClusterService Member_InternalMemberCluster
    ApiRetry Defaulter ObjectNames Json Metrics Rfc3339 HttpClient CrdInstaller
begin

text \<open>
  A verification of the fleet networking controllers (\<open>src/\<close>, the Go module \<open>go.goms.io/fleet-networking\<close>).

  \<^bold>\<open>The program.\<close> A fleet is a hub cluster and its member clusters. A service of one member is exported to the
  fleet and imported by another one, or put behind an Azure Traffic Manager profile. Every step is a controller
  that watches one kind of object and, for one object at a time, runs a pass (\<open>Reconcile\<close>) that reads objects,
  writes objects, and is run again after an error or an event:

  \<^item> A user creates a ServiceExport in a member. The member's ServiceExport controller writes an
    InternalServiceExport into the namespace that the hub keeps for the member; the hub's InternalServiceExport
    controller enters the cluster into the hub's ServiceImport; the hub's ServiceImport controller resolves
    conflicts between the exports; the member's InternalServiceExport controller reports the result back.
  \<^item> The member's EndpointSlice controller exports the endpoint slices of an exported service as
    EndpointSliceExports; the member's EndpointSliceExport controller removes those that no slice claims any more.
  \<^item> A MultiClusterService in a member makes its controller create a ServiceImport there; the member's
    ServiceImport controller asks the hub with an InternalServiceImport; the hub's InternalServiceImport
    controller gives the claim on the service to one cluster of the fleet; the hub's EndpointSliceExport controller
    distributes the slices to it as EndpointSliceImports; the member's EndpointSliceImport controller makes
    endpoint slices of them for the derived service; the member's InternalServiceImport controller copies the
    status back.
  \<^item> The hub's TrafficManagerProfile and TrafficManagerBackend controllers keep profiles and endpoints in
    Azure. The InternalMemberCluster controllers and the hub's MemberCluster controller handle joining and leaving.

  \<^bold>\<open>How it is modelled.\<close> \<open>Prelude\<close> has the type of programs (\<open>prog\<close>): a pass returns, panics or makes a
  call and continues with its answer. All calls to API servers, to Azure, to the clock, to the sources of random
  numbers and to the metrics are requests (\<open>Client\<close>), and nothing is assumed of the answers unless a theorem
  says so. A trace of a pass is any prefix of its calls and answers, so a statement about all traces covers a process
  that is stopped at any point. Functions of third-party libraries are fields of the record \<open>Lib\<close>; what
  their documentation says of them is a named law (\<open>finalizer_laws\<close>, \<open>condition_laws\<close>,
  \<open>retry_laws\<close>, \<open>backoff_laws\<close>, \<open>createOrUpdate_laws\<close>, \<open>errgroup_laws\<close>, \<open>owner_laws\<close>,
  \<open>agent_laws\<close>, \<open>alreadyExists_laws\<close>), and so is what the language leaves open (\<open>range_laws\<close> for
  the order of a range over a map, \<open>sort_laws\<close> for an unstable sort). The instance \<open>refLib\<close> satisfies all
  of them; the witnesses run on it. \<open>Observations\<close> names what a history tells (an object was shown,
  answered, listed, is absent, or is gone because it is absent or its deletion was accepted), \<open>Finalizers\<close> is the interface of a kind of object with a finalizer,
  \<open>ApiTypes\<close> has the resources of \<open>api/\<close> as records, with a nil map told from an empty one.

  \<^bold>\<open>Theories and sources.\<close> A Go function \<open>f\<close> of a controller is a definition \<open>P_f\<close> with the prefix \<open>P\<close> of
  its controller; a long body is cut where it branches, and each piece is a definition.

  \<^item> \<open>Hub_InternalServiceExport\<close> (ISE), \<open>Hub_ServiceImport\<close> (SIM), \<open>Hub_InternalServiceImport\<close> (ISI),
    \<open>Hub_EndpointSliceExport\<close> (ESX), \<open>Hub_MemberCluster\<close> (MC), \<open>Hub_TrafficManagerProfile\<close> (TMP),
    \<open>TrafficManagerEndpoints\<close> and \<open>Hub_TrafficManagerBackend\<close> (TMB): the directories of the same names
    under \<open>pkg/controllers/hub\<close>. The pure part of the backend controller, which divides the weight, is in
    \<open>TrafficManagerEndpoints\<close>, its arithmetic in \<open>Float64\<close>.
  \<^item> \<open>Member_ServiceExport\<close> (SEX), \<open>Member_InternalServiceExport\<close> (MIE), \<open>Member_ServiceImport\<close> (MSI and, for
    InternalServiceImports, MII), \<open>Member_EndpointSlice\<close> (MES and, for EndpointSliceExports, MEE),
    \<open>Member_EndpointSliceImport\<close> (MEI), \<open>Member_InternalMemberCluster\<close> (IMC for v1beta1, IMC1 for v1alpha1):
    \<open>pkg/controllers/member\<close>. \<open>Member_MultiClusterService\<close> (MCS): \<open>pkg/controllers/multiclusterservice\<close>.
  \<^item> \<open>Conditions\<close>, \<open>ObjectNames\<close> (\<open>objectmeta\<close>, \<open>uniquename\<close>), \<open>Defaulter\<close>, \<open>ApiRetry\<close> (\<open>apiretry\<close>,
    \<open>azureerrors\<close>, \<open>env\<close> and part of \<open>hubconfig\<close>), \<open>Metrics\<close>, \<open>HttpClient\<close>: \<open>pkg/common\<close>.
    \<open>CrdInstaller\<close>: \<open>cmd/net-crd-installer\<close>.
  \<^item> \<open>Json\<close> and \<open>Rfc3339\<close>: what is used of Go's \<open>encoding/json\<close> and \<open>time\<close>.

  \<^bold>\<open>What is shown.\<close> Most lemmas of a component compute a precondition (\<open>wp\<close>): from any history, every call of a
  function satisfies the guard of its controller and its result satisfies a postcondition. The properties follow.

  \<^item> Protocols (\<open>..._protocol\<close>, \<open>ISE_cleanup_before_release\<close>, \<open>ISE_finalizer_before_effect\<close>,
    \<open>ISI_order_of_import\<close>, \<open>MEE_deletes_unclaimed\<close>, \<open>MC_forced_release\<close> and others): whatever is answered,
    objects outside are written only after the finalizer that will clean them up is on record, with the content
    that the source object asks for, deleted only for a reason that was seen, and finalizers are released only when
    nothing is left to clean.
  \<^item> The fleet: \<open>ISI_single_importer\<close> is an invariant of any interleaving of passes with stale reads over a
    step relation with optimistic concurrency; at most one cluster holds the claim.
  \<^item> Results (\<open>ISE_converges\<close>, \<open>SIM_resolve_partition\<close>, \<open>ESX_claimants_are_served\<close>,
    \<open>SEX_success_means_exported\<close>, \<open>TMP_settles\<close>, \<open>TMB_weights\<close>): what holds when a pass succeeds.
  \<^item> Types, bounds, round trips, loops: \<open>TMP_desired_well_typed\<close>, \<open>unique_names_fit\<close>, \<open>IMC_heartbeat\<close>,
    \<open>ISI_claims_roundtrip\<close>, \<open>SEX_lastSeen_roundtrip\<close>, \<open>retryDo_runs\<close>, \<open>WaitUntilObjectDeleted_runs\<close>.
  \<^item> Panics (\<open>ISI_panics_only_on_nil_map\<close>, \<open>TMP_panics_only\<close>, \<open>TMB_panics_only\<close>): a pass panics only in
    the circumstances named. \<open>TMB_cleanup_is_case_sensitive\<close> exhibits an endpoint that the clean-up leaves in Azure because of
    the case of its name.
  \<^item> Several controllers together, in this theory: \<open>hub_controllers_agree\<close>, \<open>exported_weights_are_divided\<close>,
    \<open>slice_exports_are_kept\<close>.

  \<^bold>\<open>Bounds.\<close> No definition uses fuel. Loops over lists are recursive on the list; retry loops are bounded by
  the steps of their backoff, which is their documented bound; the JSON reader terminates because every
  step consumes input, which is proved. Go's integers are \<open>int\<close> with \<open>wrap32\<close>, \<open>wrap64\<close> or
  \<open>sat64\<close> applied where the code computes with them; floating point numbers are rationals rounded to 53 bits,
  which is exact for quotients of 64-bit integers up to infinities and NaN, whose conversion is a parameter.

  \<^bold>\<open>Not modelled.\<close> The programs under \<open>cmd/\<close> other than the CRD installer, and \<open>main\<close> of that one, parse flags,
  build clients and register controllers with the controller runtime: a sequence of calls into libraries. So do
  \<open>SetupWithManager\<close> and \<open>init\<close>, but the indexers, predicates and event mappings that are functions of this
  repository are modelled. \<open>PrepareHubConfig\<close> fills a configuration of \<open>client-go\<close> from files and variables.
  The generated deep copies are identities on values. The traffic manager kinds of v1alpha1 are not used by any controller, and of
  its ServiceExport one InternalMemberCluster controller uses the metadata only. Log messages are left out. Calls that run at the same time in an
  \<open>errgroup\<close> run in some order (\<open>errgroup_laws\<close>), one after another. Time-outs of a context are errors that a
  call may answer at any time. The lists of pointers in an answer of Azure (endpoints, custom headers) have no nil
  entry, on which the code would panic; their fields may be nil. JSON texts and values are taken to be
  valid UTF-8 (Go replaces what is not); the claims of \<open>ISI_claims_roundtrip\<close> are ASCII.
\<close>

section \<open>What is said of several controllers together\<close>

text \<open>What the API server has on record for an export that was marked.\<close>

definition onRecord :: "trace \<Rightarrow> InternalServiceExport \<Rightarrow> InternalServiceExport \<Rightarrow> bool" where
  "onRecord h v e \<longleftrightarrow> e = v \<or> (\<exists>y. (StatusUpdate Hub (OISE e), RObj (OISE y)) \<in> set h)"

text \<open>The hub object has the weight that a pass of the member ServiceExport controller sent.\<close>

definition sendsWeight :: "int option \<Rightarrow> request \<Rightarrow> bool" where
  "sendsWeight w q = (case q of Create Hub (OISE i) \<Rightarrow> ises_Weight (ise_Spec i) = w | Update Hub (OISE i) \<Rightarrow> ises_Weight (ise_Spec i) = w | _ \<Rightarrow> False)"

definition sentByMember :: "Lib \<Rightarrow> InternalServiceExport \<Rightarrow> bool" where
  "sentByMember L e \<longleftrightarrow> (\<exists>r n tr p. sxr_EnableTrafficManagerFeature r \<and> steps (SEX_Reconcile L r n) tr p \<and>
     (\<exists>(q, a) \<in> set tr. sendsWeight (ises_Weight (ise_Spec e)) q))"

section \<open>Lemmas\<close>

lemma markedExport_parts [simp]:
  "ise_ObjectMeta (SIM_markedExport L v c) = ise_ObjectMeta v" "ise_Spec (SIM_markedExport L v c) = ise_Spec v"
  by (simp_all add: SIM_markedExport_def Let_def)

lemma conflictCondition_cong:
  assumes "ise_ObjectMeta e = ise_ObjectMeta v" and "ise_Spec e = ise_Spec v"
  shows "ConflictedServiceExportConflictCondition e = ConflictedServiceExportConflictCondition v"
    and "UnconflictedServiceExportConflictCondition e = UnconflictedServiceExportConflictCondition v"
  using assms by (simp_all add: ConflictedServiceExportConflictCondition_def UnconflictedServiceExportConflictCondition_def)

lemma markedExport_condition:
  assumes "condition_laws L" and "c = (if conflict then ConflictedServiceExportConflictCondition v else UnconflictedServiceExportConflictCondition v)"
  shows "EqualCondition (LibFindStatusCondition L (ise_Conditions (SIM_markedExport L v conflict)) ServiceExportConflict) (Some c)"
proof -
  have "c_Type c = ServiceExportConflict" using assms(2) by simp
  moreover obtain t where "LibFindStatusCondition L (LibSetStatusCondition L (ise_Conditions v) c) (c_Type c) = Some (c\<lparr>c_LastTransitionTime := t\<rparr>)"
    using assms(1) unfolding condition_laws_def by blast
  ultimately show ?thesis using assms(2) by (simp add: SIM_markedExport_def EqualCondition_def Let_def)
qed

lemma marked_record:
  assumes "condition_laws L" and "marked L h v conflict"
  obtains e where "onRecord h v e" "ise_ObjectMeta e = ise_ObjectMeta v" "ise_Spec e = ise_Spec v"
    "EqualCondition (LibFindStatusCondition L (ise_Conditions e) ServiceExportConflict)
       (Some (if conflict then ConflictedServiceExportConflictCondition v else UnconflictedServiceExportConflictCondition v))"
proof -
  from assms(2) consider
      "EqualCondition (LibFindStatusCondition L (ise_Conditions v) ServiceExportConflict)
        (Some (if conflict then ConflictedServiceExportConflictCondition v else UnconflictedServiceExportConflictCondition v))"
    | "\<exists>y. (StatusUpdate Hub (OISE (SIM_markedExport L v conflict)), RObj (OISE y)) \<in> set h"
    unfolding marked_def by blast
  then show thesis
  proof cases
    case 1
    then show thesis by (intro that [of v]) (simp_all add: onRecord_def)
  next
    case 2
    then show thesis
      by (intro that [of "SIM_markedExport L v conflict"]) (auto simp: onRecord_def intro: markedExport_condition [OF assms(1)])
  qed
qed

lemma resolvedStatusD:
  assumes "resolvedStatus L h items st" and "el = filter eligible items"
  shows "el \<noteq> []" and "sis_Ports st = portsOf (hd el)" and "sis_Clusters st \<noteq> []"
    and "c \<in> cs_Cluster ` set (sis_Clusters st) \<Longrightarrow> \<exists>x \<in> set el. portsOf x = portsOf (hd el) \<and> c = clusterOf x \<and> marked L h x False"
    and "x \<in> set el \<Longrightarrow> portsOf x = portsOf (hd el) \<Longrightarrow> clusterOf x \<in> cs_Cluster ` set (sis_Clusters st) \<or> reportedGone L h x False"
    and "x \<in> set el \<Longrightarrow> portsOf x \<noteq> portsOf (hd el) \<Longrightarrow> marked L h x True"
  using assms(1) unfolding resolvedStatus_def Let_def assms(2) [symmetric] by auto

lemma resolved_settles:
  assumes "condition_laws L" and "resolvedStatus L h items (si_Status s)" and "distinct (map clusterOf (filter eligible items))"
    and "v \<in> set items" "eligible v" "\<not> reportedGone L h v False" "\<forall>x \<in> set items. portsOf x \<noteq> []"
  shows "\<exists>e. onRecord h v e \<and> ise_ObjectMeta e = ise_ObjectMeta v \<and> ise_Spec e = ise_Spec v \<and> settled L e s"
proof -
  define el where "el = filter eligible items"
  note res = resolvedStatusD [OF assms(2) el_def]
  have v: "v \<in> set el" using assms(4,5) by (simp add: el_def)
  have inj: "x = v" if "x \<in> set el" "clusterOf x = clusterOf v" for x
    using assms(3) that v by (simp add: el_def distinct_map inj_on_def)
  have ports: "sis_Ports (si_Status s) \<noteq> []" using res(1,2) assms(7) hd_in_set [OF res(1)] by (auto simp: el_def)
  have fin: "hasExportFinalizer e" if "ise_ObjectMeta e = ise_ObjectMeta v" for e
    using assms(5) that by (simp add: eligible_def hasExportFinalizer_def)
  have cl: "clusterOf e = clusterOf v" if "ise_Spec e = ise_Spec v" for e using that by (simp add: clusterOf_def)
  have set: "clustersOf s = cs_Cluster ` set (sis_Clusters (si_Status s))" by (simp add: clustersOf_def)
  show ?thesis
  proof (cases "portsOf v = portsOf (hd el)")
    case True
    with res(5) [OF v] assms(6) have i: "clusterOf v \<in> clustersOf s" by (auto simp: set)
    then obtain x where "x \<in> set el" "clusterOf v = clusterOf x" "marked L h x False" using res(4) by (auto simp: set)
    with inj have "marked L h v False" by metis
    from marked_record [OF assms(1) this] obtain e where e: "onRecord h v e" "ise_ObjectMeta e = ise_ObjectMeta v" "ise_Spec e = ise_Spec v"
      "EqualCondition (LibFindStatusCondition L (ise_Conditions e) ServiceExportConflict) (Some (UnconflictedServiceExportConflictCondition v))"
      by auto
    with i True res(2) ports e(3) have "settled L e s"
      by (simp add: settled_def fin [OF e(2)] cl [OF e(3)] portsOf_def Let_def conflictCondition_cong [OF e(2,3)])
    with e show ?thesis by blast
  next
    case False
    have i: "clusterOf v \<notin> clustersOf s"
    proof
      assume "clusterOf v \<in> clustersOf s"
      then obtain x where "x \<in> set el" "portsOf x = portsOf (hd el)" "clusterOf v = clusterOf x" using res(4) by (auto simp: set)
      with inj False show False by metis
    qed
    from marked_record [OF assms(1) res(6) [OF v False]] obtain e where
      e: "onRecord h v e" "ise_ObjectMeta e = ise_ObjectMeta v" "ise_Spec e = ise_Spec v"
      "EqualCondition (LibFindStatusCondition L (ise_Conditions e) ServiceExportConflict) (Some (ConflictedServiceExportConflictCondition v))"
      by auto
    with i False res(2,3) ports have "settled L e s"
      by (simp add: settled_def fin [OF e(2)] cl [OF e(3)] portsOf_def Let_def conflictCondition_cong [OF e(2,3)] set)
    with e show ?thesis by blast
  qed
qed

lemma SEX_guard_weight:
  assumes "SEX_guard L r n h q" and "sendsWeight w q" and "sxr_EnableTrafficManagerFeature r"
  shows "\<exists>v. w = Some v \<and> 1 \<le> v \<and> v \<le> 1000"
proof -
  have "\<exists>i svc v. w = ises_Weight (ise_Spec i) \<and> 0 < v \<and> v \<le> 1000 \<and> describes r svc v i"
    using assms(1,2) by (auto simp: SEX_guard_def sendsWeight_def split: request.splits kobj.splits cluster.splits)
  then obtain v where "0 < v" "v \<le> 1000" "w = Some v" using assms(3) by (auto simp: describes_def)
  then show ?thesis by auto
qed

lemma sentByMember_weight:
  assumes "finalizer_laws L" "condition_laws L" "createOrUpdate_laws L" and "sentByMember L e"
  shows "1 \<le> exportWeight e \<and> exportWeight e \<le> 1000"
proof -
  from assms(4) obtain r n tr p q a where r: "sxr_EnableTrafficManagerFeature r" "steps (SEX_Reconcile L r n) tr p"
    "(q, a) \<in> set tr" "sendsWeight (ises_Weight (ise_Spec e)) q" unfolding sentByMember_def by blast
  then obtain i where i: "i < length tr" "fst (tr ! i) = q" by (metis fst_conv in_set_conv_nth)
  from guarded_at [OF wp_guarded [OF r(2) SEX_Reconcile_wp [OF assms(1-3)]] i] SEX_guard_weight r(1,4)
  show ?thesis by (fastforce simp: exportWeight_def)
qed

lemma servedBy_items:
  assumes "(c, e) \<in> set (servedBy items cs)"
  shows "e \<in> set items"
proof -
  have "mget (internalServiceExportMap items) c = Some e" using assms by (auto simp: servedBy_def split: option.splits)
  then show ?thesis by (rule internalServiceExportMap_key)
qed

section \<open>Properties\<close>

text \<open>C9. The two hub controllers that write the same objects come to rest: when a pass of the ServiceImport
  controller has written a status (and the server stores what it accepts), every eligible export that it
  listed and that was not reported gone is on record in a version for which a pass of the
  InternalServiceExport controller reads the export and that ServiceImport, writes nothing and asks for no
  retry. The exports have ports and come from different clusters.\<close>

theorem hub_controllers_agree:
  assumes "finalizer_laws L" and "condition_laws L" and "retry_laws L" and "steps (SIM_Reconcile L n) tr p"
    and "i < length tr" and "fst (tr ! i) = StatusUpdate Hub (OSI s)" and "echoesISE (take i tr)"
  shows "\<exists>items. listedExports (take i tr) items \<and>
    (distinct (map clusterOf (filter eligible items)) \<longrightarrow> (\<forall>x \<in> set items. portsOf x \<noteq> []) \<longrightarrow>
     (\<forall>v \<in> set items. eligible v \<longrightarrow> \<not> reportedGone L (take i tr) v False \<longrightarrow>
       (\<exists>e. onRecord (take i tr) v e \<and> ise_ObjectMeta e = ise_ObjectMeta v \<and> ise_Spec e = ise_Spec v \<and>
         play [RObj (OISE e), RObj (OSI s)] (ISE_Reconcile L ri m) =
           ([(Get Hub KInternalServiceExport m, RObj (OISE e)), (Get Hub KServiceImport (importKeyOf e), RObj (OSI s))],
            Ret (emptyResult, None)))))"
proof -
  have "SIM_guard L (take i tr) (StatusUpdate Hub (OSI s))"
    by (rule guarded_at [OF wp_guarded [OF assms(4) SIM_Reconcile_wp [OF assms(1,3)]] assms(5,6)])
  with assms(7) obtain items where i: "listedExports (take i tr) items" "resolvedStatus L (take i tr) items (si_Status s)"
    by (auto simp: SIM_guard_def)
  show ?thesis
  proof (rule exI [of _ items], intro conjI impI ballI)
    fix v assume v: "distinct (map clusterOf (filter eligible items))" "\<forall>x \<in> set items. portsOf x \<noteq> []"
      "v \<in> set items" "eligible v" "\<not> reportedGone L (take i tr) v False"
    from resolved_settles [OF assms(2) i(2) v(1,3-5,2)] obtain e where
      e: "onRecord (take i tr) v e" "ise_ObjectMeta e = ise_ObjectMeta v" "ise_Spec e = ise_Spec v" "settled L e s" by blast
    have "om_DeletionTimestamp (ise_ObjectMeta e) = None" using v(4) e(2) by (simp add: eligible_def)
    from settled_quiet [OF assms(1) e(4) this] e show
      "\<exists>e. onRecord (take i tr) v e \<and> ise_ObjectMeta e = ise_ObjectMeta v \<and> ise_Spec e = ise_Spec v \<and>
         play [RObj (OISE e), RObj (OSI s)] (ISE_Reconcile L ri m) =
           ([(Get Hub KInternalServiceExport m, RObj (OISE e)), (Get Hub KServiceImport (importKeyOf e), RObj (OSI s))],
            Ret (emptyResult, None))" by blast
  qed (rule i(1))
qed

theorem hub_controllers_agree_witness:
  "\<exists>e. demoResolution ! 4 = (StatusUpdate Hub (OSI demoResolved), RObj (OSI demoImport)) \<and> ise_Spec e = ise_Spec demoExportF2 \<and>
     snd (play [RObj (OISE e), RObj (OSI demoResolved)] (ISE_Reconcile refLib 5 demoExportKey)) = Ret (emptyResult, None)"
proof -
  have "distinct (map clusterOf (filter eligible [demoExportF, demoExportF2]))" by code_simp
  moreover have "portsOf demoExportF \<noteq> [] \<and> portsOf demoExportF2 \<noteq> [] \<and> eligible demoExportF2" by code_simp
  moreover have "\<not> reportedGone refLib (take 4 demoResolution) demoExportF2 False" by (simp add: demoResolution_history reportedGone_def)
  ultimately obtain e where "ise_Spec e = ise_Spec demoExportF2"
     "snd (play [RObj (OISE e), RObj (OSI demoResolved)] (ISE_Reconcile refLib 5 demoExportKey)) = Ret (emptyResult, None)"
    using hub_controllers_agree [OF refLib_finalizer_laws refLib_condition_laws refLib_retry_laws demoResolution_steps demoResolution_length
        demoResolution_sends demoResolution_echoes, of 5 demoExportKey] demoResolution_lists by fastforce
  with demoResolution_writes show ?thesis by blast
qed

text \<open>C17. From the annotation to Azure: if the hub has the weights that the ServiceExport controllers of the
  members have sent, then every exported service that can be an endpoint gets an endpoint with a weight
  between 1 and the weight of the backend, which is its exact share rounded up. The members refuse
  weights outside 0 to 1000 and withdraw an export of weight 0, so the hub never divides by zero.\<close>

theorem exported_weights_are_divided:
  assumes "finalizer_laws L" "condition_laws L" "createOrUpdate_laws L" and "\<forall>e \<in> set items. sentByMember L e"
    and "TMB_desired indefinite b weight items cs = Inr (desired, invalid)" and "distinct (map cs_Cluster cs)" and "length cs < 2 ^ 40"
    and "1 \<le> weight" and "weight \<le> 1000" and "(c, e) \<in> set (servedBy items cs)"
  shows "\<exists>d v. mget desired (endpointNameOf b c) = Some d \<and> weightIn d = Some v \<and> 1 \<le> v \<and> v \<le> weight \<and>
    v = \<lceil>of_int (weight * exportWeight e) / (of_int (\<Sum>(c, x) \<leftarrow> servedBy items cs. exportWeight x) :: rat)\<rceil>"
proof -
  have "x \<in> set items" if "(c, x) \<in> set (servedBy items cs)" for c x
    using that by (rule servedBy_items)
  then have w: "\<forall>(c, x) \<in> set (servedBy items cs). 1 \<le> exportWeight x \<and> exportWeight x \<le> 1000"
    using assms(4) sentByMember_weight [OF assms(1-3)] by blast
  have "servedBy items cs \<noteq> []" using assms(10) by auto
  from TMB_shares [OF assms(5-9) w this] assms(10) show ?thesis
    by (fastforce simp: share_def comp_def case_prod_unfold)
qed

theorem exported_weights_are_divided_witness:
  "\<exists>desired invalid d. TMB_desired 0 demoBackend 500 [demoEndpointExport ''c1'' 1, demoEndpointExport ''c2'' 1] demoClusters = Inr (desired, invalid) \<and>
     mget desired ''fleet-u2#svc#c1'' = Some d \<and> weightIn d = Some 250"
proof -
  let ?items = "[demoEndpointExport ''c1'' 1, demoEndpointExport ''c2'' 1]"
  let ?p = "SEX_Reconcile refLib demoMember demoImportKey"
  have "steps ?p (fst (play demoExportAnswers ?p)) (snd (play demoExportAnswers ?p))" by (rule play_trace_steps) simp
  moreover have "\<exists>(q, a) \<in> set (fst (play demoExportAnswers ?p)). sendsWeight (Some 1) q" by code_simp
  moreover have "ises_Weight (ise_Spec (demoEndpointExport c 1)) = Some 1" for c by (simp add: demoEndpointExport_def)
  moreover have "sxr_EnableTrafficManagerFeature demoMember" by (simp add: demoMember_def)
  ultimately have sent: "\<forall>e \<in> set ?items. sentByMember refLib e" unfolding sentByMember_def by force
  have "\<not> isl (TMB_desired 0 demoBackend 500 ?items demoClusters)"
    by (simp add: TMB_desired_def demoClusters_def internalServiceExportMap_def demoEndpointExport_def isValidTrafficManagerEndpoint_def Let_def)
  then obtain desired invalid where d: "TMB_desired 0 demoBackend 500 ?items demoClusters = Inr (desired, invalid)"
    by (metis isl_def prod.exhaust sumE)
  have c: "distinct (map cs_Cluster demoClusters)" "length demoClusters < 2 ^ 40" by (simp_all add: demoClusters_def)
  have sv: "servedBy ?items demoClusters = [(''c1'', demoEndpointExport ''c1'' 1), (''c2'', demoEndpointExport ''c2'' 1)]" by code_simp
  have w: "exportWeight (demoEndpointExport c v) = v" for c v by (simp add: exportWeight_def demoEndpointExport_def)
  have n: "endpointNameOf demoBackend ''c1'' = ''fleet-u2#svc#c1''" by code_simp
  have "(''c1'', demoEndpointExport ''c1'' 1) \<in> set (servedBy ?items demoClusters)" by (simp add: sv)
  from exported_weights_are_divided [OF refLib_finalizer_laws refLib_condition_laws refLib_createOrUpdate_laws sent d c _ _ this]
  obtain e where "mget desired ''fleet-u2#svc#c1'' = Some e" "weightIn e = Some 250" by (auto simp: sv w n)
  with d show ?thesis by blast
qed

text \<open>C38. The two member controllers that manage exported endpoint slices agree: an export that the EndpointSlice
  controller has filled for a slice under its unique name is kept by the EndpointSliceExport controller, which
  looks up that slice and comes back after its interval, exactly as long as the slice carries the name; after
  that the export is deleted.\<close>

theorem slice_exports_are_kept:
  assumes "MES_fill L c es t u x0 = (None, x)" and "om_Name (ese_ObjectMeta x0) = u"
    and "om_CreationTimestamp (ese_ObjectMeta x0) = None \<or> referenceKey x0 = metaKey (es_ObjectMeta es)"
    and "ese_Spec y = ese_Spec x" and "metaKey (ese_ObjectMeta y) = metaKey (ese_ObjectMeta x)"
  shows "let reads = [(Get Hub KEndpointSliceExport n, RObj (OESE y)), (Get Mem KEndpointSlice (metaKey (es_ObjectMeta es)), RObj (OES es'))] in play [RObj (OESE y), RObj (OES es'), ROk] (MEE_Reconcile n) =
    (if uniqueNameOf es' = Some u then (reads, Ret (requeueAfter endpointSliceExportRetryInterval, None))
     else (reads @ [(Delete Hub KEndpointSliceExport (metaKey (ese_ObjectMeta x)), ROk)], Ret (emptyResult, None)))"
proof -
  have name: "om_Name (ese_ObjectMeta y) = u"
    using assms(2,5) MES_fill_ok [OF assms(1)] by (simp add: metaKey_def)
  have "referenceKey x = metaKey (es_ObjectMeta es)"
    using assms(1,3) by (auto simp: MES_fill_def Let_def referenceKey_def metaKey_def UpdateFromMetaObject_def FromMetaObjects_def split: if_splits)
  then have key: "referenceKey y = metaKey (es_ObjectMeta es)" using assms(4) by (simp add: referenceKey_def)
  have "MEE_isEndpointSliceExportLinkedWithEndpointSlice y es' \<longleftrightarrow> uniqueNameOf es' = Some u"
    by (auto simp: MEE_isEndpointSliceExportLinkedWithEndpointSlice_def uniqueNameOf_def name split: option.splits)
  then show ?thesis
    using assms(5) by (simp add: MEE_Reconcile_def MEE_deleteEndpointSliceExport_def prog_simps key decOk_def)
qed

theorem slice_exports_are_kept_witness:
  "\<exists>x. MES_fill refLib ''c1'' demoSliceNamed 0 ''c1-work-app-s-abcde'' (newESE ''fleet-member-c1'' ''c1-work-app-s-abcde'') = (None, x) \<and>
     snd (play [RObj (OESE x), RObj (OES demoSliceNamed), ROk] (MEE_Reconcile (metaKey (ese_ObjectMeta x)))) = Ret (requeueAfter endpointSliceExportRetryInterval, None)"
proof -
  let ?f = "MES_fill refLib ''c1'' demoSliceNamed 0 ''c1-work-app-s-abcde'' (newESE ''fleet-member-c1'' ''c1-work-app-s-abcde'')"
  have "fst ?f = None" by code_simp
  then have f: "?f = (None, snd ?f)" by (metis prod.collapse)
  have n: "om_Name (ese_ObjectMeta (newESE ''fleet-member-c1'' ''c1-work-app-s-abcde'')) = ''c1-work-app-s-abcde'' \<and>
      om_CreationTimestamp (ese_ObjectMeta (newESE ''fleet-member-c1'' ''c1-work-app-s-abcde'')) = None" by code_simp
  have "uniqueNameOf demoSliceNamed = Some ''c1-work-app-s-abcde''" by code_simp
  with slice_exports_are_kept [OF f conjunct1 [OF n] disjI1 [OF conjunct2 [OF n]] refl refl, of "metaKey (ese_ObjectMeta (snd ?f))" demoSliceNamed]
  have "snd (play [RObj (OESE (snd ?f)), RObj (OES demoSliceNamed), ROk] (MEE_Reconcile (metaKey (ese_ObjectMeta (snd ?f))))) =
      Ret (requeueAfter endpointSliceExportRetryInterval, None)" by (simp add: Let_def)
  with f show ?thesis by blast
qed

end
